theory Spec2Isabelle
  imports Main "HOL-Library.Sublist"
begin

section \<open>Effects: the outside world and what the program does to it\<close>

text \<open>
  The scripts talk to HTTP servers, to Firebase Storage and to Firestore. Every such call
  is an oracle over an abstract world \<open>'w\<close>: it takes the world, answers (a value or a
  thrown error, \<open>Inl\<close> the message) and returns the next world. What the program itself
  does to the outside (requests, writes, sleeps, log lines) is recorded, in order, in a
  list of events carried with the world.

  \<open>await Promise.all(xs.map(f))\<close> and \<open>Promise.allSettled\<close> are modelled as running
  the calls one after the other, each to its end. In the code every call starts before
  any of them ends, so the events of the calls of one \<open>Promise.all\<close> may come in
  another order than here, and an oracle whose answers depend on the world may answer
  them differently. What is proved below of the calls of \<open>processTrack\<close> holds for
  every oracle and for every state a call starts in.
\<close>

type_synonym bytes = "nat list"

text \<open>\<open>fetch(url)\<close>: the promise rejects, or gives a response with a status and a body;
  the body is what \<open>response.arrayBuffer()\<close> or \<open>response.json()\<close> gives when asked.\<close>

datatype 'd http_result = NetError string | HttpResponse nat "string + 'd"

datatype 't event =
    Log string string
  | Sleep nat
  | HttpGet string
  | FileSave string string
  | DocGet string
  | DocSet string
  | GetAll "string list"
  | BatchCommit "'t list"
  | FileExists string
  | GetMetadata string
  | SetMetadata string string
  | DocUpdate string "(string \<times> string) list"

type_synonym ('t, 'w) st = "'w \<times> 't event list"

definition emit :: "'t event \<Rightarrow> ('t, 'w) st \<Rightarrow> ('t, 'w) st" where
  "emit e s = (fst s, snd s @ [e])"

text \<open>\<open>log(tag, message)\<close> and \<open>sleep(ms)\<close> of utils.ts: a log line, a delay.\<close>

definition log :: "string \<Rightarrow> string \<Rightarrow> ('t, 'w) st \<Rightarrow> ('t, 'w) st" where
  "log tag msg s = emit (Log tag msg) s"

definition sleep :: "nat \<Rightarrow> ('t, 'w) st \<Rightarrow> ('t, 'w) st" where
  "sleep ms s = emit (Sleep ms) s"

text \<open>\<open>response.ok\<close>: the status is in the range 200..299.\<close>

definition response_ok :: "nat \<Rightarrow> bool" where
  "response_ok status = (200 \<le> status \<and> status \<le> 299)"

subsection \<open>Strings\<close>

text \<open>Strings are byte strings (UTF-8). Template literals print a number in decimal.\<close>

definition digit_char :: "nat \<Rightarrow> char" where
  "digit_char d = char_of (48 + d)"

fun show_nat :: "nat \<Rightarrow> string" where
  "show_nat n = (if n < 10 then [digit_char n] else show_nat (n div 10) @ [digit_char (n mod 10)])"

declare show_nat.simps [simp del]

definition show_bool :: "bool \<Rightarrow> string" where
  "show_bool b = (if b then ''true'' else ''false'')"

text \<open>\<open>s.startsWith(p)\<close>.\<close>

definition startsWith :: "string \<Rightarrow> string \<Rightarrow> bool" where
  "startsWith s p = prefix p s"

text \<open>\<open>s.indexOf(c)\<close> for a single character: its first position, or -1.\<close>

definition indexOf :: "string \<Rightarrow> char \<Rightarrow> int" where
  "indexOf s c = (if c \<in> set s then int (length (takeWhile (\<lambda>x. x \<noteq> c) s)) else - 1)"

section \<open>The track record (types.ts)\<close>

text \<open>
  The fields every adapter fills in. The record is extensible: whatever else
  \<open>TrackRecord\<close> carries lives in the \<open>more\<close> part, which a spread \<open>{ ...track, f: v }\<close>
  copies unchanged.
\<close>

record TrackRecord =
  track_id :: string
  title :: string
  artist :: string
  artistId :: string
  album :: string
  albumId :: string
  duration :: int
  artwork :: string
  audioUrl :: string
  genre :: string
  license :: string

section \<open>storageUploader.ts\<close>

definition CONCURRENCY :: nat where "CONCURRENCY = 5"
definition MAX_RETRIES :: nat where "MAX_RETRIES = 2"
definition RETRY_DELAY_MS :: nat where "RETRY_DELAY_MS = 2000"

text \<open>The bucket handle: its name and \<open>bucket.file(path).save(data, {contentType})\<close>,
  which answers \<open>Some m\<close> when it throws.\<close>

record 'w Bucket =
  bucket_name :: string
  file_save :: "string \<Rightarrow> bytes \<Rightarrow> string \<Rightarrow> 'w \<Rightarrow> string option \<times> 'w"

definition getSource :: "string \<Rightarrow> string" where
  "getSource trackId =
     (let dash = indexOf trackId (CHR ''-'')
      in if dash > 0 then take (nat dash) trackId else ''unknown'')"

definition downloadFile ::
  "(string \<Rightarrow> 'w \<Rightarrow> bytes http_result \<times> 'w) \<Rightarrow> string \<Rightarrow> ('t, 'w) st
     \<Rightarrow> (string + bytes) \<times> ('t, 'w) st" where
  "downloadFile fetch url s =
     (case fetch url (fst s) of
        (NetError m, w') \<Rightarrow> (Inl m, (w', snd s @ [HttpGet url]))
      | (HttpResponse status body, w') \<Rightarrow>
          (if \<not> response_ok status
           then Inl (''HTTP '' @ show_nat status @ '' downloading '' @ url)
           else body,
           (w', snd s @ [HttpGet url])))"

definition uploadToStorage ::
  "'w Bucket \<Rightarrow> string \<Rightarrow> bytes \<Rightarrow> string \<Rightarrow> ('t, 'w) st \<Rightarrow> (string + string) \<times> ('t, 'w) st" where
  "uploadToStorage bucket storagePath data contentType s =
     (case file_save bucket storagePath data contentType (fst s) of
        (Some m, w') \<Rightarrow> (Inl m, (w', snd s @ [FileSave storagePath contentType]))
      | (None, w') \<Rightarrow>
          (Inr (''gs://'' @ bucket_name bucket @ ''/'' @ storagePath),
           (w', snd s @ [FileSave storagePath contentType])))"

text \<open>The body of the \<open>try\<close> block of \<open>downloadAndUpload\<close>: one attempt.\<close>

definition attempt_once ::
  "(string \<Rightarrow> 'w \<Rightarrow> bytes http_result \<times> 'w) \<Rightarrow> 'w Bucket \<Rightarrow> string \<Rightarrow> string \<Rightarrow> string
     \<Rightarrow> ('t, 'w) st \<Rightarrow> (string + string) \<times> ('t, 'w) st" where
  "attempt_once fetch bucket sourceUrl storagePath contentType s =
     (case downloadFile fetch sourceUrl s of
        (Inl err, s1) \<Rightarrow> (Inl err, s1)
      | (Inr data, s1) \<Rightarrow> uploadToStorage bucket storagePath data contentType s1)"

text \<open>The \<open>for (let attempt = 0; attempt <= MAX_RETRIES; attempt++)\<close> loop, from a given
  value of \<open>attempt\<close>.\<close>

function downloadAndUpload_from ::
  "(string \<Rightarrow> 'w \<Rightarrow> bytes http_result \<times> 'w) \<Rightarrow> 'w Bucket \<Rightarrow> string \<Rightarrow> string \<Rightarrow> string
     \<Rightarrow> nat \<Rightarrow> ('t, 'w) st \<Rightarrow> string \<times> ('t, 'w) st" where
  "downloadAndUpload_from fetch bucket sourceUrl storagePath contentType attempt s =
     (if attempt \<le> MAX_RETRIES then
        (case attempt_once fetch bucket sourceUrl storagePath contentType s of
           (Inr gs, s1) \<Rightarrow> (gs, s1)
         | (Inl err, s1) \<Rightarrow>
             (if attempt < MAX_RETRIES
              then downloadAndUpload_from fetch bucket sourceUrl storagePath contentType
                     (attempt + 1) (sleep (RETRY_DELAY_MS * (attempt + 1)) s1)
              else (sourceUrl,
                    log ''storage''
                      (''Failed after '' @ show_nat (MAX_RETRIES + 1) @ '' attempts: ''
                         @ storagePath @ '' - '' @ err) s1)))
      else (sourceUrl, s))"
  by pat_completeness auto
termination
  by (relation "measure (\<lambda>(fetch, bucket, sourceUrl, storagePath, contentType, attempt, s).
        Suc MAX_RETRIES - attempt)") auto

declare downloadAndUpload_from.simps [simp del]

definition downloadAndUpload ::
  "(string \<Rightarrow> 'w \<Rightarrow> bytes http_result \<times> 'w) \<Rightarrow> 'w Bucket \<Rightarrow> string \<Rightarrow> string \<Rightarrow> string
     \<Rightarrow> ('t, 'w) st \<Rightarrow> string \<times> ('t, 'w) st" where
  "downloadAndUpload fetch bucket sourceUrl storagePath contentType s =
     downloadAndUpload_from fetch bucket sourceUrl storagePath contentType 0 s"

definition processTrack ::
  "(string \<Rightarrow> 'w \<Rightarrow> bytes http_result \<times> 'w) \<Rightarrow> 'w Bucket \<Rightarrow> 'a TrackRecord_scheme
     \<Rightarrow> ('t, 'w) st \<Rightarrow> 'a TrackRecord_scheme \<times> ('t, 'w) st" where
  "processTrack fetch bucket track s =
     (let source = getSource (track_id track);
          trackId = track_id track;
          (audioUrl', s1) =
            (if startsWith (audioUrl track) ''http''
             then downloadAndUpload fetch bucket (audioUrl track)
                    (''imports/'' @ source @ ''/'' @ trackId @ ''.mp3'') ''audio/mpeg'' s
             else (audioUrl track, s));
          (artwork', s2) =
            (if startsWith (artwork track) ''http''
             then downloadAndUpload fetch bucket (artwork track)
                    (''imports/'' @ source @ ''/'' @ trackId @ ''_cover.jpg'') ''image/jpeg'' s1
             else (artwork track, s1))
      in (track\<lparr>audioUrl := audioUrl', artwork := artwork'\<rparr>, s2))"

text \<open>\<open>await Promise.all(chunk.map(track => processTrack(bucket, track)))\<close>.\<close>

fun processChunk ::
  "(string \<Rightarrow> 'w \<Rightarrow> bytes http_result \<times> 'w) \<Rightarrow> 'w Bucket \<Rightarrow> 'a TrackRecord_scheme list
     \<Rightarrow> ('t, 'w) st \<Rightarrow> 'a TrackRecord_scheme list \<times> ('t, 'w) st" where
  "processChunk fetch bucket [] s = ([], s)"
| "processChunk fetch bucket (track # rest) s =
     (let (track', s1) = processTrack fetch bucket track s;
          (rest', s2) = processChunk fetch bucket rest s1
      in (track' # rest', s2))"

text \<open>The inner \<open>for (const track of processed)\<close>: the counters after the chunk.\<close>

definition count_stored :: "'a TrackRecord_scheme list \<Rightarrow> nat" where
  "count_stored processed = length (filter (\<lambda>track. startsWith (audioUrl track) ''gs://'') processed)"

text \<open>The \<open>for (let i = 0; i < tracks.length; i += CONCURRENCY)\<close> loop, from a given
  \<open>i\<close>, with \<open>results\<close>, \<open>completed\<close> and \<open>storedCount\<close> as they stand.\<close>

function uploadLoop ::
  "(string \<Rightarrow> 'w \<Rightarrow> bytes http_result \<times> 'w) \<Rightarrow> 'w Bucket \<Rightarrow> 'a TrackRecord_scheme list
     \<Rightarrow> nat \<Rightarrow> 'a TrackRecord_scheme list \<Rightarrow> nat \<Rightarrow> nat \<Rightarrow> ('t, 'w) st
     \<Rightarrow> ('a TrackRecord_scheme list \<times> nat) \<times> ('t, 'w) st" where
  "uploadLoop fetch bucket tracks i results completed storedCount s =
     (if i < length tracks then
        (let chunk = take CONCURRENCY (drop i tracks);
             (processed, s1) = processChunk fetch bucket chunk s;
             results' = results @ processed;
             completed' = completed + length processed;
             storedCount' = storedCount + count_stored processed;
             s2 = (if completed' mod 20 = 0 \<or> completed' = length tracks
                   then log ''storage''
                          (''Progress: '' @ show_nat completed' @ ''/'' @ show_nat (length tracks)
                             @ '' ('' @ show_nat storedCount' @ '' stored in Storage)'') s1
                   else s1)
         in uploadLoop fetch bucket tracks (i + CONCURRENCY) results' completed' storedCount' s2)
      else ((results, storedCount), s))"
  by pat_completeness auto
termination
  by (relation "measure (\<lambda>(fetch, bucket, tracks, i, results, completed, storedCount, s).
        length tracks - i)") (auto simp: CONCURRENCY_def)

declare uploadLoop.simps [simp del]

definition uploadAllTrackAssets ::
  "(string \<Rightarrow> 'w \<Rightarrow> bytes http_result \<times> 'w) \<Rightarrow> 'w Bucket \<Rightarrow> 'a TrackRecord_scheme list
     \<Rightarrow> ('t, 'w) st \<Rightarrow> 'a TrackRecord_scheme list \<times> ('t, 'w) st" where
  "uploadAllTrackAssets fetch bucket tracks s =
     (if length tracks = 0 then (tracks, s)
      else
        (let s0 = log ''storage''
                    (''Starting upload of '' @ show_nat (length tracks) @ '' tracks (concurrency: ''
                       @ show_nat CONCURRENCY @ '')...'') s;
             ((results, storedCount), s1) = uploadLoop fetch bucket tracks 0 [] 0 0 s0
         in (results,
             log ''storage''
               (''Upload complete: '' @ show_nat storedCount @ ''/'' @ show_nat (length tracks)
                  @ '' tracks stored in Firebase Storage'') s1)))"


section \<open>Firestore, as the import scripts use it\<close>

text \<open>A document reference \<open>db.doc(path)\<close> holding data of type \<open>'s\<close>: \<open>get()\<close> rejects
  (\<open>Inl\<close>), or gives the data, \<open>None\<close> when the document does not exist; \<open>set(v)\<close>
  answers \<open>Some m\<close> when it rejects.\<close>

record ('s, 'w) DocRef =
  doc_get :: "'w \<Rightarrow> (string + 's option) \<times> 'w"
  doc_set :: "'s \<Rightarrow> 'w \<Rightarrow> string option \<times> 'w"

record CCMixterState =
  contentTypeIndex :: nat
  offsetByType :: "string \<rightharpoonup> nat"
  cc_lastRun :: string

record MBState =
  tagIndex :: nat
  offsetByTag :: "string \<rightharpoonup> nat"
  mb_lastRun :: string

record DiscogsState =
  searchIndex :: nat
  offsetBySearch :: "string \<rightharpoonup> nat"
  dg_lastRun :: string

text \<open>
  The database handle \<open>db\<close>: \<open>db.getAll(...refs)\<close> on references into the \<open>tracks\<close>
  collection gives one snapshot (document id, \<open>exists\<close>) per reference, in order;
  \<open>batch.commit()\<close> of a batch of \<open>set\<close> operations on \<open>tracks/<id>\<close>; and the three
  progress documents \<open>db.doc(STATE_DOC)\<close> of the adapters.
\<close>

record ('a, 'w) Firestore =
  getAll :: "string list \<Rightarrow> 'w \<Rightarrow> (string + (string \<times> bool) list) \<times> 'w"
  batch_commit :: "'a TrackRecord_scheme list \<Rightarrow> 'w \<Rightarrow> string option \<times> 'w"
  doc_ccmixter :: "(CCMixterState, 'w) DocRef"
  doc_musicbrainz :: "(MBState, 'w) DocRef"
  doc_discogs :: "(DiscogsState, 'w) DocRef"

section \<open>What the adapters share\<close>

record 'a SourceResult =
  sourceName :: string
  tracks :: "'a TrackRecord_scheme list"
  errors :: "string list"

text \<open>The local variables \<open>state\<close>, \<open>errors\<close>, \<open>seen\<close> and \<open>tracks\<close> of an adapter.\<close>

record ('s, 'a) fetch_vars =
  v_state :: 's
  v_errors :: "string list"
  v_seen :: "string set"
  v_tracks :: "'a TrackRecord_scheme list"

text \<open>\<open>a || b\<close> on an optional string: \<open>undefined\<close> and the empty string are falsy.\<close>

definition or_str :: "string option \<Rightarrow> string \<Rightarrow> string" where
  "or_str a b = (case a of None \<Rightarrow> b | Some x \<Rightarrow> if x = [] then b else x)"

text \<open>\<open>xs?.[0]\<close> on an optional array.\<close>

definition first_opt :: "'x list option \<Rightarrow> 'x option" where
  "first_opt xs = (case xs of None \<Rightarrow> None | Some [] \<Rightarrow> None | Some (x # _) \<Rightarrow> Some x)"

text \<open>\<open>xs.join(sep)\<close>.\<close>

fun join :: "string \<Rightarrow> string list \<Rightarrow> string" where
  "join sep [] = []"
| "join sep [x] = x"
| "join sep (x # y # ys) = x @ sep @ join sep (y # ys)"

text \<open>\<open>encodeURIComponent\<close> on a UTF-8 byte string: the unreserved characters stay, every
  other byte becomes \<open>%XX\<close>.\<close>

definition hex_digit :: "nat \<Rightarrow> char" where
  "hex_digit d = (if d < 10 then char_of (48 + d) else char_of (55 + d))"

definition uri_unreserved :: "char \<Rightarrow> bool" where
  "uri_unreserved c =
     (let n = (of_char c :: nat)
      in (65 \<le> n \<and> n \<le> 90) \<or> (97 \<le> n \<and> n \<le> 122) \<or> (48 \<le> n \<and> n \<le> 57)
         \<or> c \<in> set ''-_.!~*()'' \<or> n = 39)"

definition encodeURIComponent :: "string \<Rightarrow> string" where
  "encodeURIComponent s =
     concat (map (\<lambda>c. if uri_unreserved c then [c]
                       else [CHR ''%'', hex_digit ((of_char c :: nat) div 16),
                             hex_digit ((of_char c :: nat) mod 16)]) s)"

section \<open>sources/ccmixter.ts\<close>

definition CC_SOURCE :: string where "CC_SOURCE = ''ccmixter''"
definition CC_BASE_URL :: string where "CC_BASE_URL = ''https://dig.ccmixter.org/api/records/''"
definition CC_PAGE_SIZE :: nat where "CC_PAGE_SIZE = 50"
definition CC_STATE_DOC :: string where "CC_STATE_DOC = ''import-state/ccmixter''"
definition LICENSE_FILTER :: string where "LICENSE_FILTER = ''cc''"
definition CONTENT_TYPES :: "string list" where
  "CONTENT_TYPES = [''opsample'', ''remix'', ''cover'']"
definition typesToFetch :: nat where "typesToFetch = 2"

record CCMixterImages =
  large :: "string option"
  medium :: "string option"

record CCMixterTrack =
  cc_id :: string
  cc_upload_id :: string
  cc_name :: string
  cc_artist :: string
  cc_artist_id :: string
  cc_images :: "CCMixterImages option"
  cc_duration :: "int option"

definition cc_url :: "string \<Rightarrow> nat \<Rightarrow> string" where
  "cc_url contentType offset =
     CC_BASE_URL @ ''?q='' @ contentType @ ''&license='' @ LICENSE_FILTER
       @ ''&limit='' @ show_nat CC_PAGE_SIZE @ ''&offset='' @ show_nat offset @ ''&fmt=json''"

text \<open>The object literal handed to \<open>sanitizeTrack\<close> for one record.\<close>

definition cc_track :: "string \<Rightarrow> CCMixterTrack \<Rightarrow> string \<Rightarrow> TrackRecord" where
  "cc_track contentType r artwork' =
     \<lparr> track_id = ''ccmixter-'' @ cc_id r,
       title = cc_name r,
       artist = cc_artist r,
       artistId = ''ccmixter-'' @ cc_artist_id r,
       album = contentType @ '' Collection'',
       albumId = ''ccmixter-'' @ contentType,
       duration = (case cc_duration r of None \<Rightarrow> 0 | Some d \<Rightarrow> d),
       artwork = artwork',
       audioUrl = ''https://ccmixter.org/4download/file/'' @ cc_upload_id r,
       genre = (if contentType = ''opsample'' then ''Sample'' else contentType),
       license = ''Creative Commons'' \<rparr>"

text \<open>
  \<open>for (const record of data.records)\<close>, with \<open>seen\<close> and \<open>tracks\<close> as they stand. The
  first component is the message of an exception that left the loop; \<open>sanitizeTrack\<close>
  (utils.ts) is a parameter, \<open>Inl\<close> when it throws.
\<close>

fun cc_records ::
  "(TrackRecord \<Rightarrow> string + 'a TrackRecord_scheme) \<Rightarrow> string \<Rightarrow> CCMixterTrack list
     \<Rightarrow> string set \<Rightarrow> 'a TrackRecord_scheme list
     \<Rightarrow> string option \<times> string set \<times> 'a TrackRecord_scheme list" where
  "cc_records sanitizeTrack contentType [] seen' tracks' = (None, seen', tracks')"
| "cc_records sanitizeTrack contentType (r # rest) seen' tracks' =
     (if cc_name r = [] \<or> cc_artist r = [] then
        cc_records sanitizeTrack contentType rest seen' tracks'
      else
        (let artwork' = (case cc_images r of None \<Rightarrow> []
                         | Some im \<Rightarrow> or_str (large im) (or_str (medium im) []))
         in if artwork' = [] then cc_records sanitizeTrack contentType rest seen' tracks'
            else
              (let id' = ''ccmixter-'' @ cc_id r
               in if id' \<in> seen' then cc_records sanitizeTrack contentType rest seen' tracks'
                  else
                    (case sanitizeTrack (cc_track contentType r artwork') of
                       Inl err \<Rightarrow> (Some err, insert id' seen', tracks')
                     | Inr t \<Rightarrow>
                         cc_records sanitizeTrack contentType rest (insert id' seen')
                           (tracks' @ [t])))))"

text \<open>One turn of \<open>for (let ct = 0; ct < typesToFetch; ct++)\<close>. Every path through the
  body (\<open>continue\<close>, the end of the \<open>try\<close>, the \<open>catch\<close>) goes on to the next turn.\<close>

definition cc_fetch_type ::
  "(TrackRecord \<Rightarrow> string + 'a TrackRecord_scheme)
     \<Rightarrow> (string \<Rightarrow> 'w \<Rightarrow> CCMixterTrack list option http_result \<times> 'w)
     \<Rightarrow> nat \<Rightarrow> (CCMixterState, 'a) fetch_vars \<times> ('t, 'w) st
     \<Rightarrow> (CCMixterState, 'a) fetch_vars \<times> ('t, 'w) st" where
  "cc_fetch_type sanitizeTrack fetch ct vs =
     (let v = fst vs; s = snd vs;
          typeIdx = (contentTypeIndex (v_state v) + ct) mod length CONTENT_TYPES;
          contentType = CONTENT_TYPES ! typeIdx;
          offset = (case offsetByType (v_state v) contentType of None \<Rightarrow> 0 | Some n \<Rightarrow> n);
          url = cc_url contentType offset;
          s1 = log CC_SOURCE (''['' @ contentType @ ''] offset '' @ show_nat offset @ ''...'') s;
          r = fst (fetch url (fst s1));
          s2 = (snd (fetch url (fst s1)), snd s1 @ [HttpGet url])
      in case r of
           NetError m \<Rightarrow> (v\<lparr>v_errors := v_errors v @ [contentType @ '': '' @ m]\<rparr>, s2)
         | HttpResponse status body \<Rightarrow>
             (if \<not> response_ok status then
                (v\<lparr>v_errors := v_errors v
                      @ [''HTTP '' @ show_nat status @ '' on type '' @ contentType]\<rparr>, s2)
              else
                (case body of
                   Inl m \<Rightarrow> (v\<lparr>v_errors := v_errors v @ [contentType @ '': '' @ m]\<rparr>, s2)
                 | Inr records \<Rightarrow>
                     (if records = None \<or> records = Some [] then
                        (v\<lparr>v_state := (v_state v)\<lparr>offsetByType :=
                              (offsetByType (v_state v))(contentType \<mapsto> 0)\<rparr>\<rparr>, s2)
                      else
                        (case cc_records sanitizeTrack contentType (the records)
                                (v_seen v) (v_tracks v) of
                           (Some err, seen', tracks') \<Rightarrow>
                             (v\<lparr>v_seen := seen', v_tracks := tracks',
                                v_errors := v_errors v @ [contentType @ '': '' @ err]\<rparr>, s2)
                         | (None, seen', tracks') \<Rightarrow>
                             (v\<lparr>v_seen := seen', v_tracks := tracks',
                                v_state := (v_state v)\<lparr>offsetByType :=
                                  (offsetByType (v_state v))(contentType \<mapsto> offset + CC_PAGE_SIZE)\<rparr>\<rparr>,
                              sleep 400 s2))))))"

text \<open>Loading the progress document: the defaults when there is no database, no
  document, or \<open>get\<close> throws.\<close>

definition cc_load ::
  "('a, 'w) Firestore option \<Rightarrow> ('t, 'w) st \<Rightarrow> CCMixterState \<times> ('t, 'w) st" where
  "cc_load db s =
     (let state0 = \<lparr>contentTypeIndex = 0, offsetByType = Map.empty, cc_lastRun = []\<rparr>
      in case db of
           None \<Rightarrow> (state0, s)
         | Some d \<Rightarrow>
             (let s1 = (snd (doc_get (doc_ccmixter d) (fst s)), snd s @ [DocGet CC_STATE_DOC])
              in case fst (doc_get (doc_ccmixter d) (fst s)) of
                   Inl m \<Rightarrow> (state0, log CC_SOURCE (''Could not load state: '' @ m) s1)
                 | Inr None \<Rightarrow> (state0, s1)
                 | Inr (Some st) \<Rightarrow> (st, s1)))"

text \<open>Saving it; \<open>now\<close> is \<open>new Date().toISOString()\<close>.\<close>

definition cc_save ::
  "('w \<Rightarrow> string \<times> 'w) \<Rightarrow> ('a, 'w) Firestore option \<Rightarrow> CCMixterState \<Rightarrow> ('t, 'w) st
     \<Rightarrow> ('t, 'w) st" where
  "cc_save now db state' s =
     (case db of
        None \<Rightarrow> s
      | Some d \<Rightarrow>
          (let newState =
                 \<lparr>contentTypeIndex = (contentTypeIndex state' + typesToFetch) mod length CONTENT_TYPES,
                  offsetByType = offsetByType state',
                  cc_lastRun = fst (now (fst s))\<rparr>;
               w1 = snd (now (fst s));
               s1 = (snd (doc_set (doc_ccmixter d) newState w1), snd s @ [DocSet CC_STATE_DOC])
           in case fst (doc_set (doc_ccmixter d) newState w1) of
                None \<Rightarrow> log CC_SOURCE (''State saved: typeIdx='' @ show_nat (contentTypeIndex newState)) s1
              | Some m \<Rightarrow> log CC_SOURCE (''Could not save state: '' @ m) s1))"

definition fetchCCMixter ::
  "(TrackRecord \<Rightarrow> string + 'a TrackRecord_scheme)
     \<Rightarrow> (string \<Rightarrow> 'w \<Rightarrow> CCMixterTrack list option http_result \<times> 'w)
     \<Rightarrow> ('w \<Rightarrow> string \<times> 'w)
     \<Rightarrow> ('a, 'w) Firestore option \<Rightarrow> ('t, 'w) st \<Rightarrow> 'a SourceResult \<times> ('t, 'w) st" where
  "fetchCCMixter sanitizeTrack fetch now db s =
     (let loaded = cc_load db s;
          vs = foldl (\<lambda>vs ct. cc_fetch_type sanitizeTrack fetch ct vs)
                 (\<lparr>v_state = fst loaded, v_errors = [], v_seen = {}, v_tracks = []\<rparr>, snd loaded)
                 [0..<typesToFetch];
          v = fst vs;
          s3 = cc_save now db (v_state v) (snd vs);
          s4 = log CC_SOURCE
                 (''Fetched '' @ show_nat (length (v_tracks v)) @ '' unique tracks (''
                    @ show_nat (length (v_errors v)) @ '' errors)'') s3
      in (\<lparr>sourceName = CC_SOURCE, tracks = v_tracks v, errors = v_errors v\<rparr>, s4))"


section \<open>sources/musicbrainz.ts\<close>

definition MB_SOURCE :: string where "MB_SOURCE = ''musicbrainz''"
definition MB_BASE_URL :: string where "MB_BASE_URL = ''https://musicbrainz.org/ws/2/''"
definition MB_PAGE_SIZE :: nat where "MB_PAGE_SIZE = 100"
definition MB_STATE_DOC :: string where "MB_STATE_DOC = ''import-state/musicbrainz''"
definition TAG_FILTERS :: "string list" where
  "TAG_FILTERS = [''rock'', ''metal'', ''electronic'', ''hip-hop'', ''experimental'',
                  ''indie'', ''pop'', ''jazz'', ''folk'', ''ambient'']"
definition tagsToFetch :: nat where "tagsToFetch = 2"

text \<open>One entry of \<open>'artist-credit'\<close>: the \<open>id\<close> and \<open>name\<close> of its \<open>artist\<close>.\<close>

record MBArtistCredit =
  ac_artist_id :: string
  ac_artist_name :: string

record MBRelease =
  rel_id :: string
  rel_title :: string
  rel_images :: "string list option"

record MBRecording =
  mb_id :: string
  mb_title :: string
  mb_artist_credit :: "MBArtistCredit list option"
  mb_releases :: "MBRelease list option"
  mb_length :: "int option"

definition mb_url :: "string \<Rightarrow> nat \<Rightarrow> string" where
  "mb_url tag offset =
     MB_BASE_URL @ ''recordings?query=tag:'' @ encodeURIComponent tag @ '' AND status:official''
       @ ''&limit='' @ show_nat MB_PAGE_SIZE @ ''&offset='' @ show_nat offset
       @ ''&fmt=json&inc=releases+recordings+artists''"

text \<open>The artwork of a recording: \<open>releases[0].images[0].image\<close> when both arrays are
  there and not empty, else the empty string.\<close>

definition mb_artwork :: "MBRecording \<Rightarrow> string" where
  "mb_artwork r =
     (case first_opt (mb_releases r) of
        None \<Rightarrow> []
      | Some release \<Rightarrow> (case first_opt (rel_images release) of None \<Rightarrow> [] | Some img \<Rightarrow> img))"

text \<open>The object literal handed to \<open>sanitizeTrack\<close>; evaluating
  \<open>recording['artist-credit'][0].artist.id\<close> on an empty array throws a TypeError.
  \<open>Math.round(length / 1000)\<close> on an integer rounds halves up.\<close>

definition mb_track :: "string \<Rightarrow> MBRecording \<Rightarrow> string \<Rightarrow> string + TrackRecord" where
  "mb_track tag r artwork' =
     (let credits = the (mb_artist_credit r)
      in case credits of
           [] \<Rightarrow> Inl ''Cannot read properties of undefined (reading 'artist')''
         | ac # _ \<Rightarrow>
             Inr \<lparr> track_id = ''musicbrainz-'' @ mb_id r,
                   title = mb_title r,
                   artist = join '', '' (map ac_artist_name credits),
                   artistId = ''musicbrainz-'' @ ac_artist_id ac,
                   album = or_str (map_option rel_title (first_opt (mb_releases r))) ''Unknown Album'',
                   albumId = ''musicbrainz-''
                     @ or_str (map_option rel_id (first_opt (mb_releases r))) [],
                   duration = (case mb_length r of None \<Rightarrow> 0
                               | Some l \<Rightarrow> if l = 0 then 0 else (l + 500) div 1000),
                   artwork = artwork',
                   audioUrl = [],
                   genre = tag,
                   license = ''Various (MusicBrainz Open Data)'' \<rparr>)"

fun mb_recordings ::
  "(TrackRecord \<Rightarrow> string + 'a TrackRecord_scheme) \<Rightarrow> string \<Rightarrow> MBRecording list
     \<Rightarrow> string set \<Rightarrow> 'a TrackRecord_scheme list
     \<Rightarrow> string option \<times> string set \<times> 'a TrackRecord_scheme list" where
  "mb_recordings sanitizeTrack tag [] seen' tracks' = (None, seen', tracks')"
| "mb_recordings sanitizeTrack tag (r # rest) seen' tracks' =
     (if mb_title r = [] \<or> mb_artist_credit r = None then
        mb_recordings sanitizeTrack tag rest seen' tracks'
      else
        (let artwork' = mb_artwork r
         in if artwork' = [] then mb_recordings sanitizeTrack tag rest seen' tracks'
            else
              (let id' = ''musicbrainz-'' @ mb_id r
               in if id' \<in> seen' then mb_recordings sanitizeTrack tag rest seen' tracks'
                  else
                    (case mb_track tag r artwork' of
                       Inl err \<Rightarrow> (Some err, insert id' seen', tracks')
                     | Inr literal \<Rightarrow>
                         (case sanitizeTrack literal of
                            Inl err \<Rightarrow> (Some err, insert id' seen', tracks')
                          | Inr t \<Rightarrow>
                              mb_recordings sanitizeTrack tag rest (insert id' seen')
                                (tracks' @ [t]))))))"

definition mb_fetch_tag ::
  "(TrackRecord \<Rightarrow> string + 'a TrackRecord_scheme)
     \<Rightarrow> (string \<Rightarrow> 'w \<Rightarrow> MBRecording list option http_result \<times> 'w)
     \<Rightarrow> nat \<Rightarrow> (MBState, 'a) fetch_vars \<times> ('t, 'w) st
     \<Rightarrow> (MBState, 'a) fetch_vars \<times> ('t, 'w) st" where
  "mb_fetch_tag sanitizeTrack fetch t vs =
     (let v = fst vs; s = snd vs;
          tagIdx = (tagIndex (v_state v) + t) mod length TAG_FILTERS;
          tag = TAG_FILTERS ! tagIdx;
          offset = (case offsetByTag (v_state v) tag of None \<Rightarrow> 0 | Some n \<Rightarrow> n);
          url = mb_url tag offset;
          s1 = log MB_SOURCE (''['' @ tag @ ''] offset '' @ show_nat offset @ ''...'') s;
          r = fst (fetch url (fst s1));
          s2 = (snd (fetch url (fst s1)), snd s1 @ [HttpGet url])
      in case r of
           NetError m \<Rightarrow> (v\<lparr>v_errors := v_errors v @ [tag @ '': '' @ m]\<rparr>, s2)
         | HttpResponse status body \<Rightarrow>
             (if \<not> response_ok status then
                (v\<lparr>v_errors := v_errors v
                      @ [''HTTP '' @ show_nat status @ '' on tag '' @ tag]\<rparr>, s2)
              else
                (case body of
                   Inl m \<Rightarrow> (v\<lparr>v_errors := v_errors v @ [tag @ '': '' @ m]\<rparr>, s2)
                 | Inr recordings \<Rightarrow>
                     (if recordings = None \<or> recordings = Some [] then
                        (v\<lparr>v_state := (v_state v)\<lparr>offsetByTag :=
                              (offsetByTag (v_state v))(tag \<mapsto> 0)\<rparr>\<rparr>, s2)
                      else
                        (case mb_recordings sanitizeTrack tag (the recordings)
                                (v_seen v) (v_tracks v) of
                           (Some err, seen', tracks') \<Rightarrow>
                             (v\<lparr>v_seen := seen', v_tracks := tracks',
                                v_errors := v_errors v @ [tag @ '': '' @ err]\<rparr>, s2)
                         | (None, seen', tracks') \<Rightarrow>
                             (v\<lparr>v_seen := seen', v_tracks := tracks',
                                v_state := (v_state v)\<lparr>offsetByTag :=
                                  (offsetByTag (v_state v))(tag \<mapsto> offset + MB_PAGE_SIZE)\<rparr>\<rparr>,
                              sleep 500 s2))))))"

definition mb_load ::
  "('a, 'w) Firestore option \<Rightarrow> ('t, 'w) st \<Rightarrow> MBState \<times> ('t, 'w) st" where
  "mb_load db s =
     (let state0 = \<lparr>tagIndex = 0, offsetByTag = Map.empty, mb_lastRun = []\<rparr>
      in case db of
           None \<Rightarrow> (state0, s)
         | Some d \<Rightarrow>
             (let s1 = (snd (doc_get (doc_musicbrainz d) (fst s)), snd s @ [DocGet MB_STATE_DOC])
              in case fst (doc_get (doc_musicbrainz d) (fst s)) of
                   Inl m \<Rightarrow> (state0, log MB_SOURCE (''Could not load state: '' @ m) s1)
                 | Inr None \<Rightarrow> (state0, s1)
                 | Inr (Some st) \<Rightarrow> (st, s1)))"

definition mb_save ::
  "('w \<Rightarrow> string \<times> 'w) \<Rightarrow> ('a, 'w) Firestore option \<Rightarrow> MBState \<Rightarrow> ('t, 'w) st
     \<Rightarrow> ('t, 'w) st" where
  "mb_save now db state' s =
     (case db of
        None \<Rightarrow> s
      | Some d \<Rightarrow>
          (let newState =
                 \<lparr>tagIndex = (tagIndex state' + tagsToFetch) mod length TAG_FILTERS,
                  offsetByTag = offsetByTag state',
                  mb_lastRun = fst (now (fst s))\<rparr>;
               w1 = snd (now (fst s));
               s1 = (snd (doc_set (doc_musicbrainz d) newState w1), snd s @ [DocSet MB_STATE_DOC])
           in case fst (doc_set (doc_musicbrainz d) newState w1) of
                None \<Rightarrow> log MB_SOURCE (''State saved: tagIdx='' @ show_nat (tagIndex newState)) s1
              | Some m \<Rightarrow> log MB_SOURCE (''Could not save state: '' @ m) s1))"

definition fetchMusicBrainz ::
  "(TrackRecord \<Rightarrow> string + 'a TrackRecord_scheme)
     \<Rightarrow> (string \<Rightarrow> 'w \<Rightarrow> MBRecording list option http_result \<times> 'w)
     \<Rightarrow> ('w \<Rightarrow> string \<times> 'w)
     \<Rightarrow> ('a, 'w) Firestore option \<Rightarrow> ('t, 'w) st \<Rightarrow> 'a SourceResult \<times> ('t, 'w) st" where
  "fetchMusicBrainz sanitizeTrack fetch now db s =
     (let loaded = mb_load db s;
          vs = foldl (\<lambda>vs t. mb_fetch_tag sanitizeTrack fetch t vs)
                 (\<lparr>v_state = fst loaded, v_errors = [], v_seen = {}, v_tracks = []\<rparr>, snd loaded)
                 [0..<tagsToFetch];
          v = fst vs;
          s3 = mb_save now db (v_state v) (snd vs);
          s4 = log MB_SOURCE
                 (''Fetched '' @ show_nat (length (v_tracks v)) @ '' unique tracks (''
                    @ show_nat (length (v_errors v)) @ '' errors)'') s3
      in (\<lparr>sourceName = MB_SOURCE, tracks = v_tracks v, errors = v_errors v\<rparr>, s4))"

section \<open>sources/discogs.ts\<close>

definition DG_SOURCE :: string where "DG_SOURCE = ''discogs''"
definition DG_BASE_URL :: string where "DG_BASE_URL = ''https://api.discogs.com/''"
definition DG_PAGE_SIZE :: nat where "DG_PAGE_SIZE = 50"
definition DG_STATE_DOC :: string where "DG_STATE_DOC = ''import-state/discogs''"
definition SEARCHES :: "string list" where
  "SEARCHES = [''genre:rock year:[2010 TO 2026] type:release'',
               ''genre:electronic year:[2010 TO 2026] type:release'',
               ''genre:hip-hop year:[2010 TO 2026] type:release'',
               ''genre:pop year:[2010 TO 2026] type:release'',
               ''genre:metal year:[2010 TO 2026] type:release'']"
definition searchesToFetch :: nat where "searchesToFetch = 2"

record DiscogsArtist =
  dga_name :: string
  dga_id :: string

record DiscogsRelease =
  dg_id :: string
  dg_title :: string
  dg_artists :: "DiscogsArtist list option"
  dg_genres :: "string list option"
  dg_styles :: "string list option"
  dg_thumb :: "string option"

definition dg_url :: "string \<Rightarrow> nat \<Rightarrow> string \<Rightarrow> string" where
  "dg_url search page discogsToken =
     DG_BASE_URL @ ''database/search?q='' @ encodeURIComponent search
       @ ''&per_page='' @ show_nat DG_PAGE_SIZE @ ''&page='' @ show_nat page
       @ ''&token='' @ discogsToken @ ''&format=json''"

definition dg_track :: "DiscogsRelease \<Rightarrow> TrackRecord" where
  "dg_track r =
     \<lparr> track_id = ''discogs-'' @ dg_id r,
       title = dg_title r,
       artist = or_str (map_option dga_name (first_opt (dg_artists r))) ''Unknown Artist'',
       artistId = ''discogs-'' @ or_str (map_option dga_id (first_opt (dg_artists r))) [],
       album = dg_title r,
       albumId = ''discogs-'' @ dg_id r,
       duration = 0,
       artwork = or_str (dg_thumb r) [],
       audioUrl = [],
       genre = or_str (first_opt (dg_genres r)) (or_str (first_opt (dg_styles r)) ''Miscellaneous''),
       license = ''Various (Discogs Metadata)'' \<rparr>"

fun dg_results ::
  "(TrackRecord \<Rightarrow> string + 'a TrackRecord_scheme) \<Rightarrow> DiscogsRelease list
     \<Rightarrow> string set \<Rightarrow> 'a TrackRecord_scheme list
     \<Rightarrow> string option \<times> string set \<times> 'a TrackRecord_scheme list" where
  "dg_results sanitizeTrack [] seen' tracks' = (None, seen', tracks')"
| "dg_results sanitizeTrack (r # rest) seen' tracks' =
     (if dg_title r = [] \<or> or_str (dg_thumb r) [] = [] then
        dg_results sanitizeTrack rest seen' tracks'
      else
        (let id' = ''discogs-'' @ dg_id r
         in if id' \<in> seen' then dg_results sanitizeTrack rest seen' tracks'
            else
              (case sanitizeTrack (dg_track r) of
                 Inl err \<Rightarrow> (Some err, insert id' seen', tracks')
               | Inr t \<Rightarrow> dg_results sanitizeTrack rest (insert id' seen') (tracks' @ [t]))))"

definition dg_fetch_search ::
  "(TrackRecord \<Rightarrow> string + 'a TrackRecord_scheme)
     \<Rightarrow> (string \<Rightarrow> 'w \<Rightarrow> DiscogsRelease list option http_result \<times> 'w)
     \<Rightarrow> string \<Rightarrow> nat \<Rightarrow> (DiscogsState, 'a) fetch_vars \<times> ('t, 'w) st
     \<Rightarrow> (DiscogsState, 'a) fetch_vars \<times> ('t, 'w) st" where
  "dg_fetch_search sanitizeTrack fetch discogsToken i vs =
     (let v = fst vs; s = snd vs;
          searchIdx = (searchIndex (v_state v) + i) mod length SEARCHES;
          search = SEARCHES ! searchIdx;
          offset = (case offsetBySearch (v_state v) search of None \<Rightarrow> 0 | Some n \<Rightarrow> n);
          page = offset div DG_PAGE_SIZE + 1;
          url = dg_url search page discogsToken;
          s1 = log DG_SOURCE (''['' @ show_nat searchIdx @ ''] '' @ [CHR 0x22] @ search @ [CHR 0x22]
                               @ '' page '' @ show_nat page @ ''...'') s;
          r = fst (fetch url (fst s1));
          s2 = (snd (fetch url (fst s1)), snd s1 @ [HttpGet url])
      in case r of
           NetError m \<Rightarrow>
             (v\<lparr>v_errors := v_errors v
                   @ [''Search '' @ [CHR 0x22] @ search @ [CHR 0x22] @ '': '' @ m]\<rparr>, s2)
         | HttpResponse status body \<Rightarrow>
             (if \<not> response_ok status then
                (v\<lparr>v_errors := v_errors v
                      @ [''HTTP '' @ show_nat status @ '' on search '' @ [CHR 0x22] @ search
                           @ [CHR 0x22]]\<rparr>, s2)
              else
                (case body of
                   Inl m \<Rightarrow>
                     (v\<lparr>v_errors := v_errors v
                           @ [''Search '' @ [CHR 0x22] @ search @ [CHR 0x22] @ '': '' @ m]\<rparr>, s2)
                 | Inr results \<Rightarrow>
                     (if results = None \<or> results = Some [] then
                        (v\<lparr>v_state := (v_state v)\<lparr>offsetBySearch :=
                              (offsetBySearch (v_state v))(search \<mapsto> 0)\<rparr>\<rparr>, s2)
                      else
                        (case dg_results sanitizeTrack (the results) (v_seen v) (v_tracks v) of
                           (Some err, seen', tracks') \<Rightarrow>
                             (v\<lparr>v_seen := seen', v_tracks := tracks',
                                v_errors := v_errors v
                                  @ [''Search '' @ [CHR 0x22] @ search @ [CHR 0x22] @ '': '' @ err]\<rparr>,
                              s2)
                         | (None, seen', tracks') \<Rightarrow>
                             (v\<lparr>v_seen := seen', v_tracks := tracks',
                                v_state := (v_state v)\<lparr>offsetBySearch :=
                                  (offsetBySearch (v_state v))(search \<mapsto> offset + DG_PAGE_SIZE)\<rparr>\<rparr>,
                              sleep 600 s2))))))"

definition dg_load ::
  "('a, 'w) Firestore option \<Rightarrow> ('t, 'w) st \<Rightarrow> DiscogsState \<times> ('t, 'w) st" where
  "dg_load db s =
     (let state0 = \<lparr>searchIndex = 0, offsetBySearch = Map.empty, dg_lastRun = []\<rparr>
      in case db of
           None \<Rightarrow> (state0, s)
         | Some d \<Rightarrow>
             (let s1 = (snd (doc_get (doc_discogs d) (fst s)), snd s @ [DocGet DG_STATE_DOC])
              in case fst (doc_get (doc_discogs d) (fst s)) of
                   Inl m \<Rightarrow> (state0, log DG_SOURCE (''Could not load state: '' @ m) s1)
                 | Inr None \<Rightarrow> (state0, s1)
                 | Inr (Some st) \<Rightarrow> (st, s1)))"

definition dg_save ::
  "('w \<Rightarrow> string \<times> 'w) \<Rightarrow> ('a, 'w) Firestore option \<Rightarrow> DiscogsState \<Rightarrow> ('t, 'w) st
     \<Rightarrow> ('t, 'w) st" where
  "dg_save now db state' s =
     (case db of
        None \<Rightarrow> s
      | Some d \<Rightarrow>
          (let newState =
                 \<lparr>searchIndex = (searchIndex state' + searchesToFetch) mod length SEARCHES,
                  offsetBySearch = offsetBySearch state',
                  dg_lastRun = fst (now (fst s))\<rparr>;
               w1 = snd (now (fst s));
               s1 = (snd (doc_set (doc_discogs d) newState w1), snd s @ [DocSet DG_STATE_DOC])
           in case fst (doc_set (doc_discogs d) newState w1) of
                None \<Rightarrow> log DG_SOURCE (''State saved: searchIdx='' @ show_nat (searchIndex newState)) s1
              | Some m \<Rightarrow> log DG_SOURCE (''Could not save state: '' @ m) s1))"

text \<open>\<open>discogsToken\<close> is \<open>process.env.DISCOGS_TOKEN\<close>: \<open>None\<close> when the variable is not
  set; \<open>!discogsToken\<close> holds for \<open>None\<close> and for the empty string.\<close>

definition fetchDiscogs ::
  "string option
     \<Rightarrow> (TrackRecord \<Rightarrow> string + 'a TrackRecord_scheme)
     \<Rightarrow> (string \<Rightarrow> 'w \<Rightarrow> DiscogsRelease list option http_result \<times> 'w)
     \<Rightarrow> ('w \<Rightarrow> string \<times> 'w)
     \<Rightarrow> ('a, 'w) Firestore option \<Rightarrow> ('t, 'w) st \<Rightarrow> 'a SourceResult \<times> ('t, 'w) st" where
  "fetchDiscogs discogsToken sanitizeTrack fetch now db s =
     (if discogsToken = None \<or> discogsToken = Some [] then
        (\<lparr>sourceName = DG_SOURCE, tracks = [], errors = [''DISCOGS_TOKEN not set'']\<rparr>, s)
      else
        (let loaded = dg_load db s;
             vs = foldl (\<lambda>vs i. dg_fetch_search sanitizeTrack fetch (the discogsToken) i vs)
                    (\<lparr>v_state = fst loaded, v_errors = [], v_seen = {}, v_tracks = []\<rparr>, snd loaded)
                    [0..<searchesToFetch];
             v = fst vs;
             s3 = dg_save now db (v_state v) (snd vs);
             s4 = log DG_SOURCE
                    (''Fetched '' @ show_nat (length (v_tracks v)) @ '' unique tracks (''
                       @ show_nat (length (v_errors v)) @ '' errors)'') s3
         in (\<lparr>sourceName = DG_SOURCE, tracks = v_tracks v, errors = v_errors v\<rparr>, s4)))"


section \<open>index.ts: the orchestrator\<close>

definition BATCH_SIZE :: nat where "BATCH_SIZE = 500"
definition CHUNK :: nat where "CHUNK = 100"

record ImportStats =
  source :: string
  fetched :: nat
  newTracks :: nat
  skippedDuplicates :: nat
  stat_errors :: nat

record ('a, 'w) FirebaseServices =
  fs_db :: "('a, 'w) Firestore"
  fs_bucket :: "'w Bucket"

text \<open>An entry of the array \<open>Promise.allSettled\<close> resolves to.\<close>

datatype 'a settled = Fulfilled "'a SourceResult" | Rejected string

text \<open>\<open>for (const snap of snapshots) if (snap.exists) existing.add(snap.id)\<close>.\<close>

definition add_existing :: "string set \<Rightarrow> (string \<times> bool) list \<Rightarrow> string set" where
  "add_existing existing snapshots =
     foldl (\<lambda>e snap. if snd snap then insert (fst snap) e else e) existing snapshots"

text \<open>The loop of \<open>batchCheckExisting\<close>, from a given \<open>i\<close>; \<open>Inl\<close> when \<open>getAll\<close> rejects.\<close>

function checkExisting_from ::
  "('a, 'w) Firestore \<Rightarrow> string list \<Rightarrow> nat \<Rightarrow> string set \<Rightarrow> ('t, 'w) st
     \<Rightarrow> (string + string set) \<times> ('t, 'w) st" where
  "checkExisting_from db ids i existing s =
     (if i < length ids then
        (let chunk = take CHUNK (drop i ids);
             r = fst (getAll db chunk (fst s));
             s1 = (snd (getAll db chunk (fst s)), snd s @ [GetAll chunk])
         in case r of
              Inl err \<Rightarrow> (Inl err, s1)
            | Inr snapshots \<Rightarrow>
                checkExisting_from db ids (i + CHUNK) (add_existing existing snapshots) s1)
      else (Inr existing, s))"
  by pat_completeness auto
termination
  by (relation "measure (\<lambda>(db, ids, i, existing, s). length ids - i)") (auto simp: CHUNK_def)

declare checkExisting_from.simps [simp del]

definition batchCheckExisting ::
  "('a, 'w) Firestore \<Rightarrow> string list \<Rightarrow> ('t, 'w) st \<Rightarrow> (string + string set) \<times> ('t, 'w) st" where
  "batchCheckExisting db ids s = checkExisting_from db ids 0 {} s"

text \<open>The loop of \<open>batchWriteTracks\<close>, from a given \<open>i\<close>; \<open>Some m\<close> when a commit rejects.\<close>

function writeTracks_from ::
  "('a, 'w) Firestore \<Rightarrow> 'a TrackRecord_scheme list \<Rightarrow> nat \<Rightarrow> ('a TrackRecord_scheme, 'w) st
     \<Rightarrow> string option \<times> ('a TrackRecord_scheme, 'w) st" where
  "writeTracks_from db tracks' i s =
     (if i < length tracks' then
        (let chunk = take BATCH_SIZE (drop i tracks');
             r = fst (batch_commit db chunk (fst s));
             s1 = (snd (batch_commit db chunk (fst s)), snd s @ [BatchCommit chunk])
         in case r of
              Some err \<Rightarrow> (Some err, s1)
            | None \<Rightarrow>
                writeTracks_from db tracks' (i + BATCH_SIZE)
                  (log ''main''
                     (''Wrote batch of '' @ show_nat (length chunk) @ '' tracks (''
                        @ show_nat (i + length chunk) @ ''/'' @ show_nat (length tracks') @ '')'') s1))
      else (None, s))"
  by pat_completeness auto
termination
  by (relation "measure (\<lambda>(db, tracks', i, s). length tracks' - i)") (auto simp: BATCH_SIZE_def)

declare writeTracks_from.simps [simp del]

definition batchWriteTracks ::
  "('a, 'w) Firestore \<Rightarrow> 'a TrackRecord_scheme list \<Rightarrow> ('a TrackRecord_scheme, 'w) st
     \<Rightarrow> string option \<times> ('a TrackRecord_scheme, 'w) st" where
  "batchWriteTracks db tracks' s = writeTracks_from db tracks' 0 s"

text \<open>
  \<open>Promise.allSettled([...])\<close> over the adapters, each called with \<open>db\<close>. The list of
  adapters is a parameter: the source has \<open>[fetchJamendo(db)]\<close>, and sources/jamendo.ts
  is not part of the code at hand.
\<close>

fun run_sources ::
  "(('a, 'w) Firestore option \<Rightarrow> ('t, 'w) st \<Rightarrow> 'a settled \<times> ('t, 'w) st) list
     \<Rightarrow> ('a, 'w) Firestore option \<Rightarrow> ('t, 'w) st \<Rightarrow> 'a settled list \<times> ('t, 'w) st" where
  "run_sources [] db s = ([], s)"
| "run_sources (f # fs) db s =
     (let r1 = f db s; rs = run_sources fs db (snd r1)
      in (fst r1 # fst rs, snd rs))"

text \<open>One turn of \<open>for (const result of results)\<close>; \<open>validateTrack\<close> (utils.ts) is a
  parameter.\<close>

definition collect_result ::
  "('a TrackRecord_scheme \<Rightarrow> bool) \<Rightarrow> 'a settled
     \<Rightarrow> 'a TrackRecord_scheme list \<times> ImportStats list \<times> ('t, 'w) st
     \<Rightarrow> 'a TrackRecord_scheme list \<times> ImportStats list \<times> ('t, 'w) st" where
  "collect_result validateTrack result acc =
     (let allTracks = fst acc; allStats = fst (snd acc); s = snd (snd acc)
      in case result of
           Fulfilled sr \<Rightarrow>
             (allTracks @ filter validateTrack (tracks sr),
              allStats @ [\<lparr>source = sourceName sr, fetched = length (tracks sr), newTracks = 0,
                            skippedDuplicates = 0, stat_errors = length (errors sr)\<rparr>],
              (if length (errors sr) > 0
               then log (sourceName sr) (''Warnings: '' @ join ''; '' (errors sr)) s
               else s))
         | Rejected reason \<Rightarrow>
             (allTracks,
              allStats @ [\<lparr>source = ''unknown'', fetched = 0, newTracks = 0,
                            skippedDuplicates = 0, stat_errors = 1\<rparr>],
              log ''main'' (''Source failed: '' @ reason) s))"

text \<open>\<open>sourcePrefixMap[stat.source] || stat.source\<close>, the map being \<open>{jamendo: 'jamendo-'}\<close>.\<close>

definition sourcePrefix :: "string \<Rightarrow> string" where
  "sourcePrefix src = (if src = ''jamendo'' then ''jamendo-'' else src)"

text \<open>One turn of \<open>for (const stat of allStats)\<close>.\<close>

definition update_stat ::
  "'a TrackRecord_scheme list \<Rightarrow> 'a TrackRecord_scheme list \<Rightarrow> ImportStats \<Rightarrow> ImportStats" where
  "update_stat allTracks newTracks' stat =
     (let pre = sourcePrefix (source stat);
          sourceTracks = filter (\<lambda>t. startsWith (track_id t) pre) allTracks;
          sourceNew = filter (\<lambda>t. startsWith (track_id t) pre) newTracks'
      in stat\<lparr>newTracks := length sourceNew,
              skippedDuplicates := length sourceTracks - length sourceNew\<rparr>)"

definition stat_line :: "ImportStats \<Rightarrow> string" where
  "stat_line stat =
     ''  '' @ source stat @ '': fetched='' @ show_nat (fetched stat) @ '' new=''
       @ show_nat (newTracks stat) @ '' dupes='' @ show_nat (skippedDuplicates stat)
       @ '' errors='' @ show_nat (stat_errors stat)"

definition dry_run_line :: "'a TrackRecord_scheme \<Rightarrow> string" where
  "dry_run_line t =
     ''  - '' @ track_id t @ '': '' @ [CHR 0x22] @ title t @ [CHR 0x22] @ '' by '' @ artist t
       @ '' ['' @ genre t @ '']''"

text \<open>What a run of \<open>main\<close> computed, next to its effects: the local variables
  \<open>allStats\<close>, \<open>allTracks\<close>, \<open>newTracks\<close> and \<open>tracksToWrite\<close> at the end.\<close>

record 'a main_report =
  r_allStats :: "ImportStats list"
  r_allTracks :: "'a TrackRecord_scheme list"
  r_newTracks :: "'a TrackRecord_scheme list"
  r_tracksToWrite :: "'a TrackRecord_scheme list"

text \<open>
  \<open>main\<close>, stage by stage. \<open>dry_run\<close> is \<open>process.env.DRY_RUN === '1'\<close>; \<open>init\<close> is
  what \<open>initFirebaseAdmin()\<close> gives when it is called (\<open>Inl\<close> when it throws);
  \<open>elapsed\<close> is the printed running time. \<open>Inl\<close> is the rejection that
  \<open>main().catch\<close> reports as a fatal error.
\<close>

text \<open>The loop over \<open>results\<close> and the log line after it: \<open>allTracks\<close> and \<open>allStats\<close>.\<close>

definition main_collect ::
  "('a TrackRecord_scheme \<Rightarrow> bool) \<Rightarrow> 'a settled list \<Rightarrow> ('t, 'w) st
     \<Rightarrow> ('a TrackRecord_scheme list \<times> ImportStats list) \<times> ('t, 'w) st" where
  "main_collect validateTrack results s =
     (let collected = foldl (\<lambda>acc r. collect_result validateTrack r acc) ([], [], s) results
      in ((fst collected, fst (snd collected)),
          log ''main'' (''Total valid tracks fetched: '' @ show_nat (length (fst collected)))
            (snd (snd collected))))"

text \<open>"Deduplicate against Firestore": \<open>existingIds\<close>, then \<open>newTracks\<close>.\<close>

definition main_dedup ::
  "('a, 'w) Firestore option \<Rightarrow> 'a TrackRecord_scheme list \<Rightarrow> ('t, 'w) st
     \<Rightarrow> (string + 'a TrackRecord_scheme list) \<times> ('t, 'w) st" where
  "main_dedup db allTracks s =
     (let checked = (case db of
                       None \<Rightarrow> (Inr {}, s)
                     | Some d \<Rightarrow> batchCheckExisting d (map track_id allTracks) s)
      in case fst checked of
           Inl err \<Rightarrow> (Inl err, snd checked)
         | Inr existingIds \<Rightarrow>
             (let newTracks' = filter (\<lambda>t. track_id t \<notin> existingIds) allTracks
              in (Inr newTracks',
                  log ''main''
                    (''After dedup: '' @ show_nat (length newTracks') @ '' new, ''
                       @ show_nat (length allTracks - length newTracks') @ '' duplicates'')
                    (snd checked))))"

text \<open>"Upload audio + artwork to Firebase Storage": \<open>tracksToWrite\<close>.\<close>

definition main_upload ::
  "bool \<Rightarrow> 'w Bucket option \<Rightarrow> (string \<Rightarrow> 'w \<Rightarrow> bytes http_result \<times> 'w)
     \<Rightarrow> 'a TrackRecord_scheme list \<Rightarrow> ('t, 'w) st
     \<Rightarrow> 'a TrackRecord_scheme list \<times> ('t, 'w) st" where
  "main_upload dry_run bucket fetch newTracks' s =
     (if dry_run then
        (newTracks',
         foldl (\<lambda>s t. log ''main'' (dry_run_line t) s)
           (log ''main''
              (''[DRY RUN] Would upload '' @ show_nat (length newTracks') @ '' tracks to Storage'') s)
           (take 5 newTracks'))
      else if length newTracks' > 0 \<and> bucket \<noteq> None then
        uploadAllTrackAssets fetch (the bucket) newTracks' s
      else (newTracks', s))"

text \<open>"Write tracks to Firestore"; \<open>Some m\<close> when \<open>batchWriteTracks\<close> rejects.\<close>

definition main_write ::
  "bool \<Rightarrow> ('a, 'w) Firestore option \<Rightarrow> 'a TrackRecord_scheme list
     \<Rightarrow> ('a TrackRecord_scheme, 'w) st \<Rightarrow> string option \<times> ('a TrackRecord_scheme, 'w) st" where
  "main_write dry_run db tracksToWrite s =
     (if dry_run then
        (None,
         log ''main''
           (''[DRY RUN] Would write '' @ show_nat (length tracksToWrite) @ '' tracks to Firestore'') s)
      else if length tracksToWrite > 0 then
        (case db of
           None \<Rightarrow> (Some ''Cannot read properties of null (reading 'batch')'', s)
         | Some d \<Rightarrow> batchWriteTracks d tracksToWrite s)
      else (None, s))"

text \<open>"Summary".\<close>

definition main_summary ::
  "ImportStats list \<Rightarrow> 'a TrackRecord_scheme list \<Rightarrow> string \<Rightarrow> ('t, 'w) st \<Rightarrow> ('t, 'w) st" where
  "main_summary allStats newTracks' elapsed s =
     log ''main'' (''Completed in '' @ elapsed @ ''s'')
       (log ''main'' (''Total new tracks written: '' @ show_nat (length newTracks'))
          (foldl (\<lambda>s stat. log ''main'' (stat_line stat) s)
             (log ''main'' ''=== Import Summary ==='' s) allStats))"

text \<open>The first two log lines; \<open>services\<close> is \<open>null\<close> in a dry run.\<close>

definition main_start ::
  "bool \<Rightarrow> string + ('a, 'w) FirebaseServices \<Rightarrow> ('t, 'w) st
     \<Rightarrow> (string + ('a, 'w) FirebaseServices option) \<times> ('t, 'w) st" where
  "main_start dry_run init s =
     (let s0 = log ''main'' ''=== OpenTune Music Import Starting ==='' s
      in case (if dry_run then Inr None else map_sum id Some init) of
           Inl err \<Rightarrow> (Inl err, s0)
         | Inr services \<Rightarrow>
             (Inr services, log ''main'' ''Firebase Admin initialized (Firestore + Storage)'' s0))"

definition main ::
  "bool \<Rightarrow> string + ('a, 'w) FirebaseServices
     \<Rightarrow> (('a, 'w) Firestore option \<Rightarrow> ('a TrackRecord_scheme, 'w) st
            \<Rightarrow> 'a settled \<times> ('a TrackRecord_scheme, 'w) st) list
     \<Rightarrow> ('a TrackRecord_scheme \<Rightarrow> bool)
     \<Rightarrow> (string \<Rightarrow> 'w \<Rightarrow> bytes http_result \<times> 'w)
     \<Rightarrow> string
     \<Rightarrow> ('a TrackRecord_scheme, 'w) st
     \<Rightarrow> (string + 'a main_report) \<times> ('a TrackRecord_scheme, 'w) st" where
  "main dry_run init sources validateTrack fetch elapsed s =
     (let started = main_start dry_run init s
      in case fst started of
           Inl err \<Rightarrow> (Inl err, snd started)
         | Inr services \<Rightarrow>
             (let db = map_option fs_db services;
                  bucket = map_option fs_bucket services;
                  settled = run_sources sources db (snd started);
                  collected = main_collect validateTrack (fst settled) (snd settled);
                  allTracks = fst (fst collected);
                  deduped = main_dedup db allTracks (snd collected)
              in case fst deduped of
                   Inl err \<Rightarrow> (Inl err, snd deduped)
                 | Inr newTracks' \<Rightarrow>
                     (let allStats = map (update_stat allTracks newTracks') (snd (fst collected));
                          uploaded = main_upload dry_run bucket fetch newTracks' (snd deduped);
                          tracksToWrite = fst uploaded;
                          written = main_write dry_run db tracksToWrite (snd uploaded)
                      in case fst written of
                           Some err \<Rightarrow> (Inl err, snd written)
                         | None \<Rightarrow>
                             (Inr \<lparr>r_allStats = allStats, r_allTracks = allTracks,
                                   r_newTracks = newTracks', r_tracksToWrite = tracksToWrite\<rparr>,
                              main_summary allStats newTracks' elapsed (snd written)))))"

section \<open>The gs:// to HTTPS migration script\<close>

definition MIG_PAGE_SIZE :: nat where "MIG_PAGE_SIZE = 100"
definition MIG_CONCURRENCY :: nat where "MIG_CONCURRENCY = 5"

record MigrationStats =
  total :: nat
  migrated :: nat
  skipped :: nat
  failed :: nat
  failedIds :: "string list"

text \<open>
  The bucket as the script uses it: \<open>file.exists()\<close>, the download token in
  \<open>file.getMetadata()\<close> (\<open>None\<close> when \<open>metadata.firebaseStorageDownloadTokens\<close> is
  missing) and \<open>file.setMetadata\<close> with a new token, each of which may throw.
\<close>

record 'w MigBucket =
  mig_bucket_name :: string
  file_exists :: "string \<Rightarrow> 'w \<Rightarrow> (string + bool) \<times> 'w"
  file_getToken :: "string \<Rightarrow> 'w \<Rightarrow> (string + string option) \<times> 'w"
  file_setToken :: "string \<Rightarrow> string \<Rightarrow> 'w \<Rightarrow> string option \<times> 'w"

text \<open>A document of the \<open>tracks\<close> collection: its id and the fields of \<open>doc.data()\<close>
  the script reads.\<close>

record TrackDoc =
  doc_id :: string
  doc_title :: string
  doc_artwork :: "string option"
  doc_audioUrl :: "string option"

text \<open>The regular expression's \<open>.\<close> matches no line terminator: LF, CR, U+2028, U+2029
  (the last two are three bytes each in UTF-8).\<close>

fun has_line_terminator :: "string \<Rightarrow> bool" where
  "has_line_terminator [] = False"
| "has_line_terminator (c # cs) =
     (c = CHR 0x0A \<or> c = CHR 0x0D
      \<or> (c = CHR 0xE2 \<and> (take 2 cs = [CHR 0x80, CHR 0xA8] \<or> take 2 cs = [CHR 0x80, CHR 0xA9]))
      \<or> has_line_terminator cs)"

text \<open>\<open>gsUrl.match(/^gs:\/\/[^/]+\/(.+)$/)\<close>: the captured path, \<open>None\<close> when there is
  no match.\<close>

definition gs_match :: "string \<Rightarrow> string option" where
  "gs_match gsUrl =
     (if \<not> startsWith gsUrl ''gs://'' then None
      else
        (let rest = drop 5 gsUrl;
             bucketPart = takeWhile (\<lambda>c. c \<noteq> CHR ''/'') rest;
             after = drop (length bucketPart) rest
         in if bucketPart = [] then None
            else (case after of
                    [] \<Rightarrow> None
                  | slash # path \<Rightarrow>
                      if path = [] \<or> has_line_terminator path then None else Some path)))"

text \<open>\<open>gsToHttps\<close>; \<open>randomUUID\<close> is the generator of crypto.\<close>

definition gsToHttps ::
  "('w \<Rightarrow> string \<times> 'w) \<Rightarrow> 'w MigBucket \<Rightarrow> string \<Rightarrow> ('t, 'w) st \<Rightarrow> string option \<times> ('t, 'w) st" where
  "gsToHttps randomUUID bucket gsUrl s =
     (case gs_match gsUrl of
        None \<Rightarrow> (None, s)
      | Some storagePath \<Rightarrow>
          (let s1 = (snd (file_exists bucket storagePath (fst s)), snd s @ [FileExists storagePath])
           in case fst (file_exists bucket storagePath (fst s)) of
                Inl m \<Rightarrow> (None, log ''migrate'' (''Error converting '' @ gsUrl @ '': '' @ m) s1)
              | Inr False \<Rightarrow>
                  (None, log ''migrate'' (''File not found in Storage: '' @ storagePath) s1)
              | Inr True \<Rightarrow>
                  (let s2 = (snd (file_getToken bucket storagePath (fst s1)),
                             snd s1 @ [GetMetadata storagePath])
                   in case fst (file_getToken bucket storagePath (fst s1)) of
                        Inl m \<Rightarrow>
                          (None, log ''migrate'' (''Error converting '' @ gsUrl @ '': '' @ m) s2)
                      | Inr tok \<Rightarrow>
                          (if tok = None \<or> tok = Some [] then
                             (let token = fst (randomUUID (fst s2));
                                  w3 = snd (randomUUID (fst s2));
                                  s4 = (snd (file_setToken bucket storagePath token w3),
                                        snd s2 @ [SetMetadata storagePath token])
                              in case fst (file_setToken bucket storagePath token w3) of
                                   Some m \<Rightarrow>
                                     (None,
                                      log ''migrate'' (''Error converting '' @ gsUrl @ '': '' @ m) s4)
                                 | None \<Rightarrow>
                                     (Some (''https://firebasestorage.googleapis.com/v0/b/''
                                              @ mig_bucket_name bucket @ ''/o/''
                                              @ encodeURIComponent storagePath
                                              @ ''?alt=media&token='' @ token), s4))
                           else
                             (Some (''https://firebasestorage.googleapis.com/v0/b/''
                                      @ mig_bucket_name bucket @ ''/o/''
                                      @ encodeURIComponent storagePath
                                      @ ''?alt=media&token='' @ the tok), s2)))))"

text \<open>
  The callback of \<open>chunk.map(async (doc) => ...)\<close> for one document. \<open>update\<close> is
  \<open>doc.ref.update(updates)\<close>, \<open>Some m\<close> when it rejects; a rejection ends the callback
  there and \<open>Promise.allSettled\<close> discards it.
\<close>

definition migrate_doc ::
  "bool \<Rightarrow> ('w \<Rightarrow> string \<times> 'w) \<Rightarrow> 'w MigBucket
     \<Rightarrow> (string \<Rightarrow> (string \<times> string) list \<Rightarrow> 'w \<Rightarrow> string option \<times> 'w)
     \<Rightarrow> TrackDoc \<Rightarrow> MigrationStats \<times> ('t, 'w) st \<Rightarrow> MigrationStats \<times> ('t, 'w) st" where
  "migrate_doc isDryRun randomUUID bucket update doc ss =
     (let stats = (fst ss)\<lparr>total := total (fst ss) + 1\<rparr>;
          s = snd ss;
          artworkUrl = or_str (doc_artwork doc) [];
          audioUrl' = or_str (doc_audioUrl doc) [];
          artworkNeedsFix = startsWith artworkUrl ''gs://'';
          audioNeedsFix = startsWith audioUrl' ''gs://''
      in if \<not> artworkNeedsFix \<and> \<not> audioNeedsFix then (stats\<lparr>skipped := skipped stats + 1\<rparr>, s)
         else if isDryRun then
           (stats\<lparr>migrated := migrated stats + 1\<rparr>,
            log ''migrate''
              (''[DRY RUN] Would fix: '' @ doc_id doc @ '' - '' @ [CHR 0x22] @ doc_title doc
                 @ [CHR 0x22] @ '' (artwork: '' @ show_bool artworkNeedsFix @ '', audio: ''
                 @ show_bool audioNeedsFix @ '')'') s)
         else
           (let a = (if artworkNeedsFix then gsToHttps randomUUID bucket artworkUrl s
                     else (None, s))
            in if artworkNeedsFix \<and> fst a = None then
                 (stats\<lparr>failed := failed stats + 1, failedIds := failedIds stats @ [doc_id doc]\<rparr>,
                  snd a)
               else
                 (let updates1 = (if artworkNeedsFix then [(''artwork'', the (fst a))] else []);
                      b = (if audioNeedsFix then gsToHttps randomUUID bucket audioUrl' (snd a)
                           else (None, snd a))
                  in if audioNeedsFix \<and> fst b = None then
                       (stats\<lparr>failed := failed stats + 1,
                              failedIds := failedIds stats @ [doc_id doc]\<rparr>, snd b)
                     else
                       (let updates = updates1
                              @ (if audioNeedsFix then [(''audioUrl'', the (fst b))] else []);
                            r = fst (update (doc_id doc) updates (fst (snd b)));
                            s3 = (snd (update (doc_id doc) updates (fst (snd b))),
                                  snd (snd b) @ [DocUpdate (doc_id doc) updates])
                        in case r of
                             Some m \<Rightarrow> (stats, s3)
                           | None \<Rightarrow>
                               (stats\<lparr>migrated := migrated stats + 1\<rparr>,
                                if (migrated stats + 1) mod 50 = 0
                                then log ''migrate''
                                       (''Progress: '' @ show_nat (migrated stats + 1)
                                          @ '' migrated, '' @ show_nat (total stats) @ '' scanned'') s3
                                else s3)))))"

text \<open>\<open>stats.total < limitCount\<close>: the limit is \<open>None\<close> for \<open>Infinity\<close>.\<close>

definition below_limit :: "nat \<Rightarrow> nat option \<Rightarrow> bool" where
  "below_limit n limitCount = (case limitCount of None \<Rightarrow> True | Some l \<Rightarrow> n < l)"

text \<open>The loop \<open>for (let i = 0; i < docs.length && stats.total < limitCount; i +=
  CONCURRENCY)\<close> over one page of documents, from a given \<open>i\<close>; the callbacks of a
  chunk run one after the other.\<close>

function migrate_page_from ::
  "bool \<Rightarrow> nat option \<Rightarrow> ('w \<Rightarrow> string \<times> 'w) \<Rightarrow> 'w MigBucket
     \<Rightarrow> (string \<Rightarrow> (string \<times> string) list \<Rightarrow> 'w \<Rightarrow> string option \<times> 'w)
     \<Rightarrow> TrackDoc list \<Rightarrow> nat \<Rightarrow> MigrationStats \<times> ('t, 'w) st \<Rightarrow> MigrationStats \<times> ('t, 'w) st" where
  "migrate_page_from isDryRun limitCount randomUUID bucket update docs i ss =
     (if i < length docs \<and> below_limit (total (fst ss)) limitCount then
        migrate_page_from isDryRun limitCount randomUUID bucket update docs (i + MIG_CONCURRENCY)
          (foldl (\<lambda>ss doc. migrate_doc isDryRun randomUUID bucket update doc ss) ss
             (take MIG_CONCURRENCY (drop i docs)))
      else ss)"
  by pat_completeness auto
termination
  by (relation "measure (\<lambda>(isDryRun, limitCount, randomUUID, bucket, update, docs, i, ss).
        length docs - i)") (auto simp: MIG_CONCURRENCY_def)

declare migrate_page_from.simps [simp del]


section \<open>Notions used to state the properties\<close>

subsection \<open>Retries of the asset migrator\<close>

text \<open>The attempts and delays in a list of events: the download requests and the sleeps.\<close>

definition retry_events :: "'t event list \<Rightarrow> 't event list" where
  "retry_events tr =
     filter (\<lambda>e. case e of HttpGet _ \<Rightarrow> True | Sleep _ \<Rightarrow> True | _ \<Rightarrow> False) tr"

text \<open>The schedule of the retry policy: attempts number \<open>a + 1\<close> to \<open>k\<close> on \<open>url\<close>, the
  \<open>n\<close>-th failed attempt followed by a delay of \<open>n * RETRY_DELAY_MS\<close>.\<close>

definition retry_schedule :: "string \<Rightarrow> nat \<Rightarrow> nat \<Rightarrow> 't event list" where
  "retry_schedule url a k =
     concat (map (\<lambda>n. [HttpGet url, Sleep (n * RETRY_DELAY_MS)]) [Suc a..<k]) @ [HttpGet url]"

text \<open>
  One attempt of \<open>downloadAndUpload\<close>, made in the world \<open>w\<close>, fails: the request is
  rejected, or the status is not ok, or the body cannot be read, or the upload of what
  was downloaded throws. \<open>after_attempt\<close> is the world the attempt leaves.
\<close>

definition attempt_fails ::
  "(string \<Rightarrow> 'w \<Rightarrow> bytes http_result \<times> 'w) \<Rightarrow> 'w Bucket \<Rightarrow> string \<Rightarrow> string \<Rightarrow> string
     \<Rightarrow> 'w \<Rightarrow> bool" where
  "attempt_fails fetch bucket u p c w =
     (case fetch u w of
        (NetError m, w') \<Rightarrow> True
      | (HttpResponse status body, w') \<Rightarrow>
          \<not> response_ok status \<or>
          (case body of Inl m \<Rightarrow> True
           | Inr d \<Rightarrow> fst (file_save bucket p d c w') \<noteq> None))"

definition after_attempt ::
  "(string \<Rightarrow> 'w \<Rightarrow> bytes http_result \<times> 'w) \<Rightarrow> 'w Bucket \<Rightarrow> string \<Rightarrow> string \<Rightarrow> string
     \<Rightarrow> 'w \<Rightarrow> 'w" where
  "after_attempt fetch bucket u p c w =
     (case fetch u w of
        (NetError m, w') \<Rightarrow> w'
      | (HttpResponse status body, w') \<Rightarrow>
          (if response_ok status
           then (case body of Inl m \<Rightarrow> w' | Inr d \<Rightarrow> snd (file_save bucket p d c w'))
           else w'))"

text \<open>\<open>k\<close> attempts in a row, the first made in \<open>w\<close> and each next one in the world the
  one before left, all fail; and every attempt of one call that starts in \<open>w\<close> fails.\<close>

primrec attempts_fail_n ::
  "(string \<Rightarrow> 'w \<Rightarrow> bytes http_result \<times> 'w) \<Rightarrow> 'w Bucket \<Rightarrow> string \<Rightarrow> string \<Rightarrow> string
     \<Rightarrow> nat \<Rightarrow> 'w \<Rightarrow> bool" where
  "attempts_fail_n fetch bucket u p c 0 w = True"
| "attempts_fail_n fetch bucket u p c (Suc k) w =
     (attempt_fails fetch bucket u p c w \<and>
      attempts_fail_n fetch bucket u p c k (after_attempt fetch bucket u p c w))"

definition call_fails ::
  "(string \<Rightarrow> 'w \<Rightarrow> bytes http_result \<times> 'w) \<Rightarrow> 'w Bucket \<Rightarrow> string \<Rightarrow> string \<Rightarrow> string
     \<Rightarrow> 'w \<Rightarrow> bool" where
  "call_fails fetch bucket u p c w = attempts_fail_n fetch bucket u p c (MAX_RETRIES + 1) w"

text \<open>Every attempt on the reference \<open>u\<close> fails, whenever it is made and wherever the
  file is to be stored.\<close>

definition url_fails ::
  "(string \<Rightarrow> 'w \<Rightarrow> bytes http_result \<times> 'w) \<Rightarrow> 'w Bucket \<Rightarrow> string \<Rightarrow> bool" where
  "url_fails fetch bucket u = (\<forall>p c w. attempt_fails fetch bucket u p c w)"


subsection \<open>The orchestrator\<close>

text \<open>Log lines among the events.\<close>

definition is_log :: "'t event \<Rightarrow> bool" where
  "is_log e = (case e of Log _ _ \<Rightarrow> True | _ \<Rightarrow> False)"

text \<open>What the validation filter keeps of one settled adapter result.\<close>

definition valid_tracks ::
  "('a TrackRecord_scheme \<Rightarrow> bool) \<Rightarrow> 'a settled \<Rightarrow> 'a TrackRecord_scheme list" where
  "valid_tracks validateTrack r =
     (case r of Fulfilled sr \<Rightarrow> filter validateTrack (tracks sr) | Rejected reason \<Rightarrow> [])"

text \<open>From \<open>s\<close> to \<open>s'\<close> the program only wrote log lines: the world is the same and the
  new events are log events.\<close>

definition only_logs :: "('t, 'w) st \<Rightarrow> ('t, 'w) st \<Rightarrow> bool" where
  "only_logs s s' = (fst s' = fst s \<and> (\<exists>logs. snd s' = snd s @ logs \<and> list_all is_log logs))"

subsection \<open>The migration script\<close>

text \<open>The document updates among the events: document id and the fields written.\<close>

fun doc_updates :: "'t event list \<Rightarrow> (string \<times> (string \<times> string) list) list" where
  "doc_updates [] = []"
| "doc_updates (DocUpdate i u # tr) = (i, u) # doc_updates tr"
| "doc_updates (e # tr) = doc_updates tr"

subsection \<open>An in-memory Firestore\<close>

text \<open>
  A world made of the Firestore data the scripts touch (the ids in the \<open>tracks\<close>
  collection, the three progress documents) and of everything else (\<open>w_net\<close>: the
  network, the clock). \<open>mem_db\<close> is a database handle that reads and writes this data and
  never fails; \<open>on_net\<close> and \<open>on_clock\<close> let an oracle over the rest act on such a world.
\<close>

record 'n mem_world =
  w_catalog :: "string set"
  w_ccmixter :: "CCMixterState option"
  w_musicbrainz :: "MBState option"
  w_discogs :: "DiscogsState option"
  w_net :: 'n

definition mem_db :: "('a, 'n mem_world) Firestore" where
  "mem_db =
     \<lparr> getAll = (\<lambda>ids w. (Inr (map (\<lambda>i. (i, i \<in> w_catalog w)) ids), w)),
       batch_commit = (\<lambda>chunk w. (None, w\<lparr>w_catalog := w_catalog w \<union> set (map track_id chunk)\<rparr>)),
       doc_ccmixter = \<lparr>doc_get = (\<lambda>w. (Inr (w_ccmixter w), w)),
                       doc_set = (\<lambda>v w. (None, w\<lparr>w_ccmixter := Some v\<rparr>))\<rparr>,
       doc_musicbrainz = \<lparr>doc_get = (\<lambda>w. (Inr (w_musicbrainz w), w)),
                          doc_set = (\<lambda>v w. (None, w\<lparr>w_musicbrainz := Some v\<rparr>))\<rparr>,
       doc_discogs = \<lparr>doc_get = (\<lambda>w. (Inr (w_discogs w), w)),
                      doc_set = (\<lambda>v w. (None, w\<lparr>w_discogs := Some v\<rparr>))\<rparr> \<rparr>"

definition on_net ::
  "(string \<Rightarrow> 'n \<Rightarrow> 'r \<times> 'n) \<Rightarrow> string \<Rightarrow> 'n mem_world \<Rightarrow> 'r \<times> 'n mem_world" where
  "on_net f url w = (fst (f url (w_net w)), w\<lparr>w_net := snd (f url (w_net w))\<rparr>)"

definition on_clock :: "('n \<Rightarrow> string \<times> 'n) \<Rightarrow> 'n mem_world \<Rightarrow> string \<times> 'n mem_world" where
  "on_clock g w = (fst (g (w_net w)), w\<lparr>w_net := snd (g (w_net w))\<rparr>)"

subsection \<open>The adapters, run after run\<close>

text \<open>
  The page requests in a trace, in order, and three ways a provider can answer one: with
  a page that has no records (no array, or an empty one), with records, or with a failure
  (the request throws, or the status is not 2xx).
\<close>

fun http_gets :: "'t event list \<Rightarrow> string list" where
  "http_gets [] = []"
| "http_gets (HttpGet u # tr) = u # http_gets tr"
| "http_gets (e # tr) = http_gets tr"

definition page_empty :: "'d list option http_result \<Rightarrow> bool" where
  "page_empty r =
     (case r of
        HttpResponse status (Inr items) \<Rightarrow> response_ok status \<and> (items = None \<or> items = Some [])
      | _ \<Rightarrow> False)"

definition page_items :: "'d list option http_result \<Rightarrow> 'd list" where
  "page_items r =
     (case r of
        HttpResponse status (Inr (Some items)) \<Rightarrow> if response_ok status then items else []
      | _ \<Rightarrow> [])"

definition http_failure :: "'d http_result \<Rightarrow> bool" where
  "http_failure r =
     (case r of NetError m \<Rightarrow> True | HttpResponse status body \<Rightarrow> \<not> response_ok status)"

text \<open>
  For ccMixter: the loop variables before turn \<open>ct\<close> of a call (those before turn 0 hold
  the progress state as loaded), the partition and the offset a turn takes from given
  loop variables, and one whole call on the in-memory Firestore, as a step from state
  to state.
\<close>

definition cc_before ::
  "(TrackRecord \<Rightarrow> string + 'a TrackRecord_scheme)
     \<Rightarrow> (string \<Rightarrow> 'w \<Rightarrow> CCMixterTrack list option http_result \<times> 'w)
     \<Rightarrow> ('a, 'w) Firestore option \<Rightarrow> ('t, 'w) st \<Rightarrow> nat
     \<Rightarrow> (CCMixterState, 'a) fetch_vars \<times> ('t, 'w) st" where
  "cc_before sanitizeTrack fetch db s ct =
     foldl (\<lambda>vs c. cc_fetch_type sanitizeTrack fetch c vs)
       (\<lparr>v_state = fst (cc_load db s), v_errors = [], v_seen = {}, v_tracks = []\<rparr>, snd (cc_load db s))
       [0..<ct]"

definition cc_key :: "(CCMixterState, 'a) fetch_vars \<times> ('t, 'w) st \<Rightarrow> nat \<Rightarrow> string" where
  "cc_key vs ct = CONTENT_TYPES ! ((contentTypeIndex (v_state (fst vs)) + ct) mod length CONTENT_TYPES)"

definition cc_off :: "(CCMixterState, 'a) fetch_vars \<times> ('t, 'w) st \<Rightarrow> nat \<Rightarrow> nat" where
  "cc_off vs ct = (case offsetByType (v_state (fst vs)) (cc_key vs ct) of None \<Rightarrow> 0 | Some n \<Rightarrow> n)"

definition cc_run ::
  "(TrackRecord \<Rightarrow> string + 'a TrackRecord_scheme)
     \<Rightarrow> (string \<Rightarrow> 'n \<Rightarrow> CCMixterTrack list option http_result \<times> 'n)
     \<Rightarrow> ('n \<Rightarrow> string \<times> 'n)
     \<Rightarrow> ('t, 'n mem_world) st \<Rightarrow> ('t, 'n mem_world) st" where
  "cc_run sanitizeTrack fetch now s =
     snd (fetchCCMixter sanitizeTrack (on_net fetch) (on_clock now) (Some mem_db) s)"

text \<open>The same for MusicBrainz.\<close>

definition mb_before ::
  "(TrackRecord \<Rightarrow> string + 'a TrackRecord_scheme)
     \<Rightarrow> (string \<Rightarrow> 'w \<Rightarrow> MBRecording list option http_result \<times> 'w)
     \<Rightarrow> ('a, 'w) Firestore option \<Rightarrow> ('t, 'w) st \<Rightarrow> nat
     \<Rightarrow> (MBState, 'a) fetch_vars \<times> ('t, 'w) st" where
  "mb_before sanitizeTrack fetch db s ct =
     foldl (\<lambda>vs c. mb_fetch_tag sanitizeTrack fetch c vs)
       (\<lparr>v_state = fst (mb_load db s), v_errors = [], v_seen = {}, v_tracks = []\<rparr>, snd (mb_load db s))
       [0..<ct]"

definition mb_key :: "(MBState, 'a) fetch_vars \<times> ('t, 'w) st \<Rightarrow> nat \<Rightarrow> string" where
  "mb_key vs ct = TAG_FILTERS ! ((tagIndex (v_state (fst vs)) + ct) mod length TAG_FILTERS)"

definition mb_off :: "(MBState, 'a) fetch_vars \<times> ('t, 'w) st \<Rightarrow> nat \<Rightarrow> nat" where
  "mb_off vs ct = (case offsetByTag (v_state (fst vs)) (mb_key vs ct) of None \<Rightarrow> 0 | Some n \<Rightarrow> n)"

definition mb_run ::
  "(TrackRecord \<Rightarrow> string + 'a TrackRecord_scheme)
     \<Rightarrow> (string \<Rightarrow> 'n \<Rightarrow> MBRecording list option http_result \<times> 'n)
     \<Rightarrow> ('n \<Rightarrow> string \<times> 'n)
     \<Rightarrow> ('t, 'n mem_world) st \<Rightarrow> ('t, 'n mem_world) st" where
  "mb_run sanitizeTrack fetch now s =
     snd (fetchMusicBrainz sanitizeTrack (on_net fetch) (on_clock now) (Some mem_db) s)"

text \<open>The same for Discogs, called with the token \<open>tok\<close>; \<open>dg_req\<close> is the request for
  the page that holds a given offset.\<close>

definition dg_req :: "string \<Rightarrow> string \<Rightarrow> nat \<Rightarrow> string" where
  "dg_req tok search offset = dg_url search (offset div DG_PAGE_SIZE + 1) tok"

definition dg_before ::
  "string \<Rightarrow> (TrackRecord \<Rightarrow> string + 'a TrackRecord_scheme)
     \<Rightarrow> (string \<Rightarrow> 'w \<Rightarrow> DiscogsRelease list option http_result \<times> 'w)
     \<Rightarrow> ('a, 'w) Firestore option \<Rightarrow> ('t, 'w) st \<Rightarrow> nat
     \<Rightarrow> (DiscogsState, 'a) fetch_vars \<times> ('t, 'w) st" where
  "dg_before tok sanitizeTrack fetch db s ct =
     foldl (\<lambda>vs c. dg_fetch_search sanitizeTrack fetch tok c vs)
       (\<lparr>v_state = fst (dg_load db s), v_errors = [], v_seen = {}, v_tracks = []\<rparr>, snd (dg_load db s))
       [0..<ct]"

definition dg_key :: "(DiscogsState, 'a) fetch_vars \<times> ('t, 'w) st \<Rightarrow> nat \<Rightarrow> string" where
  "dg_key vs ct = SEARCHES ! ((searchIndex (v_state (fst vs)) + ct) mod length SEARCHES)"

definition dg_off :: "(DiscogsState, 'a) fetch_vars \<times> ('t, 'w) st \<Rightarrow> nat \<Rightarrow> nat" where
  "dg_off vs ct = (case offsetBySearch (v_state (fst vs)) (dg_key vs ct) of None \<Rightarrow> 0 | Some n \<Rightarrow> n)"

definition dg_run ::
  "string \<Rightarrow> (TrackRecord \<Rightarrow> string + 'a TrackRecord_scheme)
     \<Rightarrow> (string \<Rightarrow> 'n \<Rightarrow> DiscogsRelease list option http_result \<times> 'n)
     \<Rightarrow> ('n \<Rightarrow> string \<times> 'n)
     \<Rightarrow> ('t, 'n mem_world) st \<Rightarrow> ('t, 'n mem_world) st" where
  "dg_run tok sanitizeTrack fetch now s =
     snd (fetchDiscogs (Some tok) sanitizeTrack (on_net fetch) (on_clock now) (Some mem_db) s)"

subsection \<open>Examples\<close>

text \<open>A network on which every request is refused, a bucket that accepts every file, two
  tracks: one with external references, one already relocated.\<close>

definition quiet :: "(TrackRecord, unit) st" where
  "quiet = ((), [])"

definition refusing_fetch :: "string \<Rightarrow> 'w \<Rightarrow> bytes http_result \<times> 'w" where
  "refusing_fetch url w = (NetError ''connect ECONNREFUSED'', w)"

definition accepting_bucket :: "'w Bucket" where
  "accepting_bucket =
     \<lparr>bucket_name = ''opentune-sbs.firebasestorage.app'', file_save = (\<lambda>p d c w. (None, w))\<rparr>"

definition external_track :: TrackRecord where
  "external_track =
     \<lparr> track_id = ''jamendo-500'', title = ''Song'', artist = ''Band'', artistId = ''jamendo-artist-7'',
       album = ''Single'', albumId = [], duration = 180,
       artwork = ''https://usercontent.jamendo.com/500.jpg'',
       audioUrl = ''https://prod-1.storage.jamendo.com/500.mp3'',
       genre = ''rock'', license = ''Creative Commons'' \<rparr>"

definition relocated_track :: TrackRecord where
  "relocated_track =
     \<lparr> track_id = ''jamendo-501'', title = ''Tune'', artist = ''Band'', artistId = ''jamendo-artist-7'',
       album = ''Single'', albumId = [], duration = 0,
       artwork = [],
       audioUrl = ''gs://opentune-sbs.firebasestorage.app/imports/jamendo/jamendo-501.mp3'',
       genre = ''rock'', license = ''Creative Commons'' \<rparr>"

text \<open>A first run on an empty database.\<close>

definition fresh :: "(TrackRecord, unit mem_world) st" where
  "fresh =
     (\<lparr>w_catalog = {}, w_ccmixter = None, w_musicbrainz = None, w_discogs = None, w_net = ()\<rparr>, [])"

text \<open>An adapter that returns one track with external references.\<close>

definition one_source ::
  "(unit, unit mem_world) Firestore option \<Rightarrow> (TrackRecord, unit mem_world) st
     \<Rightarrow> unit settled \<times> (TrackRecord, unit mem_world) st" where
  "one_source db s =
     (Fulfilled \<lparr>sourceName = ''jamendo'', tracks = [external_track], errors = []\<rparr>, s)"

text \<open>A network on which only the host of the audio file answers, and a live run of the
  orchestrator with that adapter on it.\<close>

definition art_down :: "string \<Rightarrow> 'w \<Rightarrow> bytes http_result \<times> 'w" where
  "art_down url w =
     (if url = ''https://prod-1.storage.jamendo.com/500.mp3''
      then (HttpResponse 200 (Inr [73, 68, 51]), w)
      else (NetError ''connect ECONNREFUSED'', w))"

definition mixed_run ::
  "(string + unit main_report) \<times> (TrackRecord, unit mem_world) st" where
  "mixed_run =
     main False (Inr \<lparr>fs_db = mem_db, fs_bucket = accepting_bucket\<rparr>) [one_source] (\<lambda>t. True)
       art_down ''0.1'' fresh"

text \<open>A later run: the catalog already holds the first of two tracks an adapter returns.\<close>

definition stocked :: "(TrackRecord, unit mem_world) st" where
  "stocked =
     (\<lparr>w_catalog = {''jamendo-500''}, w_ccmixter = None, w_musicbrainz = None, w_discogs = None,
       w_net = ()\<rparr>, [])"

definition two_source ::
  "(unit, unit mem_world) Firestore option \<Rightarrow> (TrackRecord, unit mem_world) st
     \<Rightarrow> unit settled \<times> (TrackRecord, unit mem_world) st" where
  "two_source db s =
     (Fulfilled \<lparr>sourceName = ''jamendo'', tracks = [external_track, relocated_track], errors = []\<rparr>, s)"

definition rerun ::
  "(string + unit main_report) \<times> (TrackRecord, unit mem_world) st" where
  "rerun =
     main False (Inr \<lparr>fs_db = mem_db, fs_bucket = accepting_bucket\<rparr>) [two_source] (\<lambda>t. True)
       refusing_fetch ''0.1'' stocked"

text \<open>A legacy document with two internal references, in a bucket that holds the cover
  but not the audio file.\<close>

definition half_bucket :: "unit MigBucket" where
  "half_bucket =
     \<lparr> mig_bucket_name = ''opentune-sbs.firebasestorage.app'',
       file_exists = (\<lambda>p w. (Inr (p = ''imports/jamendo/jamendo-501_cover.jpg''), w)),
       file_getToken = (\<lambda>p w. (Inr (Some ''4f1c''), w)),
       file_setToken = (\<lambda>p k w. (None, w)) \<rparr>"

definition legacy_doc :: TrackDoc where
  "legacy_doc =
     \<lparr> doc_id = ''jamendo-501'', doc_title = ''Tune'',
       doc_artwork = Some ''gs://opentune-sbs.firebasestorage.app/imports/jamendo/jamendo-501_cover.jpg'',
       doc_audioUrl = Some ''gs://opentune-sbs.firebasestorage.app/imports/jamendo/jamendo-501.mp3'' \<rparr>"

definition legacy_migration :: "MigrationStats \<times> (TrackRecord, unit) st" where
  "legacy_migration =
     migrate_doc False (\<lambda>w. (''0b0e'', w)) half_bucket (\<lambda>i u w. (None, w)) legacy_doc
       (\<lparr>total = 0, migrated = 0, skipped = 0, failed = 0, failedIds = []\<rparr>, quiet)"

text \<open>A provider that answers every request with an empty page, a clock, and a ccMixter
  API that is down for the first request of a first run and has one record for every
  other.\<close>

definition empty_pages :: "string \<Rightarrow> 'w \<Rightarrow> 'd list option http_result \<times> 'w" where
  "empty_pages url w = (HttpResponse 200 (Inr (Some [])), w)"

definition fixed_clock :: "'w \<Rightarrow> string \<times> 'w" where
  "fixed_clock w = (''2026-01-01T00:00:00.000Z'', w)"












section \<open>Verification\<close>

subsection \<open>The asset migrator\<close>

lemma retry_events_append: "retry_events (xs @ ys) = retry_events xs @ retry_events ys"
  by (simp add: retry_events_def)

lemma retry_events_Sleep: "retry_events [Sleep n] = [Sleep n]"
  by (simp add: retry_events_def)

lemma downloadFile_trace:
  "snd (snd (downloadFile fetch url s)) = snd s @ [HttpGet url]"
  by (simp add: downloadFile_def split: prod.splits http_result.splits)

lemma uploadToStorage_trace:
  "snd (snd (uploadToStorage bucket p d c s)) = snd s @ [FileSave p c]"
  by (simp add: uploadToStorage_def split: prod.splits option.splits)

lemma attempt_once_trace:
  "\<exists>ev. snd (snd (attempt_once fetch bucket u p c s)) = snd s @ ev \<and> retry_events ev = [HttpGet u]"
proof -
  obtain r s1 where dl: "downloadFile fetch u s = (r, s1)"
    by (cases "downloadFile fetch u s")
  have t1: "snd s1 = snd s @ [HttpGet u]"
    using downloadFile_trace [of fetch u s] dl by simp
  show ?thesis
  proof (cases r)
    case (Inl err)
    with dl t1 show ?thesis
      by (simp add: attempt_once_def retry_events_def)
  next
    case (Inr d)
    have "snd (snd (uploadToStorage bucket p d c s1)) = snd s @ [HttpGet u] @ [FileSave p c]"
      using uploadToStorage_trace [of bucket p d c s1] t1 by simp
    with dl Inr show ?thesis
      by (simp add: attempt_once_def retry_events_def)
  qed
qed

lemma retry_schedule_single: "retry_schedule u a (Suc a) = [HttpGet u]"
  by (simp add: retry_schedule_def)

lemma retry_schedule_step:
  "Suc a < k \<Longrightarrow>
   retry_schedule u a k = [HttpGet u, Sleep (Suc a * RETRY_DELAY_MS)] @ retry_schedule u (Suc a) k"
  by (simp add: retry_schedule_def upt_conv_Cons)

lemma downloadAndUpload_from_trace:
  "attempt \<le> MAX_RETRIES \<Longrightarrow>
   \<exists>ev k. attempt < k \<and> k \<le> MAX_RETRIES + 1 \<and>
     snd (snd (downloadAndUpload_from fetch bucket u p c attempt s)) = snd s @ ev \<and>
     retry_events ev = retry_schedule u attempt k"
proof (induction fetch bucket u p c attempt s rule: downloadAndUpload_from.induct)
  case (1 fetch bucket u p c attempt s)
  obtain r s1 where a1: "attempt_once fetch bucket u p c s = (r, s1)"
    by (cases "attempt_once fetch bucket u p c s")
  obtain e1 where e1: "snd s1 = snd s @ e1" "retry_events e1 = [HttpGet u]"
    using attempt_once_trace [of fetch bucket u p c s] a1 by auto
  show ?case
  proof (cases r)
    case (Inr gs)
    with a1 e1 "1.prems" show ?thesis
      by (subst downloadAndUpload_from.simps)
         (auto simp: retry_schedule_single intro!: exI [of _ e1] exI [of _ "Suc attempt"])
  next
    case (Inl err)
    show ?thesis
    proof (cases "attempt < MAX_RETRIES")
      case True
      let ?s2 = "sleep (RETRY_DELAY_MS * (attempt + 1)) s1"
      from "1.IH" [OF "1.prems" a1 [symmetric] Inl True] True
      obtain ev k where ih: "attempt + 1 < k" "k \<le> MAX_RETRIES + 1"
        "snd (snd (downloadAndUpload_from fetch bucket u p c (attempt + 1) ?s2)) = snd ?s2 @ ev"
        "retry_events ev = retry_schedule u (attempt + 1) k"
        by auto
      have s2: "snd ?s2 = snd s @ e1 @ [Sleep (Suc attempt * RETRY_DELAY_MS)]"
        using e1 by (simp add: sleep_def emit_def mult.commute)
      have res: "downloadAndUpload_from fetch bucket u p c attempt s =
                 downloadAndUpload_from fetch bucket u p c (attempt + 1) ?s2"
        using a1 Inl True "1.prems" by (subst downloadAndUpload_from.simps) simp
      have "retry_events (e1 @ [Sleep (Suc attempt * RETRY_DELAY_MS)] @ ev) = retry_schedule u attempt k"
        using ih(1,4) e1(2) retry_events_Sleep
        by (simp only: retry_events_append retry_schedule_step [of attempt k u] Suc_eq_plus1 [symmetric])
           simp
      moreover have "snd (snd (downloadAndUpload_from fetch bucket u p c attempt s)) =
                     snd s @ (e1 @ [Sleep (Suc attempt * RETRY_DELAY_MS)] @ ev)"
        using res ih(3) s2 by simp
      moreover have "attempt < k" using ih(1) by simp
      ultimately show ?thesis using ih(2) by blast
    next
      case False
      with a1 Inl e1 "1.prems" show ?thesis
        apply (subst downloadAndUpload_from.simps)
        apply (simp add: log_def emit_def)
        apply (rule exI [of _ "Suc attempt"])
        apply (simp add: retry_schedule_single retry_events_append)
        apply (simp add: retry_events_def)
        done
    qed
  qed
qed

text \<open>
  Claim C5. Whatever the network and the bucket do, the requests and sleeps of one call
  of \<open>downloadAndUpload\<close> are, in this order: a download attempt, and after the \<open>n\<close>-th
  failed attempt a sleep of \<open>n * RETRY_DELAY_MS\<close> followed by attempt \<open>n + 1\<close>, for \<open>k\<close>
  attempts in all, where \<open>1 \<le> k \<le> MAX_RETRIES + 1 = 3\<close>. So there are at most
  \<open>MAX_RETRIES = 2\<close> attempts after the first, and the delays grow linearly.
\<close>

theorem C5_retry_schedule:
  "\<exists>ev k. 1 \<le> k \<and> k \<le> MAX_RETRIES + 1 \<and> MAX_RETRIES + 1 = 3 \<and>
     snd (snd (downloadAndUpload fetch bucket sourceUrl storagePath contentType s)) = snd s @ ev \<and>
     retry_events ev =
       concat (map (\<lambda>n. [HttpGet sourceUrl, Sleep (n * RETRY_DELAY_MS)]) [1..<k]) @ [HttpGet sourceUrl]"
proof -
  have "0 \<le> MAX_RETRIES" by simp
  from downloadAndUpload_from_trace [OF this, of fetch bucket sourceUrl storagePath contentType s]
  obtain ev k where "0 < k" "k \<le> MAX_RETRIES + 1"
    "snd (snd (downloadAndUpload_from fetch bucket sourceUrl storagePath contentType 0 s)) = snd s @ ev"
    "retry_events ev = retry_schedule sourceUrl 0 k"
    by blast
  then show ?thesis
    unfolding downloadAndUpload_def retry_schedule_def
    by (intro exI [of _ ev] exI [of _ k]) (simp add: MAX_RETRIES_def)
qed

lemma attempt_once_world:
  "fst (snd (attempt_once fetch bucket u p c s)) = after_attempt fetch bucket u p c (fst s)"
  by (simp add: attempt_once_def downloadFile_def uploadToStorage_def after_attempt_def
        split: prod.splits http_result.splits sum.splits option.splits)

lemma attempt_once_fails:
  assumes "attempt_fails fetch bucket u p c (fst s)"
  shows "\<exists>err. fst (attempt_once fetch bucket u p c s) = Inl err"
  using assms
  by (auto simp: attempt_fails_def attempt_once_def downloadFile_def uploadToStorage_def
        split: prod.splits http_result.splits sum.splits option.splits)

lemma downloadAndUpload_from_fallback:
  "attempts_fail_n fetch bucket u p c (Suc MAX_RETRIES - attempt) (fst s) \<Longrightarrow>
   fst (downloadAndUpload_from fetch bucket u p c attempt s) = u"
proof (induction fetch bucket u p c attempt s rule: downloadAndUpload_from.induct)
  case (1 fetch bucket u p c attempt s)
  show ?case
  proof (cases "attempt \<le> MAX_RETRIES")
    case False
    then show ?thesis by (subst downloadAndUpload_from.simps) simp
  next
    case le: True
    then have e: "Suc MAX_RETRIES - attempt = Suc (MAX_RETRIES - attempt)" by simp
    from "1.prems" have f1: "attempt_fails fetch bucket u p c (fst s)"
      and f2: "attempts_fail_n fetch bucket u p c (MAX_RETRIES - attempt)
                 (after_attempt fetch bucket u p c (fst s))"
      unfolding e by simp_all
    from attempt_once_fails [OF f1]
    obtain err s1 where a: "attempt_once fetch bucket u p c s = (Inl err, s1)"
      by (cases "attempt_once fetch bucket u p c s") auto
    have w: "fst s1 = after_attempt fetch bucket u p c (fst s)"
      using attempt_once_world [of fetch bucket u p c s] a by simp
    show ?thesis
    proof (cases "attempt < MAX_RETRIES")
      case True
      then have "Suc MAX_RETRIES - (attempt + 1) = MAX_RETRIES - attempt" by simp
      with f2 w have "attempts_fail_n fetch bucket u p c (Suc MAX_RETRIES - (attempt + 1))
                        (fst (sleep (RETRY_DELAY_MS * (attempt + 1)) s1))"
        by (simp add: sleep_def emit_def)
      then have "fst (downloadAndUpload_from fetch bucket u p c (attempt + 1)
                   (sleep (RETRY_DELAY_MS * (attempt + 1)) s1)) = u"
        using "1.IH" [OF le a [symmetric] _ True] by simp
      with a True show ?thesis by (subst downloadAndUpload_from.simps) simp
    next
      case False
      with a show ?thesis by (subst downloadAndUpload_from.simps) simp
    qed
  qed
qed

lemma url_fails_n: "url_fails fetch bucket u \<Longrightarrow> attempts_fail_n fetch bucket u p c k w"
  by (induction k arbitrary: w) (simp_all add: url_fails_def)

lemma url_fails_call: "url_fails fetch bucket u \<Longrightarrow> call_fails fetch bucket u p c w"
  unfolding call_fails_def by (rule url_fails_n)

lemma processTrack_shape:
  "\<exists>a b. fst (processTrack fetch bucket t s) = t\<lparr>audioUrl := a, artwork := b\<rparr> \<and>
     (\<not> startsWith (audioUrl t) ''http'' \<longrightarrow> a = audioUrl t) \<and>
     (\<not> startsWith (artwork t) ''http'' \<longrightarrow> b = artwork t)"
  by (auto simp: processTrack_def Let_def split: prod.splits)

lemma downloadAndUpload_fallback:
  "call_fails fetch bucket u p c (fst s) \<Longrightarrow> fst (downloadAndUpload fetch bucket u p c s) = u"
  by (simp add: downloadAndUpload_def call_fails_def downloadAndUpload_from_fallback)

lemma processTrack_audio:
  assumes "call_fails fetch bucket (audioUrl t)
             (''imports/'' @ getSource (track_id t) @ ''/'' @ track_id t @ ''.mp3'') ''audio/mpeg'' (fst s)"
  shows "audioUrl (fst (processTrack fetch bucket t s)) = audioUrl t"
  using downloadAndUpload_fallback [OF assms]
  by (simp add: processTrack_def Let_def split_def)

lemma processTrack_artwork:
  assumes "call_fails fetch bucket (artwork t)
             (''imports/'' @ getSource (track_id t) @ ''/'' @ track_id t @ ''_cover.jpg'') ''image/jpeg''
             (fst (if startsWith (audioUrl t) ''http''
                   then snd (downloadAndUpload fetch bucket (audioUrl t)
                               (''imports/'' @ getSource (track_id t) @ ''/'' @ track_id t @ ''.mp3'')
                               ''audio/mpeg'' s)
                   else s))"
  shows "artwork (fst (processTrack fetch bucket t s)) = artwork t"
proof (cases "startsWith (audioUrl t) ''http''")
  case True
  with assms have "call_fails fetch bucket (artwork t)
             (''imports/'' @ getSource (track_id t) @ ''/'' @ track_id t @ ''_cover.jpg'') ''image/jpeg''
             (fst (snd (downloadAndUpload fetch bucket (audioUrl t)
                               (''imports/'' @ getSource (track_id t) @ ''/'' @ track_id t @ ''.mp3'')
                               ''audio/mpeg'' s)))"
    by simp
  from downloadAndUpload_fallback [OF this] True show ?thesis
    by (simp add: processTrack_def Let_def split_def)
next
  case False
  with assms have "call_fails fetch bucket (artwork t)
             (''imports/'' @ getSource (track_id t) @ ''/'' @ track_id t @ ''_cover.jpg'') ''image/jpeg''
             (fst s)"
    by simp
  from downloadAndUpload_fallback [OF this] False show ?thesis
    by (simp add: processTrack_def Let_def split_def)
qed

lemma processTrack_url:
  "(url_fails fetch bucket (audioUrl t) \<longrightarrow> audioUrl (fst (processTrack fetch bucket t s)) = audioUrl t) \<and>
   (url_fails fetch bucket (artwork t) \<longrightarrow> artwork (fst (processTrack fetch bucket t s)) = artwork t)"
  using processTrack_audio [of fetch bucket t s] processTrack_artwork [of fetch bucket t s]
    url_fails_call [of fetch bucket]
  by blast

lemma processChunk_rel:
  "(\<And>t (s :: ('t, 'w) st). P t (fst (processTrack fetch bucket t s))) \<Longrightarrow>
   list_all2 P chunk (fst (processChunk fetch bucket chunk (s :: ('t, 'w) st)))"
proof (induction chunk arbitrary: s)
  case Nil
  then show ?case by simp
next
  case (Cons t rest)
  obtain t' s1 where p: "processTrack fetch bucket t s = (t', s1)"
    by (cases "processTrack fetch bucket t s")
  obtain rest' s2 where r: "processChunk fetch bucket rest s1 = (rest', s2)"
    by (cases "processChunk fetch bucket rest s1")
  have "P t t'" using Cons.prems [of t s] p by simp
  moreover have "list_all2 P rest rest'" using Cons.IH [OF Cons.prems, of s1] r by simp
  ultimately show ?case using p r by simp
qed

lemma uploadLoop_rel:
  "(\<And>t (s :: ('t, 'w) st). P t (fst (processTrack fetch bucket t s))) \<Longrightarrow>
   \<exists>X. fst (fst (uploadLoop fetch bucket ts i results completed storedCount (s :: ('t, 'w) st)))
         = results @ X \<and>
       list_all2 P (drop i ts) X"
proof (induction fetch bucket ts i results completed storedCount s rule: uploadLoop.induct)
  case (1 fetch bucket ts i results completed storedCount s)
  show ?case
  proof (cases "i < length ts")
    case False
    then show ?thesis by (subst uploadLoop.simps) simp
  next
    case True
    let ?chunk = "take CONCURRENCY (drop i ts)"
    obtain processed s1 where pc: "processChunk fetch bucket ?chunk s = (processed, s1)"
      by (cases "processChunk fetch bucket ?chunk s")
    have rel1: "list_all2 P ?chunk processed"
      using processChunk_rel [of P fetch bucket ?chunk s, OF "1.prems"] pc by simp
    let ?completed = "completed + length processed"
    let ?stored = "storedCount + count_stored processed"
    let ?s2 = "if ?completed mod 20 = 0 \<or> ?completed = length ts
               then log ''storage''
                      (''Progress: '' @ show_nat ?completed @ ''/'' @ show_nat (length ts)
                         @ '' ('' @ show_nat ?stored @ '' stored in Storage)'') s1
               else s1"
    have step: "uploadLoop fetch bucket ts i results completed storedCount s =
                uploadLoop fetch bucket ts (i + CONCURRENCY) (results @ processed) ?completed ?stored ?s2"
      using True pc by (subst uploadLoop.simps) (simp add: Let_def)
    from "1.IH" [OF True refl refl pc [symmetric] refl refl refl refl "1.prems"]
    obtain X where X: "fst (fst (uploadLoop fetch bucket ts (i + CONCURRENCY) (results @ processed)
                         ?completed ?stored ?s2)) = (results @ processed) @ X"
        "list_all2 P (drop (i + CONCURRENCY) ts) X"
      by blast
    have "drop i ts = ?chunk @ drop (i + CONCURRENCY) ts"
      by (metis append_take_drop_id drop_drop add.commute)
    then have "list_all2 P (drop i ts) (processed @ X)"
      using rel1 X(2) by (metis list_all2_appendI)
    with step X(1) show ?thesis by simp
  qed
qed

lemma uploadAllTrackAssets_rel:
  assumes "\<And>t (s :: ('t, 'w) st). P t (fst (processTrack fetch bucket t s))"
  shows "list_all2 P ts (fst (uploadAllTrackAssets fetch bucket ts (s :: ('t, 'w) st)))"
proof (cases "length ts = 0")
  case True
  then show ?thesis by (simp add: uploadAllTrackAssets_def)
next
  case False
  let ?s0 = "log ''storage''
                    (''Starting upload of '' @ show_nat (length ts) @ '' tracks (concurrency: ''
                       @ show_nat CONCURRENCY @ '')...'') s"
  have "list_all2 P ts (fst (fst (uploadLoop fetch bucket ts 0 [] 0 0 ?s0)))"
    using uploadLoop_rel [of P fetch bucket ts 0 "[]" 0 0 ?s0, OF assms] by auto
  moreover from False have nz: "(length ts = 0) = False" by simp
  have "fst (uploadAllTrackAssets fetch bucket ts s) = fst (fst (uploadLoop fetch bucket ts 0 [] 0 0 ?s0))"
    by (simp only: uploadAllTrackAssets_def Let_def nz if_False split_def fst_conv)
  ultimately show ?thesis by simp
qed

lemma uploadAllTrackAssets_each:
  "list_all2
     (\<lambda>t t'. (\<exists>st :: ('t, 'w) st. t' = fst (processTrack fetch bucket t st)) \<and>
              (url_fails fetch bucket (audioUrl t) \<longrightarrow> audioUrl t' = audioUrl t) \<and>
              (url_fails fetch bucket (artwork t) \<longrightarrow> artwork t' = artwork t))
     ts (fst (uploadAllTrackAssets fetch bucket ts (s :: ('t, 'w) st)))"
proof (rule uploadAllTrackAssets_rel)
  fix t and st :: "('t, 'w) st"
  show "(\<exists>st' :: ('t, 'w) st. fst (processTrack fetch bucket t st) = fst (processTrack fetch bucket t st')) \<and>
        (url_fails fetch bucket (audioUrl t)
           \<longrightarrow> audioUrl (fst (processTrack fetch bucket t st)) = audioUrl t) \<and>
        (url_fails fetch bucket (artwork t)
           \<longrightarrow> artwork (fst (processTrack fetch bucket t st)) = artwork t)"
    using processTrack_url [of fetch bucket t st] by blast
qed

lemma fst_log [simp]: "fst (log t m s) = fst s"
  by (simp add: log_def emit_def)

lemma snd_log [simp]: "snd (log t m s) = snd s @ [Log t m]"
  by (simp add: log_def emit_def)

lemma foldl_log_keeps:
  "e \<in> set (snd s) \<Longrightarrow> e \<in> set (snd (foldl (\<lambda>s x. log t (f x) s) s xs))"
  by (induction xs arbitrary: s) simp_all

lemma writeTracks_from_commits:
  "writeTracks_from db ts i s = (None, s') \<Longrightarrow>
   (\<forall>e \<in> set (snd s). e \<in> set (snd s')) \<and>
   (\<forall>t \<in> set (drop i ts). \<exists>chunk. BatchCommit chunk \<in> set (snd s') \<and> t \<in> set chunk)"
proof (induction db ts i s rule: writeTracks_from.induct)
  case (1 db ts i s)
  show ?case
  proof (cases "i < length ts")
    case False
    with "1.prems" show ?thesis by (subst (asm) writeTracks_from.simps) simp
  next
    case True
    let ?chunk = "take BATCH_SIZE (drop i ts)"
    let ?s1 = "(snd (batch_commit db ?chunk (fst s)), snd s @ [BatchCommit ?chunk])"
    let ?s2 = "log ''main''
                     (''Wrote batch of '' @ show_nat (length ?chunk) @ '' tracks (''
                        @ show_nat (i + length ?chunk) @ ''/'' @ show_nat (length ts) @ '')'') ?s1"
    have ok: "fst (batch_commit db ?chunk (fst s)) = None"
      and rec: "writeTracks_from db ts (i + BATCH_SIZE) ?s2 = (None, s')"
      using "1.prems" True
      by (subst (asm) writeTracks_from.simps, simp add: Let_def split: option.splits)+
    from "1.IH" [OF True refl refl refl ok rec]
    have ih: "\<forall>e \<in> set (snd ?s2). e \<in> set (snd s')"
      "\<forall>t \<in> set (drop (i + BATCH_SIZE) ts). \<exists>chunk. BatchCommit chunk \<in> set (snd s') \<and> t \<in> set chunk"
      by blast+
    have c: "BatchCommit ?chunk \<in> set (snd s')" using ih(1) by simp
    have d: "drop i ts = ?chunk @ drop (i + BATCH_SIZE) ts"
      by (metis append_take_drop_id drop_drop add.commute)
    have "\<forall>t \<in> set (drop i ts). \<exists>chunk. BatchCommit chunk \<in> set (snd s') \<and> t \<in> set chunk"
    proof
      fix t assume "t \<in> set (drop i ts)"
      with d have "t \<in> set ?chunk \<or> t \<in> set (drop (i + BATCH_SIZE) ts)"
        by (metis Un_iff set_append)
      with c ih(2) show "\<exists>chunk. BatchCommit chunk \<in> set (snd s') \<and> t \<in> set chunk" by blast
    qed
    moreover have "\<forall>e \<in> set (snd s). e \<in> set (snd s')" using ih(1) by simp
    ultimately show ?thesis by blast
  qed
qed

lemma main_summary_keeps: "e \<in> set (snd s) \<Longrightarrow> e \<in> set (snd (main_summary allStats nt elapsed s))"
  by (simp add: main_summary_def foldl_log_keeps)

lemma main_write_commits:
  assumes "main_write False db ts s = (None, s')"
  shows "\<forall>t \<in> set ts. \<exists>chunk. BatchCommit chunk \<in> set (snd s') \<and> t \<in> set chunk"
proof (cases "length ts > 0")
  case False
  then show ?thesis by simp
next
  case True
  with assms obtain d where d: "db = Some d" "batchWriteTracks d ts s = (None, s')"
    by (cases db) (simp_all add: main_write_def)
  from writeTracks_from_commits [of d ts 0 s s'] d(2) show ?thesis
    by (simp add: batchWriteTracks_def)
qed

text \<open>
  Claim C10. \<open>uploadAllTrackAssets\<close> returns as many tracks as it was given, in the same
  order; the track at each position is the input track with at most \<open>audioUrl\<close> and
  \<open>artwork\<close> replaced (every other field, the extension part included, is the same);
  and a track neither of whose two references starts with "http" comes back unchanged.
\<close>

theorem C10_only_assets_change:
  "length (fst (uploadAllTrackAssets fetch bucket ts s)) = length ts \<and>
   (\<forall>i < length ts.
      (\<exists>a b. fst (uploadAllTrackAssets fetch bucket ts s) ! i
               = (ts ! i)\<lparr>audioUrl := a, artwork := b\<rparr>) \<and>
      (\<not> startsWith (audioUrl (ts ! i)) ''http'' \<and> \<not> startsWith (artwork (ts ! i)) ''http''
         \<longrightarrow> fst (uploadAllTrackAssets fetch bucket ts s) ! i = ts ! i))"
proof -
  let ?P = "\<lambda>t t'. (\<exists>a b. t' = t\<lparr>audioUrl := a, artwork := b\<rparr>) \<and>
      (\<not> startsWith (audioUrl t) ''http'' \<and> \<not> startsWith (artwork t) ''http'' \<longrightarrow> t' = t)"
  have "\<And>t (s :: ('c, 'b) st). ?P t (fst (processTrack fetch bucket t s))"
  proof -
    fix t and s :: "('c, 'b) st"
    from processTrack_shape [of fetch bucket t s]
    obtain a b where ab: "fst (processTrack fetch bucket t s) = t\<lparr>audioUrl := a, artwork := b\<rparr>"
      "\<not> startsWith (audioUrl t) ''http'' \<longrightarrow> a = audioUrl t"
      "\<not> startsWith (artwork t) ''http'' \<longrightarrow> b = artwork t"
      by blast
    then show "?P t (fst (processTrack fetch bucket t s))" by auto
  qed
  then have "list_all2 ?P ts (fst (uploadAllTrackAssets fetch bucket ts s))"
    by (rule uploadAllTrackAssets_rel)
  then show ?thesis
    by (simp add: list_all2_conv_all_nth)
qed

theorem C10_only_assets_change_witness:
  "length (fst (uploadAllTrackAssets refusing_fetch accepting_bucket
                  [external_track, relocated_track] quiet)) = 2 \<and>
   fst (uploadAllTrackAssets refusing_fetch accepting_bucket
          [external_track, relocated_track] quiet) ! 1 = relocated_track \<and>
   \<not> startsWith (audioUrl relocated_track) ''http'' \<and> \<not> startsWith (artwork relocated_track) ''http''"
proof -
  let ?ts = "[external_track, relocated_track]"
  let ?out = "fst (uploadAllTrackAssets refusing_fetch accepting_bucket ?ts quiet)"
  have h: "\<not> startsWith (audioUrl relocated_track) ''http''"
          "\<not> startsWith (artwork relocated_track) ''http''"
    by (simp_all add: relocated_track_def startsWith_def)
  have len: "length ?out = length ?ts"
    and all: "\<forall>i < length ?ts.
      (\<exists>a b. ?out ! i = (?ts ! i)\<lparr>audioUrl := a, artwork := b\<rparr>) \<and>
      (\<not> startsWith (audioUrl (?ts ! i)) ''http'' \<and> \<not> startsWith (artwork (?ts ! i)) ''http''
         \<longrightarrow> ?out ! i = ?ts ! i)"
    using C10_only_assets_change [of refusing_fetch accepting_bucket ?ts quiet] by blast+
  have "1 < length ?ts" by simp
  with all have "\<not> startsWith (audioUrl (?ts ! 1)) ''http'' \<and> \<not> startsWith (artwork (?ts ! 1)) ''http''
         \<longrightarrow> ?out ! 1 = ?ts ! 1"
    by blast
  with h have "?out ! 1 = relocated_track" by simp
  with len h show ?thesis by simp
qed



subsection \<open>The Discogs adapter without a token\<close>

text \<open>
  Claim C7. With \<open>DISCOGS_TOKEN\<close> unset, \<open>fetchDiscogs\<close> returns the source name
  "discogs", no tracks and the one error "DISCOGS_TOKEN not set", and leaves the world
  and the event list as they were: no request, no read or write of the progress
  document. The orchestrator's loop turns this result into a statistics entry with
  zero fetched tracks and one error, and goes on.
\<close>

theorem C7_missing_token:
  "fetchDiscogs None sanitizeTrack fetch now db s =
     (\<lparr>sourceName = ''discogs'', tracks = [], errors = [''DISCOGS_TOKEN not set'']\<rparr>, s) \<and>
   collect_result validateTrack (Fulfilled (fst (fetchDiscogs None sanitizeTrack fetch now db s)))
       (allTracks, allStats, s0) =
     (allTracks,
      allStats @ [\<lparr>source = ''discogs'', fetched = 0, newTracks = 0, skippedDuplicates = 0,
                    stat_errors = 1\<rparr>],
      log ''discogs'' ''Warnings: DISCOGS_TOKEN not set'' s0)"
  by (simp add: fetchDiscogs_def DG_SOURCE_def collect_result_def)

subsection \<open>The orchestrator, stage by stage\<close>

lemma main_cases:
  assumes m: "main dry_run init sources validateTrack fetch elapsed s = (Inr rep, s')"
  obtains services settled collected deduped uploaded written where
    "fst (main_start dry_run init s) = Inr services"
    "settled = run_sources sources (map_option fs_db services) (snd (main_start dry_run init s))"
    "collected = main_collect validateTrack (fst settled) (snd settled)"
    "deduped = main_dedup (map_option fs_db services) (fst (fst collected)) (snd collected)"
    "fst deduped = Inr (r_newTracks rep)"
    "uploaded = main_upload dry_run (map_option fs_bucket services) fetch (r_newTracks rep) (snd deduped)"
    "written = main_write dry_run (map_option fs_db services) (fst uploaded) (snd uploaded)"
    "fst written = None"
    "r_allTracks rep = fst (fst collected)"
    "r_tracksToWrite rep = fst uploaded"
    "r_allStats rep = map (update_stat (fst (fst collected)) (r_newTracks rep)) (snd (fst collected))"
    "s' = main_summary (r_allStats rep) (r_newTracks rep) elapsed (snd written)"
proof -
  define started where "started = main_start dry_run init s"
  from m obtain services where sv: "fst started = Inr services"
    unfolding main_def Let_def started_def [symmetric]
    by (cases "fst started") auto
  define db where "db = map_option fs_db services"
  define settled where "settled = run_sources sources db (snd started)"
  define collected where "collected = main_collect validateTrack (fst settled) (snd settled)"
  define deduped where "deduped = main_dedup db (fst (fst collected)) (snd collected)"
  have m1: "main dry_run init sources validateTrack fetch elapsed s =
     (case fst deduped of
        Inl err \<Rightarrow> (Inl err, snd deduped)
      | Inr nt \<Rightarrow>
          (let allStats = map (update_stat (fst (fst collected)) nt) (snd (fst collected));
               uploaded = main_upload dry_run (map_option fs_bucket services) fetch nt (snd deduped);
               written = main_write dry_run db (fst uploaded) (snd uploaded)
           in case fst written of
                Some err \<Rightarrow> (Inl err, snd written)
              | None \<Rightarrow>
                  (Inr \<lparr>r_allStats = allStats, r_allTracks = fst (fst collected),
                        r_newTracks = nt, r_tracksToWrite = fst uploaded\<rparr>,
                   main_summary allStats nt elapsed (snd written))))"
    unfolding deduped_def collected_def settled_def db_def main_def Let_def
      started_def [symmetric] sv sum.case
    by (rule refl)
  from m m1 obtain nt where nt: "fst deduped = Inr nt"
    by (cases "fst deduped") auto
  define uploaded where "uploaded = main_upload dry_run (map_option fs_bucket services) fetch nt (snd deduped)"
  define written where "written = main_write dry_run db (fst uploaded) (snd uploaded)"
  from m m1 nt have w: "fst written = None"
    by (cases "fst written") (auto simp: Let_def uploaded_def written_def)
  from m m1 nt w have rep: "r_newTracks rep = nt" "r_tracksToWrite rep = fst uploaded"
      "r_allTracks rep = fst (fst collected)"
      "r_allStats rep = map (update_stat (fst (fst collected)) nt) (snd (fst collected))"
    and s': "s' = main_summary (map (update_stat (fst (fst collected)) nt) (snd (fst collected)))
                    nt elapsed (snd written)"
    by (auto simp: Let_def uploaded_def written_def)
  show ?thesis
    apply (rule that [of services settled collected deduped uploaded written])
    subgoal using sv by (simp add: started_def)
    subgoal by (simp add: settled_def db_def started_def)
    subgoal by (rule collected_def)
    subgoal by (simp add: deduped_def db_def)
    subgoal using nt rep(1) by simp
    subgoal by (simp add: uploaded_def rep(1))
    subgoal by (simp add: written_def db_def)
    subgoal by (rule w)
    subgoal by (rule rep(3))
    subgoal by (rule rep(2))
    subgoal by (simp add: rep)
    subgoal by (simp add: s' rep)
    done
qed


subsection \<open>Records whose assets could not be relocated\<close>

lemma main_live_written:
  assumes m: "main False (Inr sv) sources validateTrack fetch elapsed s = (Inr rep, s')"
  shows "list_all2
           (\<lambda>t t'. (\<exists>st :: ('a TrackRecord_scheme, 'w) st.
                       t' = fst (processTrack fetch (fs_bucket sv) t st)) \<and>
                    (url_fails fetch (fs_bucket sv) (audioUrl t) \<longrightarrow> audioUrl t' = audioUrl t) \<and>
                    (url_fails fetch (fs_bucket sv) (artwork t) \<longrightarrow> artwork t' = artwork t))
           (r_newTracks (rep :: 'a main_report)) (r_tracksToWrite rep) \<and>
         (\<forall>t \<in> set (r_tracksToWrite rep).
            \<exists>chunk. BatchCommit chunk \<in> set (snd (s' :: ('a TrackRecord_scheme, 'w) st)) \<and> t \<in> set chunk)"
proof (rule main_cases [OF m])
  fix services settled collected deduped uploaded written
  assume sv: "fst (main_start False (Inr sv) s) = Inr services"
    and up: "uploaded = main_upload False (map_option fs_bucket services) fetch (r_newTracks rep) (snd deduped)"
    and wr: "written = main_write False (map_option fs_db services) (fst uploaded) (snd uploaded)"
    and ok: "fst written = None"
    and tw: "r_tracksToWrite rep = fst uploaded"
    and s': "s' = main_summary (r_allStats rep) (r_newTracks rep) elapsed (snd written)"
  from sv have services: "services = Some sv"
    by (simp add: main_start_def Let_def)
  have "fst uploaded = fst (uploadAllTrackAssets fetch (fs_bucket sv) (r_newTracks rep) (snd deduped))"
    unfolding up services by (simp add: main_upload_def uploadAllTrackAssets_def)
  then have rel: "list_all2
           (\<lambda>t t'. (\<exists>st :: ('a TrackRecord_scheme, 'w) st.
                       t' = fst (processTrack fetch (fs_bucket sv) t st)) \<and>
                    (url_fails fetch (fs_bucket sv) (audioUrl t) \<longrightarrow> audioUrl t' = audioUrl t) \<and>
                    (url_fails fetch (fs_bucket sv) (artwork t) \<longrightarrow> artwork t' = artwork t))
           (r_newTracks rep) (r_tracksToWrite rep)"
    unfolding tw using uploadAllTrackAssets_each [of fetch "fs_bucket sv" "r_newTracks rep" "snd deduped"]
    by simp
  have "main_write False (map_option fs_db services) (fst uploaded) (snd uploaded) = (None, snd written)"
    using ok wr by (simp add: prod_eq_iff)
  from main_write_commits [OF this]
  have "\<forall>t \<in> set (fst uploaded). \<exists>chunk. BatchCommit chunk \<in> set (snd (snd written)) \<and> t \<in> set chunk" .
  then have "\<forall>t \<in> set (r_tracksToWrite rep). \<exists>chunk. BatchCommit chunk \<in> set (snd s') \<and> t \<in> set chunk"
    unfolding s' tw using main_summary_keeps by blast
  with rel show ?thesis by blast
qed

text \<open>
  Claim C1. A call of \<open>downloadAndUpload\<close> all of whose attempts fail returns the source
  URL (the function has no exceptional result at all). So \<open>processTrack\<close> returns the
  record with the audio reference it had when every attempt of the audio call fails, and
  with the artwork reference it had when every attempt of the artwork call fails, each
  call taken in the state in which it is made. \<open>uploadAllTrackAssets\<close> returns, at each
  position, what \<open>processTrack\<close> made of the record at that position; in particular a
  reference on which every attempt fails is kept. In a live run of \<open>main\<close> that ends
  normally the list handed to the batch writer is related in this way to the list of
  new tracks, and each record of it is in a batch that was committed.
\<close>

theorem C1_fallback_keeps_record:
  fixes s1 s2 s3 :: "('t, 'w) st"
    and s s' :: "('a TrackRecord_scheme, 'w) st"
    and t :: "'b TrackRecord_scheme" and ts :: "'c TrackRecord_scheme list"
  shows
   "(call_fails fetch bucket sourceUrl storagePath contentType (fst s1) \<longrightarrow>
       fst (downloadAndUpload fetch bucket sourceUrl storagePath contentType s1) = sourceUrl)
  \<and> (let audioPath = ''imports/'' @ getSource (track_id t) @ ''/'' @ track_id t @ ''.mp3'';
          artworkPath = ''imports/'' @ getSource (track_id t) @ ''/'' @ track_id t @ ''_cover.jpg'';
          s_artwork = (if startsWith (audioUrl t) ''http''
                       then snd (downloadAndUpload fetch bucket (audioUrl t) audioPath ''audio/mpeg'' s2)
                       else s2);
          t' = fst (processTrack fetch bucket t s2)
      in (call_fails fetch bucket (audioUrl t) audioPath ''audio/mpeg'' (fst s2)
            \<longrightarrow> audioUrl t' = audioUrl t) \<and>
         (call_fails fetch bucket (artwork t) artworkPath ''image/jpeg'' (fst s_artwork)
            \<longrightarrow> artwork t' = artwork t))
  \<and> list_all2
       (\<lambda>t t'. (\<exists>st :: ('t, 'w) st. t' = fst (processTrack fetch bucket t st)) \<and>
                (url_fails fetch bucket (audioUrl t) \<longrightarrow> audioUrl t' = audioUrl t) \<and>
                (url_fails fetch bucket (artwork t) \<longrightarrow> artwork t' = artwork t))
       ts (fst (uploadAllTrackAssets fetch bucket ts s3))
  \<and> (\<forall>rep. main False (Inr sv) sources validateTrack fetch elapsed s = (Inr rep, s') \<longrightarrow>
       list_all2
         (\<lambda>t t'. (\<exists>st :: ('a TrackRecord_scheme, 'w) st.
                     t' = fst (processTrack fetch (fs_bucket sv) t st)) \<and>
                  (url_fails fetch (fs_bucket sv) (audioUrl t) \<longrightarrow> audioUrl t' = audioUrl t) \<and>
                  (url_fails fetch (fs_bucket sv) (artwork t) \<longrightarrow> artwork t' = artwork t))
         (r_newTracks rep) (r_tracksToWrite rep) \<and>
       (\<forall>t \<in> set (r_tracksToWrite rep).
          \<exists>chunk. BatchCommit chunk \<in> set (snd s') \<and> t \<in> set chunk))"
proof (intro conjI)
  show "call_fails fetch bucket sourceUrl storagePath contentType (fst s1) \<longrightarrow>
       fst (downloadAndUpload fetch bucket sourceUrl storagePath contentType s1) = sourceUrl"
    using downloadAndUpload_fallback by blast
next
  show "let audioPath = ''imports/'' @ getSource (track_id t) @ ''/'' @ track_id t @ ''.mp3'';
          artworkPath = ''imports/'' @ getSource (track_id t) @ ''/'' @ track_id t @ ''_cover.jpg'';
          s_artwork = (if startsWith (audioUrl t) ''http''
                       then snd (downloadAndUpload fetch bucket (audioUrl t) audioPath ''audio/mpeg'' s2)
                       else s2);
          t' = fst (processTrack fetch bucket t s2)
      in (call_fails fetch bucket (audioUrl t) audioPath ''audio/mpeg'' (fst s2)
            \<longrightarrow> audioUrl t' = audioUrl t) \<and>
         (call_fails fetch bucket (artwork t) artworkPath ''image/jpeg'' (fst s_artwork)
            \<longrightarrow> artwork t' = artwork t)"
    unfolding Let_def
    using processTrack_audio [of fetch bucket t s2] processTrack_artwork [of fetch bucket t s2]
    by blast
next
  show "list_all2
       (\<lambda>t t'. (\<exists>st :: ('t, 'w) st. t' = fst (processTrack fetch bucket t st)) \<and>
                (url_fails fetch bucket (audioUrl t) \<longrightarrow> audioUrl t' = audioUrl t) \<and>
                (url_fails fetch bucket (artwork t) \<longrightarrow> artwork t' = artwork t))
       ts (fst (uploadAllTrackAssets fetch bucket ts s3))"
    by (rule uploadAllTrackAssets_each)
next
  show "\<forall>rep. main False (Inr sv) sources validateTrack fetch elapsed s = (Inr rep, s') \<longrightarrow>
       list_all2
         (\<lambda>t t'. (\<exists>st :: ('a TrackRecord_scheme, 'w) st.
                     t' = fst (processTrack fetch (fs_bucket sv) t st)) \<and>
                  (url_fails fetch (fs_bucket sv) (audioUrl t) \<longrightarrow> audioUrl t' = audioUrl t) \<and>
                  (url_fails fetch (fs_bucket sv) (artwork t) \<longrightarrow> artwork t' = artwork t))
         (r_newTracks rep) (r_tracksToWrite rep) \<and>
       (\<forall>t \<in> set (r_tracksToWrite rep).
          \<exists>chunk. BatchCommit chunk \<in> set (snd s') \<and> t \<in> set chunk)"
    using main_live_written by blast
qed

theorem C1_fallback_keeps_record_witness:
  "call_fails refusing_fetch accepting_bucket (audioUrl external_track)
     ''imports/jamendo/jamendo-500.mp3'' ''audio/mpeg'' (fst fresh) \<and>
   fst (downloadAndUpload refusing_fetch accepting_bucket (audioUrl external_track)
          ''imports/jamendo/jamendo-500.mp3'' ''audio/mpeg'' fresh) = audioUrl external_track \<and>
   audioUrl (fst (processTrack refusing_fetch accepting_bucket external_track fresh))
     = audioUrl external_track \<and>
   call_fails art_down accepting_bucket (artwork external_track)
     ''imports/jamendo/jamendo-500_cover.jpg'' ''image/jpeg'' (fst fresh) \<and>
   artwork (fst (processTrack art_down accepting_bucket external_track fresh))
     = artwork external_track \<and>
   url_fails (art_down :: string \<Rightarrow> unit mem_world \<Rightarrow> bytes http_result \<times> unit mem_world)
     accepting_bucket (artwork external_track) \<and>
   (case fst mixed_run of
      Inl e \<Rightarrow> False
    | Inr rep \<Rightarrow>
        r_newTracks rep = [external_track] \<and>
        r_tracksToWrite rep =
          [external_track\<lparr>audioUrl :=
             ''gs://opentune-sbs.firebasestorage.app/imports/jamendo/jamendo-500.mp3''\<rparr>]) \<and>
   (\<exists>chunk. BatchCommit chunk \<in> set (snd (snd mixed_run)) \<and>
      external_track\<lparr>audioUrl :=
        ''gs://opentune-sbs.firebasestorage.app/imports/jamendo/jamendo-500.mp3''\<rparr> \<in> set chunk)"
proof -
  let ?sv = "\<lparr>fs_db = mem_db, fs_bucket = accepting_bucket\<rparr> :: (unit, unit mem_world) FirebaseServices"
  let ?moved = "external_track\<lparr>audioUrl :=
        ''gs://opentune-sbs.firebasestorage.app/imports/jamendo/jamendo-500.mp3''\<rparr>"
  have pa: "''imports/'' @ getSource (track_id external_track) @ ''/'' @ track_id external_track @ ''.mp3''
            = ''imports/jamendo/jamendo-500.mp3''"
    by code_simp
  have pc: "''imports/'' @ getSource (track_id external_track) @ ''/'' @ track_id external_track
              @ ''_cover.jpg''
            = ''imports/jamendo/jamendo-500_cover.jpg''"
    by code_simp
  have cf1: "call_fails refusing_fetch accepting_bucket (audioUrl external_track)
     ''imports/jamendo/jamendo-500.mp3'' ''audio/mpeg'' (fst fresh)"
    by code_simp
  have cf2: "call_fails art_down accepting_bucket (artwork external_track)
     ''imports/jamendo/jamendo-500_cover.jpg'' ''image/jpeg'' (fst fresh)"
    by code_simp
  have cf2': "call_fails art_down accepting_bucket (artwork external_track)
     ''imports/jamendo/jamendo-500_cover.jpg'' ''image/jpeg''
     (fst (if startsWith (audioUrl external_track) ''http''
           then snd (downloadAndUpload art_down accepting_bucket (audioUrl external_track)
                       ''imports/jamendo/jamendo-500.mp3'' ''audio/mpeg'' fresh)
           else fresh))"
    by code_simp
  have uf: "url_fails (art_down :: string \<Rightarrow> unit mem_world \<Rightarrow> bytes http_result \<times> unit mem_world)
     accepting_bucket (artwork external_track)"
    by (simp add: url_fails_def attempt_fails_def art_down_def external_track_def)
  note refused = C1_fallback_keeps_record [where fetch = refusing_fetch and bucket = accepting_bucket
      and t = external_track and ?s1.0 = fresh and ?s2.0 = fresh
      and sourceUrl = "audioUrl external_track"
      and storagePath = "''imports/jamendo/jamendo-500.mp3''" and contentType = "''audio/mpeg''"]
  have a: "fst (downloadAndUpload refusing_fetch accepting_bucket (audioUrl external_track)
          ''imports/jamendo/jamendo-500.mp3'' ''audio/mpeg'' fresh) = audioUrl external_track"
    by (rule refused [THEN conjunct1, rule_format, OF cf1])
  have b: "audioUrl (fst (processTrack refusing_fetch accepting_bucket external_track fresh))
     = audioUrl external_track"
    by (rule refused [THEN conjunct2, THEN conjunct1, unfolded Let_def pa pc, THEN conjunct1,
          rule_format, OF cf1])
  note mixed = C1_fallback_keeps_record [where fetch = art_down and bucket = accepting_bucket
      and t = external_track and ?s2.0 = fresh and sv = ?sv and sources = "[one_source]"
      and validateTrack = "\<lambda>t. True" and elapsed = "''0.1''" and s = fresh and s' = "snd mixed_run"]
  have c: "artwork (fst (processTrack art_down accepting_bucket external_track fresh))
     = artwork external_track"
    by (rule mixed [THEN conjunct2, THEN conjunct1, unfolded Let_def pa pc, THEN conjunct2,
          rule_format, OF cf2'])
  have ev: "case fst mixed_run of
      Inl e \<Rightarrow> False
    | Inr rep \<Rightarrow> r_newTracks rep = [external_track] \<and> r_tracksToWrite rep = [?moved]"
    by code_simp
  then obtain rep where rep: "fst mixed_run = Inr rep" "r_newTracks rep = [external_track]"
      "r_tracksToWrite rep = [?moved]"
    by (cases "fst mixed_run") auto
  have run: "main False (Inr ?sv) [one_source] (\<lambda>t. True) art_down ''0.1'' fresh
             = (Inr rep, snd mixed_run)"
    using rep(1) by (simp add: mixed_run_def [symmetric] prod_eq_iff)
  from mixed [THEN conjunct2, THEN conjunct2, THEN conjunct2, rule_format, OF run]
  have "\<forall>t \<in> set (r_tracksToWrite rep).
          \<exists>chunk. BatchCommit chunk \<in> set (snd (snd mixed_run)) \<and> t \<in> set chunk"
    by blast
  with rep(3) have d: "\<exists>chunk. BatchCommit chunk \<in> set (snd (snd mixed_run)) \<and> ?moved \<in> set chunk"
    by simp
  from cf1 a b cf2 c uf ev d show ?thesis by blast
qed

lemma foldl_log_fst [simp]: "fst (foldl (\<lambda>s x. log t (f x) s) s xs) = fst s"
  by (induction xs arbitrary: s) simp_all

lemma foldl_log_snd [simp]:
  "snd (foldl (\<lambda>s x. log t (f x) s) s xs) = snd s @ map (\<lambda>x. Log t (f x)) xs"
  by (induction xs arbitrary: s) simp_all

lemma only_logs_refl: "only_logs s s"
  by (simp add: only_logs_def exI [of _ "[]"])

lemma only_logs_log: "only_logs s s' \<Longrightarrow> only_logs s (log t m s')"
proof -
  assume "only_logs s s'"
  then obtain logs where l: "fst s' = fst s" "snd s' = snd s @ logs" "list_all is_log logs"
    by (auto simp: only_logs_def)
  then have "snd (log t m s') = snd s @ (logs @ [Log t m])" "list_all is_log (logs @ [Log t m])"
    by (simp_all add: is_log_def)
  with l(1) show ?thesis unfolding only_logs_def by (metis fst_log)
qed

lemma collect_result_props:
  "fst (collect_result v r (at, as, s)) = at @ valid_tracks v r \<and>
   only_logs s (snd (snd (collect_result v r (at, as, s))))"
  by (cases r)
     (simp_all add: collect_result_def valid_tracks_def Let_def only_logs_refl
        only_logs_log [OF only_logs_refl])

lemma only_logs_trans: "only_logs s s' \<Longrightarrow> only_logs s' s'' \<Longrightarrow> only_logs s s''"
proof -
  assume "only_logs s s'" "only_logs s' s''"
  then obtain l1 l2 where l: "fst s' = fst s" "snd s' = snd s @ l1" "list_all is_log l1"
      "fst s'' = fst s'" "snd s'' = snd s' @ l2" "list_all is_log l2"
    by (auto simp: only_logs_def)
  then have "snd s'' = snd s @ (l1 @ l2)" "list_all is_log (l1 @ l2)" by simp_all
  with l(1,4) show ?thesis unfolding only_logs_def by metis
qed

lemma foldl_collect_props:
  "fst (foldl (\<lambda>acc r. collect_result v r acc) (at, as, s) rs) = at @ concat (map (valid_tracks v) rs) \<and>
   only_logs s (snd (snd (foldl (\<lambda>acc r. collect_result v r acc) (at, as, s) rs)))"
proof (induction rs arbitrary: at as s)
  case Nil
  then show ?case by (simp add: only_logs_refl)
next
  case (Cons r rs)
  obtain at' as' s' where c: "collect_result v r (at, as, s) = (at', as', s')"
    by (cases "collect_result v r (at, as, s)") auto
  from collect_result_props [of v r at as s] c
  have p: "at' = at @ valid_tracks v r" "only_logs s s'" by simp_all
  from Cons.IH [of at' as' s'] p(1) c
  have "fst (foldl (\<lambda>acc r. collect_result v r acc) (at, as, s) (r # rs))
        = at @ concat (map (valid_tracks v) (r # rs))"
    and "only_logs s' (snd (snd (foldl (\<lambda>acc r. collect_result v r acc) (at, as, s) (r # rs))))"
    by simp_all
  with p(2) show ?case using only_logs_trans by blast
qed

lemma main_collect_props:
  "fst (fst (main_collect v rs s)) = concat (map (valid_tracks v) rs) \<and>
   only_logs s (snd (main_collect v rs s))"
  using foldl_collect_props [of v "[]" "[]" s rs]
  by (simp add: main_collect_def Let_def only_logs_log)


lemma run_sources_foldl:
  "foldl (\<lambda>acc f. (fst acc @ [fst (f db (snd acc))], snd (f db (snd acc)))) (rs, s) fs
   = (rs @ fst (run_sources fs db s), snd (run_sources fs db s))"
  by (induction fs arbitrary: rs s) (simp_all add: Let_def)

lemma main_start_dry:
  "main_start True init s =
     (Inr None, log ''main'' ''Firebase Admin initialized (Firestore + Storage)''
                  (log ''main'' ''=== OpenTune Music Import Starting ==='' s))"
  by (simp add: main_start_def Let_def)

lemma main_dedup_none:
  "fst (main_dedup None at s) = Inr at \<and> only_logs s (snd (main_dedup None at s))"
  by (simp add: main_dedup_def Let_def only_logs_log [OF only_logs_refl])

lemma main_upload_dry:
  "fst (main_upload True b fetch nt s) = nt \<and>
   fst (snd (main_upload True b fetch nt s)) = fst s \<and>
   snd (snd (main_upload True b fetch nt s)) =
     snd s @ Log ''main'' (''[DRY RUN] Would upload '' @ show_nat (length nt) @ '' tracks to Storage'')
            # map (\<lambda>t. Log ''main'' (dry_run_line t)) (take 5 nt)"
  by (simp add: main_upload_def)

lemma main_write_dry:
  "main_write True db ts s =
     (None, log ''main'' (''[DRY RUN] Would write '' @ show_nat (length ts) @ '' tracks to Firestore'') s)"
  by (simp add: main_write_def)

lemma main_summary_only_logs: "only_logs s (main_summary allStats nt elapsed s)"
  unfolding only_logs_def
  by (simp add: main_summary_def is_log_def list_all_iff)

lemma only_logs_mono: "only_logs s s' \<Longrightarrow> e \<in> set (snd s) \<Longrightarrow> e \<in> set (snd s')"
  by (auto simp: only_logs_def)

text \<open>
  Claim C8. A dry run of \<open>main\<close> always ends normally. After the two opening log lines
  every adapter is called, once and in order, without a database, each in the state the
  one before left; the tracks they return are validated (\<open>allTracks\<close>), filtered against
  the empty set of existing ids (\<open>newTracks\<close>) and kept as \<open>tracksToWrite\<close>. After the
  adapters have settled the world is never touched again and every further event is a
  log line, so there is no upload and no batch commit; the two lines saying what would
  be uploaded and written are among them.
\<close>

theorem C8_dry_run:
  "\<exists>rep s'. main True init sources validateTrack fetch elapsed s = (Inr rep, s') \<and>
     (let settled = foldl (\<lambda>acc f. (fst acc @ [fst (f None (snd acc))], snd (f None (snd acc))))
                      ([], log ''main'' ''Firebase Admin initialized (Firestore + Storage)''
                             (log ''main'' ''=== OpenTune Music Import Starting ==='' s))
                      sources;
          valid = concat (map (valid_tracks validateTrack) (fst settled))
      in r_allTracks rep = valid \<and> r_newTracks rep = valid \<and> r_tracksToWrite rep = valid \<and>
         fst s' = fst (snd settled) \<and>
         (\<exists>logs. snd s' = snd (snd settled) @ logs \<and> list_all is_log logs \<and>
            Log ''main'' (''[DRY RUN] Would upload '' @ show_nat (length valid) @ '' tracks to Storage'')
              \<in> set logs \<and>
            Log ''main'' (''[DRY RUN] Would write '' @ show_nat (length valid) @ '' tracks to Firestore'')
              \<in> set logs))"
proof -
  define s1 where "s1 = log ''main'' ''Firebase Admin initialized (Firestore + Storage)''
                         (log ''main'' ''=== OpenTune Music Import Starting ==='' s)"
  define settled where "settled = run_sources sources None s1"
  define collected where "collected = main_collect validateTrack (fst settled) (snd settled)"
  define valid where "valid = concat (map (valid_tracks validateTrack) (fst settled))"
  define deduped where "deduped = main_dedup None valid (snd collected)"
  define uploaded where "uploaded = main_upload True None fetch valid (snd deduped)"
  define written where "written = main_write True None valid (snd uploaded)"
  define allStats where "allStats = map (update_stat valid valid) (snd (fst collected))"
  define rep where "rep = \<lparr>r_allStats = allStats, r_allTracks = valid, r_newTracks = valid,
                            r_tracksToWrite = valid\<rparr>"
  define s' where "s' = main_summary allStats valid elapsed (snd written)"
  have st: "main_start True init s = (Inr None, s1)"
    by (simp only: main_start_dry s1_def)
  have c: "fst (fst collected) = valid" "only_logs (snd settled) (snd collected)"
    using main_collect_props [of validateTrack "fst settled" "snd settled"]
    by (simp_all add: collected_def valid_def)
  have d: "fst deduped = Inr valid" "only_logs (snd collected) (snd deduped)"
    using main_dedup_none [of valid "snd collected"] by (simp_all add: deduped_def)
  have u: "fst uploaded = valid" "fst (snd uploaded) = fst (snd deduped)"
    "snd (snd uploaded) =
       snd (snd deduped)
       @ Log ''main'' (''[DRY RUN] Would upload '' @ show_nat (length valid) @ '' tracks to Storage'')
         # map (\<lambda>t. Log ''main'' (dry_run_line t)) (take 5 valid)"
    using main_upload_dry [of None fetch valid "snd deduped"] by (simp_all only: uploaded_def)
  have w: "fst written = None"
    "snd written = log ''main''
        (''[DRY RUN] Would write '' @ show_nat (length valid) @ '' tracks to Firestore'') (snd uploaded)"
    by (simp_all only: written_def main_write_dry fst_conv snd_conv)
  have m: "main True init sources validateTrack fetch elapsed s = (Inr rep, s')"
    unfolding main_def Let_def st fst_conv snd_conv sum.case option.map
      settled_def [symmetric] collected_def [symmetric] c(1) deduped_def [symmetric] d(1)
      uploaded_def [symmetric] u(1) written_def [symmetric] w(1) option.case
      allStats_def [symmetric] rep_def [symmetric] s'_def [symmetric]
    by (rule refl)
  have ul: "only_logs (snd deduped) (snd uploaded)"
    unfolding only_logs_def using u(2,3)
    by (simp add: is_log_def list_all_iff)
  have wl: "only_logs (snd uploaded) (snd written)"
    unfolding w(2) by (rule only_logs_log [OF only_logs_refl])
  have up_in: "Log ''main'' (''[DRY RUN] Would upload '' @ show_nat (length valid) @ '' tracks to Storage'')
          \<in> set (snd (snd uploaded))"
    unfolding u(3) by simp
  have wr_in: "Log ''main'' (''[DRY RUN] Would write '' @ show_nat (length valid) @ '' tracks to Firestore'')
          \<in> set (snd (snd written))"
    unfolding w(2) by simp
  have sl: "only_logs (snd written) s'"
    unfolding s'_def by (rule main_summary_only_logs)
  have all: "only_logs (snd settled) s'"
    using c(2) d(2) ul wl sl only_logs_trans by blast
  then obtain logs where logs: "fst s' = fst (snd settled)" "snd s' = snd (snd settled) @ logs"
      "list_all is_log logs"
    by (auto simp: only_logs_def)
  have "only_logs (snd settled) (snd deduped)" using c(2) d(2) only_logs_trans by blast
  then obtain l0 where l0: "snd (snd deduped) = snd (snd settled) @ l0"
    by (auto simp: only_logs_def)
  have "only_logs (snd uploaded) s'" using wl sl only_logs_trans by blast
  then obtain l1 where l1: "snd s' = snd (snd uploaded) @ l1"
    by (auto simp: only_logs_def)
  have "only_logs (snd written) s'" by (rule sl)
  then obtain l2 where l2: "snd s' = snd (snd written) @ l2"
    by (auto simp: only_logs_def)
  define X where "X = (Log ''main''
      (''[DRY RUN] Would upload '' @ show_nat (length valid) @ '' tracks to Storage'')
      :: 'a TrackRecord_scheme event)"
  define Y where "Y = (Log ''main''
      (''[DRY RUN] Would write '' @ show_nat (length valid) @ '' tracks to Firestore'')
      :: 'a TrackRecord_scheme event)"
  define dl where "dl = map (\<lambda>t. Log ''main'' (dry_run_line t) :: 'a TrackRecord_scheme event) (take 5 valid)"
  have u3: "snd (snd uploaded) = snd (snd deduped) @ X # dl"
    unfolding X_def dl_def by (rule u(3))
  have w2: "snd (snd written) = snd (snd uploaded) @ [Y]"
    unfolding Y_def w(2) by simp
  have "snd (snd settled) @ logs = snd (snd settled) @ (l0 @ (X # dl) @ [Y] @ l2)"
    using logs(2) l2 w2 u3 l0 by simp
  then have "logs = l0 @ (X # dl) @ [Y] @ l2" by simp
  then have "X \<in> set logs" "Y \<in> set logs" by simp_all
  then have in1: "Log ''main'' (''[DRY RUN] Would upload '' @ show_nat (length valid) @ '' tracks to Storage'')
          \<in> set logs"
    and in2: "Log ''main'' (''[DRY RUN] Would write '' @ show_nat (length valid) @ '' tracks to Firestore'')
          \<in> set logs"
    unfolding X_def Y_def by blast+
  have called: "foldl (\<lambda>acc f. (fst acc @ [fst (f None (snd acc))], snd (f None (snd acc))))
                  ([], s1) sources = settled"
    unfolding settled_def using run_sources_foldl [of None "[]" s1 sources] by simp
  show ?thesis
    apply (rule exI [of _ rep], rule exI [of _ s'])
    unfolding Let_def s1_def [symmetric] called valid_def [symmetric]
    using m logs in1 in2 by (auto simp: rep_def)
qed


subsection \<open>Deduplication\<close>

lemma add_existing_catalog:
  "add_existing existing (map (\<lambda>i. (i, i \<in> catalog)) chunk) = existing \<union> (set chunk \<inter> catalog)"
  unfolding add_existing_def
  by (induction chunk arbitrary: existing) auto

lemma checkExisting_from_catalog:
  "\<forall>ids w. getAll db ids w = (Inr (map (\<lambda>i. (i, i \<in> cat w)) ids), w) \<Longrightarrow>
   \<exists>calls. checkExisting_from db ids i existing s =
            (Inr (existing \<union> (set (drop i ids) \<inter> cat (fst s))), (fst s, snd s @ map GetAll calls)) \<and>
          concat calls = drop i ids \<and>
          (\<forall>c \<in> set calls. c \<noteq> [] \<and> length c \<le> CHUNK) \<and>
          (\<forall>c \<in> set (butlast calls). length c = CHUNK)"
proof (induction db ids i existing s rule: checkExisting_from.induct)
  case (1 db ids i existing s)
  show ?case
  proof (cases "i < length ids")
    case False
    then show ?thesis
      by (subst checkExisting_from.simps) (simp add: exI [of _ "[]"])
  next
    case True
    let ?chunk = "take CHUNK (drop i ids)"
    let ?snaps = "map (\<lambda>i. (i, i \<in> cat (fst s))) ?chunk"
    let ?s1 = "(fst s, snd s @ [GetAll ?chunk])"
    have g: "getAll db ?chunk (fst s) = (Inr ?snaps, fst s)"
      using "1.prems" by simp
    have step: "checkExisting_from db ids i existing s =
                checkExisting_from db ids (i + CHUNK) (add_existing existing ?snaps) ?s1"
      using True g by (subst checkExisting_from.simps) (simp add: Let_def)
    have "fst (getAll db ?chunk (fst s)) = Inr ?snaps" using g by simp
    from "1.IH" [OF True refl refl refl this "1.prems"] g
    obtain calls where ih:
      "checkExisting_from db ids (i + CHUNK) (add_existing existing ?snaps) ?s1 =
         (Inr (add_existing existing ?snaps \<union> (set (drop (i + CHUNK) ids) \<inter> cat (fst s))),
          (fst ?s1, snd ?s1 @ map GetAll calls))"
      "concat calls = drop (i + CHUNK) ids"
      "\<forall>c \<in> set calls. c \<noteq> [] \<and> length c \<le> CHUNK"
      "\<forall>c \<in> set (butlast calls). length c = CHUNK"
      by auto
    have d: "drop i ids = ?chunk @ drop (i + CHUNK) ids"
      by (metis append_take_drop_id drop_drop add.commute)
    have ne: "?chunk \<noteq> []" using True by (simp add: CHUNK_def)
    have sets: "add_existing existing ?snaps \<union> (set (drop (i + CHUNK) ids) \<inter> cat (fst s)) =
                existing \<union> (set (drop i ids) \<inter> cat (fst s))"
    proof -
      have "set (drop i ids) = set ?chunk \<union> set (drop (i + CHUNK) ids)"
        by (metis d set_append)
      then show ?thesis by (auto simp: add_existing_catalog)
    qed
    have full: "calls \<noteq> [] \<Longrightarrow> length ?chunk = CHUNK"
    proof -
      assume "calls \<noteq> []"
      then obtain c where "c \<in> set calls" by (cases calls) auto
      with ih(3) have "c \<noteq> []" by blast
      with \<open>c \<in> set calls\<close> have "concat calls \<noteq> []" by auto
      with ih(2) have "i + CHUNK < length ids" by simp
      then show ?thesis by simp
    qed
    show ?thesis
    proof (intro exI [of _ "?chunk # calls"] conjI)
      show "checkExisting_from db ids i existing s =
            (Inr (existing \<union> (set (drop i ids) \<inter> cat (fst s))),
             (fst s, snd s @ map GetAll (?chunk # calls)))"
        using step ih(1) sets by simp
      show "concat (?chunk # calls) = drop i ids" using d ih(2) by simp
      show "\<forall>c \<in> set (?chunk # calls). c \<noteq> [] \<and> length c \<le> CHUNK"
        using ih(3) ne by simp
      show "\<forall>c \<in> set (butlast (?chunk # calls)). length c = CHUNK"
        using ih(4) full by simp
    qed
  qed
qed

lemma main_dedup_catalog:
  assumes ga: "\<forall>ids w. getAll db ids w = (Inr (map (\<lambda>i. (i, i \<in> cat w)) ids), w)"
  shows "fst (main_dedup (Some db) allTracks s)
         = Inr (filter (\<lambda>t. track_id t \<notin> cat (fst s)) allTracks)"
proof -
  from checkExisting_from_catalog [OF ga, of "map track_id allTracks" 0 "{}" s]
  obtain s1 where "batchCheckExisting db (map track_id allTracks) s
                   = (Inr (set (map track_id allTracks) \<inter> cat (fst s)), s1)"
    by (auto simp: batchCheckExisting_def)
  moreover have "filter (\<lambda>t. track_id t \<notin> set (map track_id allTracks) \<inter> cat (fst s)) allTracks
                 = filter (\<lambda>t. track_id t \<notin> cat (fst s)) allTracks"
    by (rule filter_cong) auto
  ultimately show ?thesis
    by (simp add: main_dedup_def Let_def)
qed

lemma only_logs_fst: "only_logs s s' \<Longrightarrow> fst s' = fst s"
  by (simp add: only_logs_def)

text \<open>
  Claim C2. Let the bulk lookup of \<open>db\<close> answer from a catalog (the set of ids
  \<open>catalog w\<close> present in world \<open>w\<close>) and leave the world as it is. Then
  \<open>batchCheckExisting\<close> issues one \<open>getAll\<close> per chunk, the chunks being consecutive
  pieces of the id list, none empty, each of at most \<open>CHUNK = 100\<close> ids and all but
  the last of exactly 100, and it returns the ids that are in the catalog at that
  time; and in a live run of \<open>main\<close> the new tracks are the valid tracks whose id is
  not in the catalog as it is when the adapters have settled.
\<close>

theorem C2_dedup_completeness:
  assumes "\<forall>ids w. getAll db ids w = (Inr (map (\<lambda>i. (i, i \<in> catalog w)) ids), w)"
  shows "(\<exists>calls. batchCheckExisting db ids s =
             (Inr (set ids \<inter> catalog (fst s)), (fst s, snd s @ map GetAll calls)) \<and>
           concat calls = ids \<and>
           (\<forall>c \<in> set calls. c \<noteq> [] \<and> length c \<le> CHUNK) \<and>
           (\<forall>c \<in> set (butlast calls). length c = CHUNK) \<and> CHUNK = 100) \<and>
         (\<forall>rep s'. main False (Inr \<lparr>fs_db = db, fs_bucket = bucket\<rparr>) sources validateTrack fetch
                      elapsed s0 = (Inr rep, s') \<longrightarrow>
            (let w = fst (snd (run_sources sources (Some db)
                                 (snd (main_start False (Inr \<lparr>fs_db = db, fs_bucket = bucket\<rparr>) s0))))
             in r_newTracks rep = filter (\<lambda>t. track_id t \<notin> catalog w) (r_allTracks rep) \<and>
                (\<forall>t \<in> set (r_newTracks rep). track_id t \<notin> catalog w)))"
proof (intro conjI allI impI)
  from checkExisting_from_catalog [OF assms, of ids 0 "{}" s]
  show "\<exists>calls. batchCheckExisting db ids s =
             (Inr (set ids \<inter> catalog (fst s)), (fst s, snd s @ map GetAll calls)) \<and>
           concat calls = ids \<and>
           (\<forall>c \<in> set calls. c \<noteq> [] \<and> length c \<le> CHUNK) \<and>
           (\<forall>c \<in> set (butlast calls). length c = CHUNK) \<and> CHUNK = 100"
    by (simp add: batchCheckExisting_def CHUNK_def)
next
  fix rep s'
  let ?sv = "\<lparr>fs_db = db, fs_bucket = bucket\<rparr>"
  let ?w = "fst (snd (run_sources sources (Some db) (snd (main_start False (Inr ?sv) s0))))"
  assume m: "main False (Inr ?sv) sources validateTrack fetch elapsed s0 = (Inr rep, s')"
  have st: "fst (main_start False (Inr ?sv) s0) = Inr (Some ?sv)"
    by (simp add: main_start_def Let_def)
  have eq: "r_newTracks rep = filter (\<lambda>t. track_id t \<notin> catalog ?w) (r_allTracks rep)"
  proof (rule main_cases [OF m])
    fix services settled collected deduped
    assume a: "fst (main_start False (Inr ?sv) s0) = Inr services"
      and s: "settled = run_sources sources (map_option fs_db services) (snd (main_start False (Inr ?sv) s0))"
      and cl: "collected = main_collect validateTrack (fst settled) (snd settled)"
      and b: "deduped = main_dedup (map_option fs_db services) (fst (fst collected)) (snd collected)"
      and c: "fst deduped = Inr (r_newTracks rep)"
      and d: "r_allTracks rep = fst (fst collected)"
    from a st have sv: "services = Some ?sv" by simp
    have w: "fst (snd collected) = ?w"
      using main_collect_props [of validateTrack "fst settled" "snd settled"]
      by (simp add: cl s sv only_logs_fst)
    have "fst deduped = Inr (filter (\<lambda>t. track_id t \<notin> catalog (fst (snd collected))) (r_allTracks rep))"
      unfolding b d sv option.map FirebaseServices.select_convs
      by (rule main_dedup_catalog [OF assms])
    with c w show ?thesis by simp
  qed
  then show "let w = ?w
             in r_newTracks rep = filter (\<lambda>t. track_id t \<notin> catalog w) (r_allTracks rep) \<and>
                (\<forall>t \<in> set (r_newTracks rep). track_id t \<notin> catalog w)"
    by (simp add: Let_def)
qed



theorem C2_dedup_completeness_witness:
  "(\<forall>ids w. getAll (mem_db :: (unit, unit mem_world) Firestore) ids w
             = (Inr (map (\<lambda>i. (i, i \<in> w_catalog w)) ids), w)) \<and>
   (case fst rerun of
      Inl e \<Rightarrow> False
    | Inr rep \<Rightarrow> r_allTracks rep = [external_track, relocated_track] \<and>
                 r_newTracks rep = [relocated_track])"
proof -
  let ?sv = "\<lparr>fs_db = mem_db, fs_bucket = accepting_bucket\<rparr> :: (unit, unit mem_world) FirebaseServices"
  have h: "\<forall>ids w. getAll (mem_db :: (unit, unit mem_world) Firestore) ids w
             = (Inr (map (\<lambda>i. (i, i \<in> w_catalog w)) ids), w)"
    by (simp add: mem_db_def)
  have ev: "case fst rerun of Inl e \<Rightarrow> False
            | Inr rep \<Rightarrow> r_allTracks rep = [external_track, relocated_track]"
    by code_simp
  then obtain rep where rep: "fst rerun = Inr rep" "r_allTracks rep = [external_track, relocated_track]"
    by (cases "fst rerun") auto
  have run: "main False (Inr ?sv) [two_source] (\<lambda>t. True) refusing_fetch ''0.1'' stocked
             = (Inr rep, snd rerun)"
    using rep(1) by (simp add: rerun_def [symmetric] prod_eq_iff)
  have w: "fst (snd (run_sources [two_source] (Some mem_db) (snd (main_start False (Inr ?sv) stocked))))
           = fst stocked"
    by (simp add: two_source_def main_start_def Let_def)
  have "\<forall>rep s'. main False (Inr ?sv) [two_source] (\<lambda>t. True) refusing_fetch ''0.1'' stocked = (Inr rep, s') \<longrightarrow>
            (let w = fst (snd (run_sources [two_source] (Some mem_db)
                                 (snd (main_start False (Inr ?sv) stocked))))
             in r_newTracks rep = filter (\<lambda>t. track_id t \<notin> w_catalog w) (r_allTracks rep) \<and>
                (\<forall>t \<in> set (r_newTracks rep). track_id t \<notin> w_catalog w))"
    using C2_dedup_completeness [OF h, of "[]" stocked accepting_bucket "[two_source]" "\<lambda>t. True"
            refusing_fetch "''0.1''" stocked]
    by blast
  from this [rule_format, OF run]
  have "r_newTracks rep = filter (\<lambda>t. track_id t \<notin> w_catalog (fst stocked)) (r_allTracks rep)"
    unfolding Let_def w by blast
  then have "r_newTracks rep = [relocated_track]"
    by (simp add: rep(2) stocked_def external_track_def relocated_track_def)
  with h rep show ?thesis by simp
qed


subsection \<open>The migration of internal references\<close>

lemma doc_updates_append [simp]: "doc_updates (xs @ ys) = doc_updates xs @ doc_updates ys"
  by (induction xs rule: doc_updates.induct) simp_all

lemma gsToHttps_no_update:
  "doc_updates (snd (snd (gsToHttps randomUUID bucket gsUrl s))) = doc_updates (snd s)"
  by (simp add: gsToHttps_def Let_def split: option.splits sum.splits bool.splits)


text \<open>
  Claim C9. For one document handled by the migration script, let \<open>a\<close> and \<open>b\<close> be the
  conversions of its artwork and audio references, each made only when the reference
  starts with "gs://", the second only after the first did not fail. The script
  issues an update of the document only in a live run in which every needed conversion
  succeeded, and then exactly one, carrying all the converted references together. If
  a needed conversion fails it issues no update, counts the document once as failed
  and appends its id to the failed ids. In a dry run, and for a document that needs no
  fix, it issues no update.
\<close>

theorem C9_update_all_or_nothing:
  "let artworkUrl = or_str (doc_artwork doc) [];
       audioUrl' = or_str (doc_audioUrl doc) [];
       artworkNeedsFix = startsWith artworkUrl ''gs://'';
       audioNeedsFix = startsWith audioUrl' ''gs://'';
       a = gsToHttps randomUUID bucket artworkUrl s;
       b = gsToHttps randomUUID bucket audioUrl' (if artworkNeedsFix then snd a else s);
       artworkFailed = (artworkNeedsFix \<and> fst a = None);
       audioFailed = (\<not> artworkFailed \<and> audioNeedsFix \<and> fst b = None);
       res = migrate_doc isDryRun randomUUID bucket update doc (stats, s);
       written = drop (length (doc_updates (snd s))) (doc_updates (snd (snd res)))
   in doc_updates (snd (snd res)) = doc_updates (snd s) @ written \<and>
      total (fst res) = total stats + 1 \<and>
      (isDryRun \<longrightarrow> written = []) \<and>
      (\<not> artworkNeedsFix \<and> \<not> audioNeedsFix \<longrightarrow> written = []) \<and>
      (\<not> isDryRun \<and> (artworkFailed \<or> audioFailed) \<longrightarrow>
         written = [] \<and> failed (fst res) = failed stats + 1 \<and>
         failedIds (fst res) = failedIds stats @ [doc_id doc] \<and>
         migrated (fst res) = migrated stats) \<and>
      (\<not> isDryRun \<and> (artworkNeedsFix \<or> audioNeedsFix) \<and> \<not> artworkFailed \<and> \<not> audioFailed \<longrightarrow>
         written = [(doc_id doc,
                     (if artworkNeedsFix then [(''artwork'', the (fst a))] else [])
                     @ (if audioNeedsFix then [(''audioUrl'', the (fst b))] else []))] \<and>
         failed (fst res) = failed stats \<and> failedIds (fst res) = failedIds stats)"
proof -
  define artworkUrl where "artworkUrl = or_str (doc_artwork doc) []"
  define audioUrl' where "audioUrl' = or_str (doc_audioUrl doc) []"
  define aN where "aN = startsWith artworkUrl ''gs://''"
  define bN where "bN = startsWith audioUrl' ''gs://''"
  define a where "a = gsToHttps randomUUID bucket artworkUrl s"
  define sa where "sa = (if aN then snd a else s)"
  define b where "b = gsToHttps randomUUID bucket audioUrl' sa"
  define res where "res = migrate_doc isDryRun randomUUID bucket update doc (stats, s)"
  define stats1 where "stats1 = stats\<lparr>total := total stats + 1\<rparr>"
  define failstats where
    "failstats = stats1\<lparr>failed := failed stats1 + 1, failedIds := failedIds stats1 @ [doc_id doc]\<rparr>"
  define updates where
    "updates = (if aN then [(''artwork'', the (fst a))] else [])
               @ (if bN then [(''audioUrl'', the (fst b))] else [])"
  define a' where "a' = (if aN then gsToHttps randomUUID bucket artworkUrl s else (None, s))"
  define b' where "b' = (if bN then gsToHttps randomUUID bucket audioUrl' (snd a') else (None, snd a'))"
  have a': "snd a' = sa" "aN \<Longrightarrow> fst a' = fst a"
    by (simp_all add: a'_def sa_def a_def)
  have b': "bN \<Longrightarrow> b' = b" "\<not> bN \<Longrightarrow> snd b' = sa"
    by (simp_all add: b'_def b_def a')
  have usa: "doc_updates (snd sa) = doc_updates (snd s)"
    by (simp add: sa_def a_def gsToHttps_no_update)
  have ub: "doc_updates (snd (snd b)) = doc_updates (snd s)"
    unfolding b_def using usa by (simp add: gsToHttps_no_update)
  have ub': "doc_updates (snd (snd b')) = doc_updates (snd s)"
    using b' ub usa by (cases bN) simp_all
  have unf: "res =
     (if \<not> aN \<and> \<not> bN then (stats1\<lparr>skipped := skipped stats1 + 1\<rparr>, s)
      else if isDryRun then
        (stats1\<lparr>migrated := migrated stats1 + 1\<rparr>,
         log ''migrate''
           (''[DRY RUN] Would fix: '' @ doc_id doc @ '' - '' @ [CHR 0x22] @ doc_title doc
              @ [CHR 0x22] @ '' (artwork: '' @ show_bool aN @ '', audio: '' @ show_bool bN @ '')'') s)
      else if aN \<and> fst a' = None then (failstats, snd a')
      else if bN \<and> fst b' = None then (failstats, snd b')
      else
        (let upd = (if aN then [(''artwork'', the (fst a'))] else [])
                   @ (if bN then [(''audioUrl'', the (fst b'))] else []);
             r = fst (update (doc_id doc) upd (fst (snd b')));
             s3 = (snd (update (doc_id doc) upd (fst (snd b'))),
                   snd (snd b') @ [DocUpdate (doc_id doc) upd])
         in case r of
              Some m \<Rightarrow> (stats1, s3)
            | None \<Rightarrow>
                (stats1\<lparr>migrated := migrated stats1 + 1\<rparr>,
                 if (migrated stats1 + 1) mod 50 = 0
                 then log ''migrate''
                        (''Progress: '' @ show_nat (migrated stats1 + 1)
                           @ '' migrated, '' @ show_nat (total stats1) @ '' scanned'') s3
                 else s3)))"
    unfolding res_def migrate_doc_def Let_def fst_conv snd_conv
      artworkUrl_def [symmetric] audioUrl'_def [symmetric] aN_def [symmetric] bN_def [symmetric]
      a'_def [symmetric] b'_def [symmetric] stats1_def [symmetric] failstats_def [symmetric]
    by (rule refl)
  have tot: "total (fst res) = total stats + 1"
    unfolding unf by (simp add: stats1_def failstats_def Let_def split: option.splits)
  have c1: "isDryRun \<or> (\<not> aN \<and> \<not> bN) \<Longrightarrow> doc_updates (snd (snd res)) = doc_updates (snd s)"
    unfolding unf by auto
  have c2: "\<not> isDryRun \<Longrightarrow> (aN \<and> fst a = None) \<or> (\<not> (aN \<and> fst a = None) \<and> bN \<and> fst b = None) \<Longrightarrow>
        doc_updates (snd (snd res)) = doc_updates (snd s) \<and> failed (fst res) = failed stats + 1 \<and>
        failedIds (fst res) = failedIds stats @ [doc_id doc] \<and> migrated (fst res) = migrated stats"
  proof -
    assume nd: "\<not> isDryRun" and f: "(aN \<and> fst a = None) \<or> (\<not> (aN \<and> fst a = None) \<and> bN \<and> fst b = None)"
    from f have r: "res = (failstats, snd a') \<or> res = (failstats, snd b')"
      unfolding unf using nd a' b' by auto
    have "doc_updates (snd (snd a')) = doc_updates (snd s)" using a'(1) usa by simp
    with r ub' show ?thesis
      by (auto simp: failstats_def stats1_def)
  qed
  have c3: "\<not> isDryRun \<Longrightarrow> aN \<or> bN \<Longrightarrow> \<not> (aN \<and> fst a = None) \<Longrightarrow> \<not> (bN \<and> fst b = None) \<Longrightarrow>
        doc_updates (snd (snd res)) = doc_updates (snd s) @ [(doc_id doc, updates)] \<and>
        failed (fst res) = failed stats \<and> failedIds (fst res) = failedIds stats"
  proof -
    assume nd: "\<not> isDryRun" and n: "aN \<or> bN" and oka: "\<not> (aN \<and> fst a = None)"
      and okb: "\<not> (bN \<and> fst b = None)"
    have upd: "(if aN then [(''artwork'', the (fst a'))] else [])
                   @ (if bN then [(''audioUrl'', the (fst b'))] else []) = updates"
      unfolding updates_def using a'(2) b'(1) by auto
    have c: "(\<not> aN \<and> \<not> bN) = False" "(aN \<and> fst a' = None) = False"
        "(bN \<and> fst b' = None) = False" "isDryRun = False"
      using n oka okb a'(2) b'(1) nd by auto
    show ?thesis
      unfolding unf c if_False upd using ub'
      by (simp add: Let_def stats1_def split: option.splits)
  qed
  define written where "written = drop (length (doc_updates (snd s))) (doc_updates (snd (snd res)))"
  have k: "\<And>X. doc_updates (snd (snd res)) = doc_updates (snd s) @ X \<Longrightarrow> written = X"
    by (simp add: written_def)
  have g1: "isDryRun \<longrightarrow> written = []" using c1 k [of "[]"] by simp
  have g2: "\<not> aN \<and> \<not> bN \<longrightarrow> written = []" using c1 k [of "[]"] by simp
  have g3: "\<not> isDryRun \<and> (aN \<and> fst a = None \<or> \<not> (aN \<and> fst a = None) \<and> bN \<and> fst b = None) \<longrightarrow>
         written = [] \<and> failed (fst res) = failed stats + 1 \<and>
         failedIds (fst res) = failedIds stats @ [doc_id doc] \<and>
         migrated (fst res) = migrated stats"
    using c2 k [of "[]"] by simp
  have g4: "\<not> isDryRun \<and> (aN \<or> bN) \<and> \<not> (aN \<and> fst a = None)
              \<and> \<not> (\<not> (aN \<and> fst a = None) \<and> bN \<and> fst b = None) \<longrightarrow>
         written = [(doc_id doc, updates)] \<and>
         failed (fst res) = failed stats \<and> failedIds (fst res) = failedIds stats"
  proof
    assume h: "\<not> isDryRun \<and> (aN \<or> bN) \<and> \<not> (aN \<and> fst a = None)
              \<and> \<not> (\<not> (aN \<and> fst a = None) \<and> bN \<and> fst b = None)"
    then have "\<not> isDryRun" "aN \<or> bN" "\<not> (aN \<and> fst a = None)" "\<not> (bN \<and> fst b = None)"
      by blast+
    from c3 [OF this] k [of "[(doc_id doc, updates)]"]
    show "written = [(doc_id doc, updates)] \<and>
         failed (fst res) = failed stats \<and> failedIds (fst res) = failedIds stats"
      by simp
  qed
  have g0: "doc_updates (snd (snd res)) = doc_updates (snd s) @ written"
  proof (cases "isDryRun \<or> (\<not> aN \<and> \<not> bN)")
    case True
    with c1 g1 g2 show ?thesis by auto
  next
    case nd: False
    show ?thesis
    proof (cases "aN \<and> fst a = None \<or> \<not> (aN \<and> fst a = None) \<and> bN \<and> fst b = None")
      case True
      with nd c2 g3 show ?thesis by auto
    next
      case False
      with nd have h: "\<not> isDryRun" "aN \<or> bN" "\<not> (aN \<and> fst a = None)" "\<not> (bN \<and> fst b = None)"
        by blast+
      from c3 [OF h] g4 h False show ?thesis by auto
    qed
  qed
  have sa_eq: "(if aN then snd a else s) = sa" by (simp add: sa_def)
  show ?thesis
    unfolding Let_def artworkUrl_def [symmetric] audioUrl'_def [symmetric]
      aN_def [symmetric] bN_def [symmetric] a_def [symmetric] sa_eq b_def [symmetric]
      res_def [symmetric] updates_def [symmetric] written_def [symmetric]
    by (intro conjI g0 tot g1 g2 g3 g4)
qed


theorem C9_update_all_or_nothing_witness:
  "startsWith (or_str (doc_artwork legacy_doc) []) ''gs://'' \<and>
   fst (gsToHttps (\<lambda>w. (''0b0e'', w)) half_bucket (or_str (doc_artwork legacy_doc) []) quiet) \<noteq> None \<and>
   startsWith (or_str (doc_audioUrl legacy_doc) []) ''gs://'' \<and>
   fst (gsToHttps (\<lambda>w. (''0b0e'', w)) half_bucket (or_str (doc_audioUrl legacy_doc) [])
          (snd (gsToHttps (\<lambda>w. (''0b0e'', w)) half_bucket (or_str (doc_artwork legacy_doc) []) quiet)))
     = None \<and>
   doc_updates (snd (snd legacy_migration)) = [] \<and>
   failed (fst legacy_migration) = 1 \<and>
   failedIds (fst legacy_migration) = [''jamendo-501'']"
proof -
  let ?u = "\<lambda>w :: unit. (''0b0e'', w)"
  let ?a = "gsToHttps ?u half_bucket (or_str (doc_artwork legacy_doc) []) quiet"
  let ?b = "gsToHttps ?u half_bucket (or_str (doc_audioUrl legacy_doc) []) (snd ?a)"
  have h: "startsWith (or_str (doc_artwork legacy_doc) []) ''gs://''"
    "fst ?a \<noteq> None"
    "startsWith (or_str (doc_audioUrl legacy_doc) []) ''gs://''"
    "fst ?b = None"
    by code_simp+
  have q: "doc_updates (snd quiet) = []" by (simp add: quiet_def)
  from C9_update_all_or_nothing [of legacy_doc ?u half_bucket quiet False "\<lambda>i u w. (None, w)"
         "\<lparr>total = 0, migrated = 0, skipped = 0, failed = 0, failedIds = []\<rparr>"]
  have "doc_updates (snd (snd legacy_migration)) = [] \<and>
        failed (fst legacy_migration) = 0 + 1 \<and>
        failedIds (fst legacy_migration) = [] @ [doc_id legacy_doc]"
    unfolding Let_def legacy_migration_def [symmetric] q using h by simp
  then show ?thesis using h by (simp add: legacy_doc_def)
qed


subsection \<open>The adapters' progress\<close>

lemma http_gets_append [simp]: "http_gets (xs @ ys) = http_gets xs @ http_gets ys"
  by (induction xs rule: http_gets.induct) simp_all

lemma on_net_fst [simp]: "fst (on_net f u w) = fst (f u (w_net w))"
  by (simp add: on_net_def)

lemma on_net_snd [simp]: "snd (on_net f u w) = w\<lparr>w_net := snd (f u (w_net w))\<rparr>"
  by (simp add: on_net_def)


lemma rotation_covers:
  fixes P n R i0 j :: nat
  assumes "0 < P" "P \<le> R * n" "j < P"
  shows "\<exists>r<R. \<exists>k<n. (i0 + r * n + k) mod P = j"
proof -
  define m where "m = (j + P - i0 mod P) mod P"
  have mP: "m < P" using assms(1) by (simp add: m_def)
  have n0: "0 < n" using assms(1,2) by (cases n) auto
  have "m < R * n" using mP assms(2) by simp
  then have r: "m div n < R" using n0 by (simp add: less_mult_imp_div_less)
  have k: "m mod n < n" using n0 by simp
  have le: "i0 mod P \<le> P" using assms(1) by (simp add: less_imp_le)
  have "(i0 + m) mod P = (i0 + (j + P - i0 mod P)) mod P"
    unfolding m_def by (rule mod_add_right_eq)
  also have "\<dots> = (i0 mod P + (j + P - i0 mod P)) mod P"
    by (rule mod_add_left_eq [symmetric])
  also have "i0 mod P + (j + P - i0 mod P) = j + P" using le by simp
  also have "(j + P) mod P = j" using assms(3) by simp
  finally have "(i0 + (m div n) * n + m mod n) mod P = j"
    by (simp add: add.assoc)
  with r k show ?thesis by blast
qed

lemma rotation_runs_cover:
  fixes run :: "'s \<Rightarrow> 's" and idx :: "'s \<Rightarrow> nat" and sel :: "'s \<Rightarrow> nat set"
  assumes P: "0 < P" "P \<le> R * n"
    and step_idx: "\<And>s. idx (run s) mod P = (idx s + n) mod P"
    and step_sel: "\<And>s k. k < n \<Longrightarrow> (idx s + k) mod P \<in> sel (run s)"
    and mono: "\<And>s. sel s \<subseteq> sel (run s)"
    and j: "j < P"
  shows "j \<in> sel ((run ^^ R) s)"
proof -
  have idx_r: "idx ((run ^^ r) s) mod P = (idx s + r * n) mod P" for r
  proof (induction r)
    case 0
    then show ?case by simp
  next
    case (Suc r)
    have "idx ((run ^^ Suc r) s) mod P = (idx ((run ^^ r) s) + n) mod P"
      by (simp add: step_idx)
    also have "\<dots> = (idx ((run ^^ r) s) mod P + n) mod P" by (simp add: mod_add_left_eq)
    also have "\<dots> = ((idx s + r * n) mod P + n) mod P" by (simp add: Suc)
    also have "\<dots> = ((idx s + r * n) + n) mod P" by (rule mod_add_left_eq)
    also have "(idx s + r * n) + n = idx s + Suc r * n" by simp
    finally show ?case .
  qed
  have mono_r: "sel ((run ^^ r) s) \<subseteq> sel ((run ^^ (r + d)) s)" for r d
  proof (induction d)
    case 0
    then show ?case by simp
  next
    case (Suc d)
    then show ?case using mono [of "(run ^^ (r + d)) s"] by auto
  qed
  from rotation_covers [OF P j, of "idx s"]
  obtain r k where rk: "r < R" "k < n" "(idx s + r * n + k) mod P = j" by blast
  have "(idx ((run ^^ r) s) + k) mod P = (idx ((run ^^ r) s) mod P + k) mod P"
    by (simp add: mod_add_left_eq)
  also have "\<dots> = ((idx s + r * n) mod P + k) mod P" by (simp add: idx_r)
  also have "\<dots> = j" using rk(3) by (simp add: mod_add_left_eq)
  finally have "j \<in> sel (run ((run ^^ r) s))" using step_sel [OF rk(2), of "(run ^^ r) s"] by simp
  then have "j \<in> sel ((run ^^ Suc r) s)" by simp
  moreover have "sel ((run ^^ Suc r) s) \<subseteq> sel ((run ^^ R) s)"
    using mono_r [of "Suc r" "R - Suc r"] rk(1) by simp
  ultimately show ?thesis by blast
qed

lemma cc_fetch_type_props:
  fixes vs :: "(CCMixterState, 'a) fetch_vars \<times> ('t, 'w) st"
    and ct :: nat
    and fetch :: "string \<Rightarrow> 'w \<Rightarrow> CCMixterTrack list option http_result \<times> 'w"
    and sanitizeTrack :: "TrackRecord \<Rightarrow> string + 'a TrackRecord_scheme"
  defines "key \<equiv> CONTENT_TYPES ! ((contentTypeIndex (v_state (fst vs)) + ct) mod length CONTENT_TYPES)"
  defines "off \<equiv> (case offsetByType (v_state (fst vs)) key of None \<Rightarrow> 0 | Some n \<Rightarrow> n)"
  defines "r \<equiv> fst (fetch (cc_url key off) (fst (snd vs)))"
  defines "res \<equiv> cc_fetch_type sanitizeTrack fetch ct vs"
  shows "contentTypeIndex (v_state (fst res)) = contentTypeIndex (v_state (fst vs))"
    and "\<forall>k. k \<noteq> key \<longrightarrow> offsetByType (v_state (fst res)) k = offsetByType (v_state (fst vs)) k"
    and "page_empty r \<longrightarrow> offsetByType (v_state (fst res)) key = Some 0"
    and "page_items r \<noteq> [] \<and>
           fst (cc_records sanitizeTrack key (page_items r) (v_seen (fst vs)) (v_tracks (fst vs))) = None
         \<longrightarrow> offsetByType (v_state (fst res)) key = Some (off + CC_PAGE_SIZE)"
    and "http_failure r \<longrightarrow> offsetByType (v_state (fst res)) = offsetByType (v_state (fst vs))"
    and "fst (snd res) = snd (fetch (cc_url key off) (fst (snd vs)))"
    and "\<exists>ev. snd (snd res) = snd (snd vs) @ ev \<and> http_gets ev = [cc_url key off]"
proof -
  define s2 where "s2 = (snd (fetch (cc_url key off) (fst (snd vs))),
     snd (log CC_SOURCE (''['' @ key @ ''] offset '' @ show_nat off @ ''...'') (snd vs)) @ [HttpGet (cc_url key off)])"
  have unf: "res =
     (case r of
           NetError m \<Rightarrow> ((fst vs)\<lparr>v_errors := v_errors (fst vs) @ [key @ '': '' @ m]\<rparr>, s2)
         | HttpResponse status body \<Rightarrow>
             (if \<not> response_ok status then
                ((fst vs)\<lparr>v_errors := v_errors (fst vs)
                      @ [''HTTP '' @ show_nat status @ '' on type '' @ key]\<rparr>, s2)
              else
                (case body of
                   Inl m \<Rightarrow> ((fst vs)\<lparr>v_errors := v_errors (fst vs) @ [key @ '': '' @ m]\<rparr>, s2)
                 | Inr records \<Rightarrow>
                     (if records = None \<or> records = Some [] then
                        ((fst vs)\<lparr>v_state := (v_state (fst vs))\<lparr>offsetByType :=
                              (offsetByType (v_state (fst vs)))(key \<mapsto> 0)\<rparr>\<rparr>, s2)
                      else
                        (case cc_records sanitizeTrack key (the records)
                                (v_seen (fst vs)) (v_tracks (fst vs)) of
                           (Some err, seen', tracks') \<Rightarrow>
                             ((fst vs)\<lparr>v_seen := seen', v_tracks := tracks',
                                v_errors := v_errors (fst vs) @ [key @ '': '' @ err]\<rparr>, s2)
                         | (None, seen', tracks') \<Rightarrow>
                             ((fst vs)\<lparr>v_seen := seen', v_tracks := tracks',
                                v_state := (v_state (fst vs))\<lparr>offsetByType :=
                                  (offsetByType (v_state (fst vs)))(key \<mapsto> off + CC_PAGE_SIZE)\<rparr>\<rparr>,
                              sleep 400 s2))))))"
    unfolding res_def cc_fetch_type_def Let_def fst_log key_def [symmetric]
      off_def [symmetric] r_def [symmetric] s2_def [symmetric]
    by (rule refl)
  have s2: "fst s2 = snd (fetch (cc_url key off) (fst (snd vs)))"
     "snd s2 = snd (snd vs) @ [Log CC_SOURCE (''['' @ key @ ''] offset '' @ show_nat off @ ''...''),
                               HttpGet (cc_url key off)]"
    by (simp_all add: s2_def)
  show "contentTypeIndex (v_state (fst res)) = contentTypeIndex (v_state (fst vs))"
    unfolding unf
    by (simp split: http_result.splits sum.splits prod.splits option.splits)
  show "\<forall>k. k \<noteq> key \<longrightarrow> offsetByType (v_state (fst res)) k = offsetByType (v_state (fst vs)) k"
    unfolding unf
    by (simp split: http_result.splits sum.splits prod.splits option.splits)
  show "page_empty r \<longrightarrow> offsetByType (v_state (fst res)) key = Some 0"
    unfolding unf page_empty_def
    by (auto split: http_result.splits sum.splits prod.splits option.splits)
  show "page_items r \<noteq> [] \<and>
           fst (cc_records sanitizeTrack key (page_items r) (v_seen (fst vs)) (v_tracks (fst vs))) = None
         \<longrightarrow> offsetByType (v_state (fst res)) key = Some (off + CC_PAGE_SIZE)"
    unfolding unf page_items_def
    by (auto split: http_result.splits sum.splits prod.splits option.splits if_splits)
  show "http_failure r \<longrightarrow> offsetByType (v_state (fst res)) = offsetByType (v_state (fst vs))"
    unfolding unf http_failure_def
    by (auto split: http_result.splits sum.splits prod.splits option.splits if_splits)
  show "fst (snd res) = snd (fetch (cc_url key off) (fst (snd vs)))"
    unfolding unf using s2(1)
    by (simp add: sleep_def emit_def split: http_result.splits sum.splits prod.splits option.splits)
  show "\<exists>ev. snd (snd res) = snd (snd vs) @ ev \<and> http_gets ev = [cc_url key off]"
    unfolding unf using s2(2)
    by (auto simp: sleep_def emit_def split: http_result.splits sum.splits prod.splits option.splits)
qed


lemma cc_before_0:
  "cc_before san fetch db s 0 =
     (\<lparr>v_state = fst (cc_load db s), v_errors = [], v_seen = {}, v_tracks = []\<rparr>, snd (cc_load db s))"
  by (simp add: cc_before_def)

lemma cc_before_Suc:
  "cc_before san fetch db s (Suc ct) = cc_fetch_type san fetch ct (cc_before san fetch db s ct)"
  by (simp add: cc_before_def)

lemma cc_load_mem:
  "cc_load (Some mem_db) s =
     ((case w_ccmixter (fst s) of
         None \<Rightarrow> \<lparr>contentTypeIndex = 0, offsetByType = Map.empty, cc_lastRun = []\<rparr>
       | Some st \<Rightarrow> st),
      (fst s, snd s @ [DocGet CC_STATE_DOC]))"
  by (simp add: cc_load_def mem_db_def Let_def split: option.splits)

lemma cc_save_mem_world:
  "fst (cc_save (on_clock now) (Some mem_db) st s) =
     (fst s)\<lparr>w_net := snd (now (w_net (fst s))),
             w_ccmixter := Some \<lparr>contentTypeIndex = (contentTypeIndex st + typesToFetch) mod length CONTENT_TYPES,
                                  offsetByType = offsetByType st,
                                  cc_lastRun = fst (now (w_net (fst s)))\<rparr>\<rparr>"
  by (simp add: cc_save_def mem_db_def on_clock_def Let_def)

lemma cc_save_mem_gets:
  "http_gets (snd (cc_save (on_clock now) (Some mem_db) st s)) = http_gets (snd s)"
  by (simp add: cc_save_def mem_db_def on_clock_def Let_def)

lemma cc_turn_mem:
  "w_ccmixter (fst (snd (cc_fetch_type san (on_net fetch) ct vs))) = w_ccmixter (fst (snd vs))"
  using cc_fetch_type_props(6) [where sanitizeTrack = san and fetch = "on_net fetch" and ct = ct and vs = vs] by simp

lemma cc_before_index:
  "contentTypeIndex (v_state (fst (cc_before san fetch db s ct)))
   = contentTypeIndex (fst (cc_load db s))"
  by (induction ct) (simp_all add: cc_before_0 cc_before_Suc cc_fetch_type_props(1))

lemma cc_before_gets:
  "http_gets (snd (snd (cc_before san fetch db s ct)))
   = http_gets (snd (snd (cc_load db s)))
     @ map (\<lambda>c. cc_url (cc_key (cc_before san fetch db s c) c) (cc_off (cc_before san fetch db s c) c))
         [0..<ct]"
proof (induction ct)
  case 0
  then show ?case by (simp add: cc_before_0)
next
  case (Suc ct)
  from cc_fetch_type_props(7) [where sanitizeTrack = san and fetch = fetch and ct = ct
      and vs = "cc_before san fetch db s ct"]
  obtain ev where "snd (snd (cc_before san fetch db s (Suc ct)))
                   = snd (snd (cc_before san fetch db s ct)) @ ev"
    "http_gets ev = [cc_url (cc_key (cc_before san fetch db s ct) ct)
                       (cc_off (cc_before san fetch db s ct) ct)]"
    unfolding cc_before_Suc cc_key_def cc_off_def by blast
  with Suc show ?case by simp
qed

lemma cc_run_mem:
  fixes s :: "('t, 'n mem_world) st"
    and san :: "TrackRecord \<Rightarrow> string + 'a TrackRecord_scheme"
    and fetch :: "string \<Rightarrow> 'n \<Rightarrow> CCMixterTrack list option http_result \<times> 'n"
    and now :: "'n \<Rightarrow> string \<times> 'n"
  defines "db \<equiv> Some (mem_db :: ('a, 'n mem_world) Firestore)"
  defines "s' \<equiv> snd (fetchCCMixter san (on_net fetch) (on_clock now) db s)"
  defines "B \<equiv> cc_before san (on_net fetch) db s"
  shows "\<exists>lr. w_ccmixter (fst s') =
            Some \<lparr>contentTypeIndex = (contentTypeIndex (fst (cc_load db s)) + typesToFetch)
                                      mod length CONTENT_TYPES,
                  offsetByType = offsetByType (v_state (fst (B typesToFetch))),
                  cc_lastRun = lr\<rparr>"
    and "http_gets (snd s') = http_gets (snd s) @ map (\<lambda>c. cc_url (cc_key (B c) c) (cc_off (B c) c)) [0..<typesToFetch]"
proof -
  have run: "s' = log CC_SOURCE
                 (''Fetched '' @ show_nat (length (v_tracks (fst (B typesToFetch)))) @ '' unique tracks (''
                    @ show_nat (length (v_errors (fst (B typesToFetch)))) @ '' errors)'')
                 (cc_save (on_clock now) db (v_state (fst (B typesToFetch))) (snd (B typesToFetch)))"
    unfolding s'_def B_def fetchCCMixter_def Let_def snd_conv cc_before_def
    by (rule refl)
  have idx: "contentTypeIndex (v_state (fst (B typesToFetch)))
             = contentTypeIndex (fst (cc_load db s))"
    unfolding B_def by (rule cc_before_index)
  show "\<exists>lr. w_ccmixter (fst s') =
            Some \<lparr>contentTypeIndex = (contentTypeIndex (fst (cc_load db s)) + typesToFetch)
                                      mod length CONTENT_TYPES,
                  offsetByType = offsetByType (v_state (fst (B typesToFetch))),
                  cc_lastRun = lr\<rparr>"
    unfolding run using idx
    by (simp add: db_def cc_save_mem_world)
  have "http_gets (snd s') = http_gets (snd (snd (B typesToFetch)))"
    unfolding run by (simp add: db_def cc_save_mem_gets)
  also have "\<dots> = http_gets (snd (snd (cc_load db s)))
       @ map (\<lambda>c. cc_url (cc_key (B c) c) (cc_off (B c) c)) [0..<typesToFetch]"
    unfolding B_def by (rule cc_before_gets)
  also have "http_gets (snd (snd (cc_load db s))) = http_gets (snd s)"
    by (simp add: cc_load_mem db_def)
  finally show "http_gets (snd s') = http_gets (snd s)
       @ map (\<lambda>c. cc_url (cc_key (B c) c) (cc_off (B c) c)) [0..<typesToFetch]" .
qed

lemma cc_key_before:
  "cc_key (cc_before san fetch db s c) c'
   = CONTENT_TYPES ! ((contentTypeIndex (fst (cc_load db s)) + c') mod length CONTENT_TYPES)"
  by (simp add: cc_key_def cc_before_index)

lemma cc_run_covers:
  fixes san :: "TrackRecord \<Rightarrow> string + 'a TrackRecord_scheme"
    and s :: "('t, 'n mem_world) st"
  assumes "length CONTENT_TYPES \<le> R * typesToFetch" "j < length CONTENT_TYPES"
  shows "\<exists>off. cc_url (CONTENT_TYPES ! j) off \<in> set (http_gets (snd ((cc_run san fetch now ^^ R) s)))"
proof -
  define db where "db = Some (mem_db :: ('a, 'n mem_world) Firestore)"
  define idx where "idx = (\<lambda>s :: ('t, 'n mem_world) st. contentTypeIndex (fst (cc_load db s)))"
  define sel where "sel = (\<lambda>s :: ('t, 'n mem_world) st.
     {j. \<exists>off. cc_url (CONTENT_TYPES ! j) off \<in> set (http_gets (snd s))})"
  define run :: "('t, 'n mem_world) st \<Rightarrow> ('t, 'n mem_world) st" where "run = cc_run san fetch now"
  have P: "0 < length CONTENT_TYPES" by (simp add: CONTENT_TYPES_def)
  have step_idx: "idx (run s) mod length CONTENT_TYPES = (idx s + typesToFetch) mod length CONTENT_TYPES" for s
  proof -
    from cc_run_mem(1) [where san = san and fetch = fetch and now = now and s = s]
    obtain lr where "w_ccmixter (fst (run s)) =
        Some \<lparr>contentTypeIndex = (idx s + typesToFetch) mod length CONTENT_TYPES,
              offsetByType = offsetByType (v_state (fst (cc_before san (on_net fetch) db s typesToFetch))),
              cc_lastRun = lr\<rparr>"
      unfolding run_def cc_run_def idx_def db_def by blast
    then show ?thesis
      by (simp add: idx_def db_def cc_load_mem)
  qed
  have gets: "http_gets (snd (run s)) = http_gets (snd s)
       @ map (\<lambda>c. cc_url (cc_key (cc_before san (on_net fetch) db s c) c)
                      (cc_off (cc_before san (on_net fetch) db s c) c)) [0..<typesToFetch]" for s
    using cc_run_mem(2) [where san = san and fetch = fetch and now = now and s = s] unfolding run_def cc_run_def db_def .
  have step_sel: "(idx s + k) mod length CONTENT_TYPES \<in> sel (run s)" if "k < typesToFetch" for s k
  proof -
    from that have "k \<in> set [0..<typesToFetch]" by simp
    then have "cc_url (cc_key (cc_before san (on_net fetch) db s k) k)
                      (cc_off (cc_before san (on_net fetch) db s k) k) \<in> set (http_gets (snd (run s)))"
      unfolding gets by (simp del: set_upt)
    then show ?thesis
      unfolding sel_def cc_key_before idx_def by blast
  qed
  have mono: "sel s \<subseteq> sel (run s)" for s
    unfolding sel_def gets by auto
  from rotation_runs_cover [of "length CONTENT_TYPES" R typesToFetch idx run sel j s,
         OF P assms(1) step_idx step_sel mono assms(2)]
  show ?thesis by (simp add: sel_def run_def)
qed





lemma mb_fetch_tag_props:
  fixes vs :: "(MBState, 'a) fetch_vars \<times> ('t, 'w) st"
    and ct :: nat
    and fetch :: "string \<Rightarrow> 'w \<Rightarrow> MBRecording list option http_result \<times> 'w"
    and sanitizeTrack :: "TrackRecord \<Rightarrow> string + 'a TrackRecord_scheme"
  defines "key \<equiv> TAG_FILTERS ! ((tagIndex (v_state (fst vs)) + ct) mod length TAG_FILTERS)"
  defines "off \<equiv> (case offsetByTag (v_state (fst vs)) key of None \<Rightarrow> 0 | Some n \<Rightarrow> n)"
  defines "r \<equiv> fst (fetch (mb_url key off) (fst (snd vs)))"
  defines "res \<equiv> mb_fetch_tag sanitizeTrack fetch ct vs"
  shows "tagIndex (v_state (fst res)) = tagIndex (v_state (fst vs))"
    and "\<forall>k. k \<noteq> key \<longrightarrow> offsetByTag (v_state (fst res)) k = offsetByTag (v_state (fst vs)) k"
    and "page_empty r \<longrightarrow> offsetByTag (v_state (fst res)) key = Some 0"
    and "page_items r \<noteq> [] \<and>
           fst (mb_recordings sanitizeTrack key (page_items r) (v_seen (fst vs)) (v_tracks (fst vs))) = None
         \<longrightarrow> offsetByTag (v_state (fst res)) key = Some (off + MB_PAGE_SIZE)"
    and "http_failure r \<longrightarrow> offsetByTag (v_state (fst res)) = offsetByTag (v_state (fst vs))"
    and "fst (snd res) = snd (fetch (mb_url key off) (fst (snd vs)))"
    and "\<exists>ev. snd (snd res) = snd (snd vs) @ ev \<and> http_gets ev = [mb_url key off]"
proof -
  define s2 where "s2 = (snd (fetch (mb_url key off) (fst (snd vs))),
     snd (log MB_SOURCE (''['' @ key @ ''] offset '' @ show_nat off @ ''...'') (snd vs)) @ [HttpGet (mb_url key off)])"
  have unf: "res =
     (case r of
           NetError m \<Rightarrow> ((fst vs)\<lparr>v_errors := v_errors (fst vs) @ [key @ '': '' @ m]\<rparr>, s2)
         | HttpResponse status body \<Rightarrow>
             (if \<not> response_ok status then
                ((fst vs)\<lparr>v_errors := v_errors (fst vs)
                      @ [''HTTP '' @ show_nat status @ '' on tag '' @ key]\<rparr>, s2)
              else
                (case body of
                   Inl m \<Rightarrow> ((fst vs)\<lparr>v_errors := v_errors (fst vs) @ [key @ '': '' @ m]\<rparr>, s2)
                 | Inr records \<Rightarrow>
                     (if records = None \<or> records = Some [] then
                        ((fst vs)\<lparr>v_state := (v_state (fst vs))\<lparr>offsetByTag :=
                              (offsetByTag (v_state (fst vs)))(key \<mapsto> 0)\<rparr>\<rparr>, s2)
                      else
                        (case mb_recordings sanitizeTrack key (the records)
                                (v_seen (fst vs)) (v_tracks (fst vs)) of
                           (Some err, seen', tracks') \<Rightarrow>
                             ((fst vs)\<lparr>v_seen := seen', v_tracks := tracks',
                                v_errors := v_errors (fst vs) @ [key @ '': '' @ err]\<rparr>, s2)
                         | (None, seen', tracks') \<Rightarrow>
                             ((fst vs)\<lparr>v_seen := seen', v_tracks := tracks',
                                v_state := (v_state (fst vs))\<lparr>offsetByTag :=
                                  (offsetByTag (v_state (fst vs)))(key \<mapsto> off + MB_PAGE_SIZE)\<rparr>\<rparr>,
                              sleep 500 s2))))))"
    unfolding res_def mb_fetch_tag_def Let_def fst_log key_def [symmetric]
      off_def [symmetric] r_def [symmetric] s2_def [symmetric]
    by (rule refl)
  have s2: "fst s2 = snd (fetch (mb_url key off) (fst (snd vs)))"
     "snd s2 = snd (snd vs) @ [Log MB_SOURCE (''['' @ key @ ''] offset '' @ show_nat off @ ''...''),
                               HttpGet (mb_url key off)]"
    by (simp_all add: s2_def)
  show "tagIndex (v_state (fst res)) = tagIndex (v_state (fst vs))"
    unfolding unf
    by (simp split: http_result.splits sum.splits prod.splits option.splits)
  show "\<forall>k. k \<noteq> key \<longrightarrow> offsetByTag (v_state (fst res)) k = offsetByTag (v_state (fst vs)) k"
    unfolding unf
    by (simp split: http_result.splits sum.splits prod.splits option.splits)
  show "page_empty r \<longrightarrow> offsetByTag (v_state (fst res)) key = Some 0"
    unfolding unf page_empty_def
    by (auto split: http_result.splits sum.splits prod.splits option.splits)
  show "page_items r \<noteq> [] \<and>
           fst (mb_recordings sanitizeTrack key (page_items r) (v_seen (fst vs)) (v_tracks (fst vs))) = None
         \<longrightarrow> offsetByTag (v_state (fst res)) key = Some (off + MB_PAGE_SIZE)"
    unfolding unf page_items_def
    by (auto split: http_result.splits sum.splits prod.splits option.splits if_splits)
  show "http_failure r \<longrightarrow> offsetByTag (v_state (fst res)) = offsetByTag (v_state (fst vs))"
    unfolding unf http_failure_def
    by (auto split: http_result.splits sum.splits prod.splits option.splits if_splits)
  show "fst (snd res) = snd (fetch (mb_url key off) (fst (snd vs)))"
    unfolding unf using s2(1)
    by (simp add: sleep_def emit_def split: http_result.splits sum.splits prod.splits option.splits)
  show "\<exists>ev. snd (snd res) = snd (snd vs) @ ev \<and> http_gets ev = [mb_url key off]"
    unfolding unf using s2(2)
    by (auto simp: sleep_def emit_def split: http_result.splits sum.splits prod.splits option.splits)
qed


lemma mb_before_0:
  "mb_before san fetch db s 0 =
     (\<lparr>v_state = fst (mb_load db s), v_errors = [], v_seen = {}, v_tracks = []\<rparr>, snd (mb_load db s))"
  by (simp add: mb_before_def)

lemma mb_before_Suc:
  "mb_before san fetch db s (Suc ct) = mb_fetch_tag san fetch ct (mb_before san fetch db s ct)"
  by (simp add: mb_before_def)

lemma mb_load_mem:
  "mb_load (Some mem_db) s =
     ((case w_musicbrainz (fst s) of
         None \<Rightarrow> \<lparr>tagIndex = 0, offsetByTag = Map.empty, mb_lastRun = []\<rparr>
       | Some st \<Rightarrow> st),
      (fst s, snd s @ [DocGet MB_STATE_DOC]))"
  by (simp add: mb_load_def mem_db_def Let_def split: option.splits)

lemma mb_save_mem_world:
  "fst (mb_save (on_clock now) (Some mem_db) st s) =
     (fst s)\<lparr>w_net := snd (now (w_net (fst s))),
             w_musicbrainz := Some \<lparr>tagIndex = (tagIndex st + tagsToFetch) mod length TAG_FILTERS,
                                  offsetByTag = offsetByTag st,
                                  mb_lastRun = fst (now (w_net (fst s)))\<rparr>\<rparr>"
  by (simp add: mb_save_def mem_db_def on_clock_def Let_def)

lemma mb_save_mem_gets:
  "http_gets (snd (mb_save (on_clock now) (Some mem_db) st s)) = http_gets (snd s)"
  by (simp add: mb_save_def mem_db_def on_clock_def Let_def)

lemma mb_turn_mem:
  "w_musicbrainz (fst (snd (mb_fetch_tag san (on_net fetch) ct vs))) = w_musicbrainz (fst (snd vs))"
  using mb_fetch_tag_props(6) [where sanitizeTrack = san and fetch = "on_net fetch" and ct = ct and vs = vs] by simp

lemma mb_before_index:
  "tagIndex (v_state (fst (mb_before san fetch db s ct)))
   = tagIndex (fst (mb_load db s))"
  by (induction ct) (simp_all add: mb_before_0 mb_before_Suc mb_fetch_tag_props(1))

lemma mb_before_gets:
  "http_gets (snd (snd (mb_before san fetch db s ct)))
   = http_gets (snd (snd (mb_load db s)))
     @ map (\<lambda>c. mb_url (mb_key (mb_before san fetch db s c) c) (mb_off (mb_before san fetch db s c) c))
         [0..<ct]"
proof (induction ct)
  case 0
  then show ?case by (simp add: mb_before_0)
next
  case (Suc ct)
  from mb_fetch_tag_props(7) [where sanitizeTrack = san and fetch = fetch and ct = ct
      and vs = "mb_before san fetch db s ct"]
  obtain ev where "snd (snd (mb_before san fetch db s (Suc ct)))
                   = snd (snd (mb_before san fetch db s ct)) @ ev"
    "http_gets ev = [mb_url (mb_key (mb_before san fetch db s ct) ct)
                       (mb_off (mb_before san fetch db s ct) ct)]"
    unfolding mb_before_Suc mb_key_def mb_off_def by blast
  with Suc show ?case by simp
qed

lemma mb_run_mem:
  fixes s :: "('t, 'n mem_world) st"
    and san :: "TrackRecord \<Rightarrow> string + 'a TrackRecord_scheme"
    and fetch :: "string \<Rightarrow> 'n \<Rightarrow> MBRecording list option http_result \<times> 'n"
    and now :: "'n \<Rightarrow> string \<times> 'n"
  defines "db \<equiv> Some (mem_db :: ('a, 'n mem_world) Firestore)"
  defines "s' \<equiv> snd (fetchMusicBrainz san (on_net fetch) (on_clock now) db s)"
  defines "B \<equiv> mb_before san (on_net fetch) db s"
  shows "\<exists>lr. w_musicbrainz (fst s') =
            Some \<lparr>tagIndex = (tagIndex (fst (mb_load db s)) + tagsToFetch)
                                      mod length TAG_FILTERS,
                  offsetByTag = offsetByTag (v_state (fst (B tagsToFetch))),
                  mb_lastRun = lr\<rparr>"
    and "http_gets (snd s') = http_gets (snd s) @ map (\<lambda>c. mb_url (mb_key (B c) c) (mb_off (B c) c)) [0..<tagsToFetch]"
proof -
  have run: "s' = log MB_SOURCE
                 (''Fetched '' @ show_nat (length (v_tracks (fst (B tagsToFetch)))) @ '' unique tracks (''
                    @ show_nat (length (v_errors (fst (B tagsToFetch)))) @ '' errors)'')
                 (mb_save (on_clock now) db (v_state (fst (B tagsToFetch))) (snd (B tagsToFetch)))"
    unfolding s'_def B_def fetchMusicBrainz_def Let_def snd_conv mb_before_def
    by (rule refl)
  have idx: "tagIndex (v_state (fst (B tagsToFetch)))
             = tagIndex (fst (mb_load db s))"
    unfolding B_def by (rule mb_before_index)
  show "\<exists>lr. w_musicbrainz (fst s') =
            Some \<lparr>tagIndex = (tagIndex (fst (mb_load db s)) + tagsToFetch)
                                      mod length TAG_FILTERS,
                  offsetByTag = offsetByTag (v_state (fst (B tagsToFetch))),
                  mb_lastRun = lr\<rparr>"
    unfolding run using idx
    by (simp add: db_def mb_save_mem_world)
  have "http_gets (snd s') = http_gets (snd (snd (B tagsToFetch)))"
    unfolding run by (simp add: db_def mb_save_mem_gets)
  also have "\<dots> = http_gets (snd (snd (mb_load db s)))
       @ map (\<lambda>c. mb_url (mb_key (B c) c) (mb_off (B c) c)) [0..<tagsToFetch]"
    unfolding B_def by (rule mb_before_gets)
  also have "http_gets (snd (snd (mb_load db s))) = http_gets (snd s)"
    by (simp add: mb_load_mem db_def)
  finally show "http_gets (snd s') = http_gets (snd s)
       @ map (\<lambda>c. mb_url (mb_key (B c) c) (mb_off (B c) c)) [0..<tagsToFetch]" .
qed

lemma mb_key_before:
  "mb_key (mb_before san fetch db s c) c'
   = TAG_FILTERS ! ((tagIndex (fst (mb_load db s)) + c') mod length TAG_FILTERS)"
  by (simp add: mb_key_def mb_before_index)

lemma mb_run_covers:
  fixes san :: "TrackRecord \<Rightarrow> string + 'a TrackRecord_scheme"
    and s :: "('t, 'n mem_world) st"
  assumes "length TAG_FILTERS \<le> R * tagsToFetch" "j < length TAG_FILTERS"
  shows "\<exists>off. mb_url (TAG_FILTERS ! j) off \<in> set (http_gets (snd ((mb_run san fetch now ^^ R) s)))"
proof -
  define db where "db = Some (mem_db :: ('a, 'n mem_world) Firestore)"
  define idx where "idx = (\<lambda>s :: ('t, 'n mem_world) st. tagIndex (fst (mb_load db s)))"
  define sel where "sel = (\<lambda>s :: ('t, 'n mem_world) st.
     {j. \<exists>off. mb_url (TAG_FILTERS ! j) off \<in> set (http_gets (snd s))})"
  define run :: "('t, 'n mem_world) st \<Rightarrow> ('t, 'n mem_world) st" where "run = mb_run san fetch now"
  have P: "0 < length TAG_FILTERS" by (simp add: TAG_FILTERS_def)
  have step_idx: "idx (run s) mod length TAG_FILTERS = (idx s + tagsToFetch) mod length TAG_FILTERS" for s
  proof -
    from mb_run_mem(1) [where san = san and fetch = fetch and now = now and s = s]
    obtain lr where "w_musicbrainz (fst (run s)) =
        Some \<lparr>tagIndex = (idx s + tagsToFetch) mod length TAG_FILTERS,
              offsetByTag = offsetByTag (v_state (fst (mb_before san (on_net fetch) db s tagsToFetch))),
              mb_lastRun = lr\<rparr>"
      unfolding run_def mb_run_def idx_def db_def by blast
    then show ?thesis
      by (simp add: idx_def db_def mb_load_mem)
  qed
  have gets: "http_gets (snd (run s)) = http_gets (snd s)
       @ map (\<lambda>c. mb_url (mb_key (mb_before san (on_net fetch) db s c) c)
                      (mb_off (mb_before san (on_net fetch) db s c) c)) [0..<tagsToFetch]" for s
    using mb_run_mem(2) [where san = san and fetch = fetch and now = now and s = s] unfolding run_def mb_run_def db_def .
  have step_sel: "(idx s + k) mod length TAG_FILTERS \<in> sel (run s)" if "k < tagsToFetch" for s k
  proof -
    from that have "k \<in> set [0..<tagsToFetch]" by simp
    then have "mb_url (mb_key (mb_before san (on_net fetch) db s k) k)
                      (mb_off (mb_before san (on_net fetch) db s k) k) \<in> set (http_gets (snd (run s)))"
      unfolding gets by (simp del: set_upt)
    then show ?thesis
      unfolding sel_def mb_key_before idx_def by blast
  qed
  have mono: "sel s \<subseteq> sel (run s)" for s
    unfolding sel_def gets by auto
  from rotation_runs_cover [of "length TAG_FILTERS" R tagsToFetch idx run sel j s,
         OF P assms(1) step_idx step_sel mono assms(2)]
  show ?thesis by (simp add: sel_def run_def)
qed





lemma dg_fetch_search_props:
  fixes vs :: "(DiscogsState, 'a) fetch_vars \<times> ('t, 'w) st"
    and ct :: nat
    and fetch :: "string \<Rightarrow> 'w \<Rightarrow> DiscogsRelease list option http_result \<times> 'w"
    and sanitizeTrack :: "TrackRecord \<Rightarrow> string + 'a TrackRecord_scheme"
    and tok :: string
  defines "key \<equiv> SEARCHES ! ((searchIndex (v_state (fst vs)) + ct) mod length SEARCHES)"
  defines "off \<equiv> (case offsetBySearch (v_state (fst vs)) key of None \<Rightarrow> 0 | Some n \<Rightarrow> n)"
  defines "r \<equiv> fst (fetch (dg_req tok key off) (fst (snd vs)))"
  defines "res \<equiv> dg_fetch_search sanitizeTrack fetch tok ct vs"
  shows "searchIndex (v_state (fst res)) = searchIndex (v_state (fst vs))"
    and "\<forall>k. k \<noteq> key \<longrightarrow> offsetBySearch (v_state (fst res)) k = offsetBySearch (v_state (fst vs)) k"
    and "page_empty r \<longrightarrow> offsetBySearch (v_state (fst res)) key = Some 0"
    and "page_items r \<noteq> [] \<and>
           fst (dg_results sanitizeTrack (page_items r) (v_seen (fst vs)) (v_tracks (fst vs))) = None
         \<longrightarrow> offsetBySearch (v_state (fst res)) key = Some (off + DG_PAGE_SIZE)"
    and "http_failure r \<longrightarrow> offsetBySearch (v_state (fst res)) = offsetBySearch (v_state (fst vs))"
    and "fst (snd res) = snd (fetch (dg_req tok key off) (fst (snd vs)))"
    and "\<exists>ev. snd (snd res) = snd (snd vs) @ ev \<and> http_gets ev = [dg_req tok key off]"
proof -
  define msg where "msg = ''['' @ show_nat ((searchIndex (v_state (fst vs)) + ct) mod length SEARCHES)
     @ ''] '' @ [CHR 0x22] @ key @ [CHR 0x22] @ '' page '' @ show_nat (off div DG_PAGE_SIZE + 1) @ ''...''"
  define s2 where "s2 = (snd (fetch (dg_req tok key off) (fst (snd vs))),
     snd (log DG_SOURCE msg (snd vs)) @ [HttpGet (dg_req tok key off)])"
  have unf: "res =
     (case r of
           NetError m \<Rightarrow> ((fst vs)\<lparr>v_errors := v_errors (fst vs) @ [''Search '' @ [CHR 0x22] @ key @ [CHR 0x22] @ '': '' @ m]\<rparr>, s2)
         | HttpResponse status body \<Rightarrow>
             (if \<not> response_ok status then
                ((fst vs)\<lparr>v_errors := v_errors (fst vs)
                      @ [''HTTP '' @ show_nat status @ '' on search '' @ [CHR 0x22] @ key
                           @ [CHR 0x22]]\<rparr>, s2)
              else
                (case body of
                   Inl m \<Rightarrow> ((fst vs)\<lparr>v_errors := v_errors (fst vs) @ [''Search '' @ [CHR 0x22] @ key @ [CHR 0x22] @ '': '' @ m]\<rparr>, s2)
                 | Inr records \<Rightarrow>
                     (if records = None \<or> records = Some [] then
                        ((fst vs)\<lparr>v_state := (v_state (fst vs))\<lparr>offsetBySearch :=
                              (offsetBySearch (v_state (fst vs)))(key \<mapsto> 0)\<rparr>\<rparr>, s2)
                      else
                        (case dg_results sanitizeTrack (the records)
                                (v_seen (fst vs)) (v_tracks (fst vs)) of
                           (Some err, seen', tracks') \<Rightarrow>
                             ((fst vs)\<lparr>v_seen := seen', v_tracks := tracks',
                                v_errors := v_errors (fst vs) @ [''Search '' @ [CHR 0x22] @ key @ [CHR 0x22] @ '': '' @ err]\<rparr>, s2)
                         | (None, seen', tracks') \<Rightarrow>
                             ((fst vs)\<lparr>v_seen := seen', v_tracks := tracks',
                                v_state := (v_state (fst vs))\<lparr>offsetBySearch :=
                                  (offsetBySearch (v_state (fst vs)))(key \<mapsto> off + DG_PAGE_SIZE)\<rparr>\<rparr>,
                              sleep 600 s2))))))"
    unfolding res_def dg_fetch_search_def Let_def fst_log key_def [symmetric]
      off_def [symmetric] dg_req_def [symmetric] r_def [symmetric] msg_def [symmetric]
      s2_def [symmetric]
    by (rule refl)
  have s2: "fst s2 = snd (fetch (dg_req tok key off) (fst (snd vs)))"
     "snd s2 = snd (snd vs) @ [Log DG_SOURCE msg,
                               HttpGet (dg_req tok key off)]"
    by (simp_all add: s2_def)
  show "searchIndex (v_state (fst res)) = searchIndex (v_state (fst vs))"
    unfolding unf
    by (simp split: http_result.splits sum.splits prod.splits option.splits)
  show "\<forall>k. k \<noteq> key \<longrightarrow> offsetBySearch (v_state (fst res)) k = offsetBySearch (v_state (fst vs)) k"
    unfolding unf
    by (simp split: http_result.splits sum.splits prod.splits option.splits)
  show "page_empty r \<longrightarrow> offsetBySearch (v_state (fst res)) key = Some 0"
    unfolding unf page_empty_def
    by (auto split: http_result.splits sum.splits prod.splits option.splits)
  show "page_items r \<noteq> [] \<and>
           fst (dg_results sanitizeTrack (page_items r) (v_seen (fst vs)) (v_tracks (fst vs))) = None
         \<longrightarrow> offsetBySearch (v_state (fst res)) key = Some (off + DG_PAGE_SIZE)"
    unfolding unf page_items_def
    by (auto split: http_result.splits sum.splits prod.splits option.splits if_splits)
  show "http_failure r \<longrightarrow> offsetBySearch (v_state (fst res)) = offsetBySearch (v_state (fst vs))"
    unfolding unf http_failure_def
    by (auto split: http_result.splits sum.splits prod.splits option.splits if_splits)
  show "fst (snd res) = snd (fetch (dg_req tok key off) (fst (snd vs)))"
    unfolding unf using s2(1)
    by (simp add: sleep_def emit_def split: http_result.splits sum.splits prod.splits option.splits)
  show "\<exists>ev. snd (snd res) = snd (snd vs) @ ev \<and> http_gets ev = [dg_req tok key off]"
    unfolding unf using s2(2)
    by (auto simp: sleep_def emit_def split: http_result.splits sum.splits prod.splits option.splits)
qed


lemma dg_before_0:
  "dg_before tok san fetch db s 0 =
     (\<lparr>v_state = fst (dg_load db s), v_errors = [], v_seen = {}, v_tracks = []\<rparr>, snd (dg_load db s))"
  by (simp add: dg_before_def)

lemma dg_before_Suc:
  "dg_before tok san fetch db s (Suc ct) = dg_fetch_search san fetch tok ct (dg_before tok san fetch db s ct)"
  by (simp add: dg_before_def)

lemma dg_load_mem:
  "dg_load (Some mem_db) s =
     ((case w_discogs (fst s) of
         None \<Rightarrow> \<lparr>searchIndex = 0, offsetBySearch = Map.empty, dg_lastRun = []\<rparr>
       | Some st \<Rightarrow> st),
      (fst s, snd s @ [DocGet DG_STATE_DOC]))"
  by (simp add: dg_load_def mem_db_def Let_def split: option.splits)

lemma dg_save_mem_world:
  "fst (dg_save (on_clock now) (Some mem_db) st s) =
     (fst s)\<lparr>w_net := snd (now (w_net (fst s))),
             w_discogs := Some \<lparr>searchIndex = (searchIndex st + searchesToFetch) mod length SEARCHES,
                                  offsetBySearch = offsetBySearch st,
                                  dg_lastRun = fst (now (w_net (fst s)))\<rparr>\<rparr>"
  by (simp add: dg_save_def mem_db_def on_clock_def Let_def)

lemma dg_save_mem_gets:
  "http_gets (snd (dg_save (on_clock now) (Some mem_db) st s)) = http_gets (snd s)"
  by (simp add: dg_save_def mem_db_def on_clock_def Let_def)

lemma dg_turn_mem:
  "w_discogs (fst (snd (dg_fetch_search san (on_net fetch) tok ct vs))) = w_discogs (fst (snd vs))"
  using dg_fetch_search_props(6) [where tok = tok and sanitizeTrack = san and fetch = "on_net fetch" and ct = ct and vs = vs] by simp

lemma dg_before_index:
  "searchIndex (v_state (fst (dg_before tok san fetch db s ct)))
   = searchIndex (fst (dg_load db s))"
  by (induction ct) (simp_all add: dg_before_0 dg_before_Suc dg_fetch_search_props(1))

lemma dg_before_gets:
  "http_gets (snd (snd (dg_before tok san fetch db s ct)))
   = http_gets (snd (snd (dg_load db s)))
     @ map (\<lambda>c. dg_req tok (dg_key (dg_before tok san fetch db s c) c) (dg_off (dg_before tok san fetch db s c) c))
         [0..<ct]"
proof (induction ct)
  case 0
  then show ?case by (simp add: dg_before_0)
next
  case (Suc ct)
  from dg_fetch_search_props(7) [where tok = tok and sanitizeTrack = san and fetch = fetch and ct = ct
      and vs = "dg_before tok san fetch db s ct"]
  obtain ev where "snd (snd (dg_before tok san fetch db s (Suc ct)))
                   = snd (snd (dg_before tok san fetch db s ct)) @ ev"
    "http_gets ev = [dg_req tok (dg_key (dg_before tok san fetch db s ct) ct)
                       (dg_off (dg_before tok san fetch db s ct) ct)]"
    unfolding dg_before_Suc dg_key_def dg_off_def by blast
  with Suc show ?case by simp
qed

lemma dg_run_mem:
  fixes s :: "('t, 'n mem_world) st"
    and san :: "TrackRecord \<Rightarrow> string + 'a TrackRecord_scheme"
    and fetch :: "string \<Rightarrow> 'n \<Rightarrow> DiscogsRelease list option http_result \<times> 'n"
    and now :: "'n \<Rightarrow> string \<times> 'n"
    and tok :: string
  defines "db \<equiv> Some (mem_db :: ('a, 'n mem_world) Firestore)"
  defines "s' \<equiv> snd (fetchDiscogs (Some tok) san (on_net fetch) (on_clock now) db s)"
  defines "B \<equiv> dg_before tok san (on_net fetch) db s"
  assumes tok: "tok \<noteq> []"
  shows "\<exists>lr. w_discogs (fst s') =
            Some \<lparr>searchIndex = (searchIndex (fst (dg_load db s)) + searchesToFetch)
                                      mod length SEARCHES,
                  offsetBySearch = offsetBySearch (v_state (fst (B searchesToFetch))),
                  dg_lastRun = lr\<rparr>"
    and "http_gets (snd s') = http_gets (snd s) @ map (\<lambda>c. dg_req tok (dg_key (B c) c) (dg_off (B c) c)) [0..<searchesToFetch]"
proof -
  have given: "(Some tok = None \<or> Some tok = Some []) = False" using tok by simp
  have run: "s' = log DG_SOURCE
                 (''Fetched '' @ show_nat (length (v_tracks (fst (B searchesToFetch)))) @ '' unique tracks (''
                    @ show_nat (length (v_errors (fst (B searchesToFetch)))) @ '' errors)'')
                 (dg_save (on_clock now) db (v_state (fst (B searchesToFetch))) (snd (B searchesToFetch)))"
    unfolding s'_def B_def fetchDiscogs_def given if_False option.sel Let_def snd_conv dg_before_def
    by (rule refl)
  have idx: "searchIndex (v_state (fst (B searchesToFetch)))
             = searchIndex (fst (dg_load db s))"
    unfolding B_def by (rule dg_before_index)
  show "\<exists>lr. w_discogs (fst s') =
            Some \<lparr>searchIndex = (searchIndex (fst (dg_load db s)) + searchesToFetch)
                                      mod length SEARCHES,
                  offsetBySearch = offsetBySearch (v_state (fst (B searchesToFetch))),
                  dg_lastRun = lr\<rparr>"
    unfolding run using idx
    by (simp add: db_def dg_save_mem_world)
  have "http_gets (snd s') = http_gets (snd (snd (B searchesToFetch)))"
    unfolding run by (simp add: db_def dg_save_mem_gets)
  also have "\<dots> = http_gets (snd (snd (dg_load db s)))
       @ map (\<lambda>c. dg_req tok (dg_key (B c) c) (dg_off (B c) c)) [0..<searchesToFetch]"
    unfolding B_def by (rule dg_before_gets)
  also have "http_gets (snd (snd (dg_load db s))) = http_gets (snd s)"
    by (simp add: dg_load_mem db_def)
  finally show "http_gets (snd s') = http_gets (snd s)
       @ map (\<lambda>c. dg_req tok (dg_key (B c) c) (dg_off (B c) c)) [0..<searchesToFetch]" .
qed

lemma dg_key_before:
  "dg_key (dg_before tok san fetch db s c) c'
   = SEARCHES ! ((searchIndex (fst (dg_load db s)) + c') mod length SEARCHES)"
  by (simp add: dg_key_def dg_before_index)

lemma dg_run_covers:
  fixes san :: "TrackRecord \<Rightarrow> string + 'a TrackRecord_scheme"
    and s :: "('t, 'n mem_world) st"
  assumes "length SEARCHES \<le> R * searchesToFetch" "j < length SEARCHES"
    and tok: "tok \<noteq> []"
  shows "\<exists>off. dg_req tok (SEARCHES ! j) off \<in> set (http_gets (snd ((dg_run tok san fetch now ^^ R) s)))"
proof -
  define db where "db = Some (mem_db :: ('a, 'n mem_world) Firestore)"
  define idx where "idx = (\<lambda>s :: ('t, 'n mem_world) st. searchIndex (fst (dg_load db s)))"
  define sel where "sel = (\<lambda>s :: ('t, 'n mem_world) st.
     {j. \<exists>off. dg_req tok (SEARCHES ! j) off \<in> set (http_gets (snd s))})"
  define run :: "('t, 'n mem_world) st \<Rightarrow> ('t, 'n mem_world) st" where "run = dg_run tok san fetch now"
  have P: "0 < length SEARCHES" by (simp add: SEARCHES_def)
  have step_idx: "idx (run s) mod length SEARCHES = (idx s + searchesToFetch) mod length SEARCHES" for s
  proof -
    from dg_run_mem(1) [where tok = tok and san = san and fetch = fetch and now = now and s = s, OF tok]
    obtain lr where "w_discogs (fst (run s)) =
        Some \<lparr>searchIndex = (idx s + searchesToFetch) mod length SEARCHES,
              offsetBySearch = offsetBySearch (v_state (fst (dg_before tok san (on_net fetch) db s searchesToFetch))),
              dg_lastRun = lr\<rparr>"
      unfolding run_def dg_run_def idx_def db_def by blast
    then show ?thesis
      by (simp add: idx_def db_def dg_load_mem)
  qed
  have gets: "http_gets (snd (run s)) = http_gets (snd s)
       @ map (\<lambda>c. dg_req tok (dg_key (dg_before tok san (on_net fetch) db s c) c)
                      (dg_off (dg_before tok san (on_net fetch) db s c) c)) [0..<searchesToFetch]" for s
    using dg_run_mem(2) [where tok = tok and san = san and fetch = fetch and now = now and s = s, OF tok] unfolding run_def dg_run_def db_def .
  have step_sel: "(idx s + k) mod length SEARCHES \<in> sel (run s)" if "k < searchesToFetch" for s k
  proof -
    from that have "k \<in> set [0..<searchesToFetch]" by simp
    then have "dg_req tok (dg_key (dg_before tok san (on_net fetch) db s k) k)
                      (dg_off (dg_before tok san (on_net fetch) db s k) k) \<in> set (http_gets (snd (run s)))"
      unfolding gets by (simp del: set_upt)
    then show ?thesis
      unfolding sel_def dg_key_before idx_def by blast
  qed
  have mono: "sel s \<subseteq> sel (run s)" for s
    unfolding sel_def gets by auto
  from rotation_runs_cover [of "length SEARCHES" R searchesToFetch idx run sel j s,
         OF P assms(1) step_idx step_sel mono assms(2)]
  show ?thesis by (simp add: sel_def run_def)
qed





text \<open>
  Claim C3. For the ccMixter, MusicBrainz and Discogs adapters, run on a Firestore that
  keeps what is saved: from any stored progress state (any index, any offsets), after
  \<open>R\<close> consecutive calls with \<open>R\<close> times the number of partitions per call at least the
  number of partitions, a page of every partition has been requested in one of those
  calls, whatever the provider answered.
\<close>

theorem C3_rotation_covers:
  fixes w :: "'n mem_world"
    and san :: "TrackRecord \<Rightarrow> string + 'a TrackRecord_scheme"
  shows "(length CONTENT_TYPES \<le> R * typesToFetch \<longrightarrow>
            (\<forall>c \<in> set CONTENT_TYPES. \<exists>off.
               cc_url c off \<in> set (http_gets (snd ((cc_run san cfetch now ^^ R) (w, []))))))
       \<and> (length TAG_FILTERS \<le> R * tagsToFetch \<longrightarrow>
            (\<forall>c \<in> set TAG_FILTERS. \<exists>off.
               mb_url c off \<in> set (http_gets (snd ((mb_run san mfetch now ^^ R) (w, []))))))
       \<and> (tok \<noteq> [] \<and> length SEARCHES \<le> R * searchesToFetch \<longrightarrow>
            (\<forall>c \<in> set SEARCHES. \<exists>off.
               dg_req tok c off \<in> set (http_gets (snd ((dg_run tok san dfetch now ^^ R) (w, []))))))"
proof (intro conjI impI ballI)
  fix c
  assume "length CONTENT_TYPES \<le> R * typesToFetch" "c \<in> set CONTENT_TYPES"
  then show "\<exists>off. cc_url c off \<in> set (http_gets (snd ((cc_run san cfetch now ^^ R) (w, []))))"
    using cc_run_covers [where R = R and san = san and fetch = cfetch and now = now and s = "(w, [])"]
    by (auto simp: in_set_conv_nth)
next
  fix c
  assume "length TAG_FILTERS \<le> R * tagsToFetch" "c \<in> set TAG_FILTERS"
  then show "\<exists>off. mb_url c off \<in> set (http_gets (snd ((mb_run san mfetch now ^^ R) (w, []))))"
    using mb_run_covers [where R = R and san = san and fetch = mfetch and now = now and s = "(w, [])"]
    by (auto simp: in_set_conv_nth)
next
  fix c
  assume "tok \<noteq> [] \<and> length SEARCHES \<le> R * searchesToFetch" "c \<in> set SEARCHES"
  then show "\<exists>off. dg_req tok c off \<in> set (http_gets (snd ((dg_run tok san dfetch now ^^ R) (w, []))))"
    using dg_run_covers [where R = R and tok = tok and san = san and fetch = dfetch and now = now
        and s = "(w, [])"]
    by (auto simp: in_set_conv_nth)
qed

theorem C3_rotation_covers_witness:
  "length CONTENT_TYPES \<le> 5 * typesToFetch \<and> length TAG_FILTERS \<le> 5 * tagsToFetch
   \<and> ''k'' \<noteq> [] \<and> length SEARCHES \<le> 5 * searchesToFetch
   \<and> (\<exists>off. cc_url ''cover'' off
              \<in> set (http_gets (snd ((cc_run Inr empty_pages fixed_clock ^^ 5) fresh))))
   \<and> (\<exists>off. mb_url ''ambient'' off
              \<in> set (http_gets (snd ((mb_run Inr empty_pages fixed_clock ^^ 5) fresh))))
   \<and> (\<exists>off. dg_req ''k'' ''genre:metal year:[2010 TO 2026] type:release'' off
              \<in> set (http_gets (snd ((dg_run ''k'' Inr empty_pages fixed_clock ^^ 5) fresh))))"
proof -
  have f: "fresh = (fst fresh, [])" by (simp add: fresh_def)
  have a: "length CONTENT_TYPES \<le> 5 * typesToFetch" "''cover'' \<in> set CONTENT_TYPES"
    by (simp_all add: CONTENT_TYPES_def typesToFetch_def)
  have b: "length TAG_FILTERS \<le> 5 * tagsToFetch" "''ambient'' \<in> set TAG_FILTERS"
    by (simp_all add: TAG_FILTERS_def tagsToFetch_def)
  have c: "''k'' \<noteq> [] \<and> length SEARCHES \<le> 5 * searchesToFetch"
    "''genre:metal year:[2010 TO 2026] type:release'' \<in> set SEARCHES"
    by (simp_all add: SEARCHES_def searchesToFetch_def)
  note all = C3_rotation_covers [where R = 5 and san = Inr and now = fixed_clock
      and cfetch = empty_pages and mfetch = empty_pages and dfetch = empty_pages and tok = "''k''"]
  have "\<exists>off. cc_url ''cover'' off
              \<in> set (http_gets (snd ((cc_run Inr empty_pages fixed_clock ^^ 5) fresh)))"
    by (subst f) (rule all [THEN conjunct1, rule_format, OF a])
  moreover have "\<exists>off. mb_url ''ambient'' off
              \<in> set (http_gets (snd ((mb_run Inr empty_pages fixed_clock ^^ 5) fresh)))"
    by (subst f) (rule all [THEN conjunct2, THEN conjunct1, rule_format, OF b])
  moreover have "\<exists>off. dg_req ''k'' ''genre:metal year:[2010 TO 2026] type:release'' off
              \<in> set (http_gets (snd ((dg_run ''k'' Inr empty_pages fixed_clock ^^ 5) fresh)))"
    by (subst f) (rule all [THEN conjunct2, THEN conjunct2, rule_format, OF c])
  ultimately show ?thesis using a(1) b(1) c(1) by blast
qed




subsection \<open>A run with one record dropped and one already in the catalog\<close>



end
